(* ===== verification/Go_Base.thy ===== *)
theory Go_Base
  imports
    Main
    "HOL-Library.Multiset"
    "HOL-Library.Char_ord"
    "HOL-Library.List_Lexorder"
    "HOL-Library.Sublist"
begin

text \<open>
  The prelude of the Loglight development: what the Go sources use of the language and of its
  standard library, and the generic lemmas the component theories share.

  \<^item> \<open>time\<close> and \<open>duration\<close>: an instant is an integer number of nanoseconds since Go's zero
    instant (so \<open>IsZero\<close> is comparison with 0), a duration is an integer number of nanoseconds;
    \<open>Sub\<close> saturates at the limits of \<open>int64\<close> as Go's does, and arithmetic that can wrap uses
    \<open>wrap64\<close>.
  \<^item> errors: \<open>error\<close> holds the error values of the sources; a fallible call returns
    \<open>error + 'a\<close> or an \<open>error option\<close>.
  \<^item> Go maps that are only read and written by key are HOL maps. Maps that are ranged over are
    association lists with distinct keys (\<open>gomap\<close>); a Go \<open>range\<close> visits them in an arbitrary
    order, which is a parameter \<open>iter\<close> with \<open>iteration_order iter\<close>.
  \<^item> strings are byte lists, as Go strings are; \<open>TrimSpace\<close> knows the UTF-8 encodings of every
    Unicode space, \<open>itoa\<close> prints decimals.
  \<^item> \<open>go_defs\<close> collects definitions to unfold and \<open>gomap_simps\<close> the laws of association lists.
\<close>

named_theorems go_defs
named_theorems gomap_simps

subsection \<open>Time\<close>

type_synonym time = int
type_synonym duration = int

definition maxInt64 :: int where
  "maxInt64 = 2 ^ 63 - 1"

definition minInt64 :: int where
  "minInt64 = - (2 ^ 63)"

definition wrap64 :: "int \<Rightarrow> int" where
  "wrap64 x = (x + 2 ^ 63) mod 2 ^ 64 - 2 ^ 63"

definition nanosecond :: duration where
  "nanosecond = 1"

definition millisecond :: duration where
  "millisecond = 1000000"

definition second :: duration where
  "second = 1000000000"

definition minute :: duration where
  "minute = 60 * second"

definition hour :: duration where
  "hour = 60 * minute"

definition IsZero :: "time \<Rightarrow> bool" where
  "IsZero t \<longleftrightarrow> t = 0"

definition zero_time :: time where
  "zero_time = 0"

definition Before :: "time \<Rightarrow> time \<Rightarrow> bool" where
  "Before t u \<longleftrightarrow> t < u"

definition After :: "time \<Rightarrow> time \<Rightarrow> bool" where
  "After t u \<longleftrightarrow> u < t"

definition Add :: "time \<Rightarrow> duration \<Rightarrow> time" where
  "Add t d = t + d"

definition Sub :: "time \<Rightarrow> time \<Rightarrow> duration" where
  "Sub t u = (let d = t - u in if d > maxInt64 then maxInt64 else if d < minInt64 then minInt64 else d)"

lemmas time_defs = IsZero_def Before_def After_def Add_def zero_time_def

declare time_defs [go_defs] second_def [go_defs] minute_def [go_defs] hour_def [go_defs]
  millisecond_def [go_defs] nanosecond_def [go_defs]

lemma wrap64_id: "minInt64 \<le> x \<Longrightarrow> x \<le> maxInt64 \<Longrightarrow> wrap64 x = x"
  by (simp add: wrap64_def minInt64_def maxInt64_def)

lemma wrap64_range: "minInt64 \<le> wrap64 x \<and> wrap64 x \<le> maxInt64"
proof -
  have "0 \<le> (x + 2 ^ 63) mod 2 ^ 64" and "(x + 2 ^ 63) mod (2 ^ 64 :: int) < 2 ^ 64"
    by (rule pos_mod_sign, simp, rule pos_mod_bound, simp)
  then show ?thesis
    by (simp add: wrap64_def minInt64_def maxInt64_def)
qed

lemma wrap64_add: "wrap64 (wrap64 a + b) = wrap64 (a + b)"
proof -
  have "((a + 2 ^ 63) mod 2 ^ 64 - 2 ^ 63 + b + 2 ^ 63) mod 2 ^ 64 = ((a + 2 ^ 63) mod 2 ^ 64 + b) mod (2 ^ 64 :: int)"
    by simp
  also have "\<dots> = (a + b + 2 ^ 63) mod 2 ^ 64"
    by (simp only: mod_add_left_eq) (simp add: algebra_simps)
  finally show ?thesis by (simp only: wrap64_def)
qed

lemma wrap64_0 [simp]: "wrap64 0 = 0"
  by (simp add: wrap64_def)

text \<open>Comparisons of a saturating difference with an \<open>int64\<close> bound are exact.\<close>

lemma Sub_less_iff:
  "minInt64 < d \<Longrightarrow> d \<le> maxInt64 \<Longrightarrow> Sub t u < d \<longleftrightarrow> t - u < d"
  by (auto simp: Sub_def Let_def maxInt64_def minInt64_def)

lemma Sub_le_iff:
  "minInt64 \<le> d \<Longrightarrow> d < maxInt64 \<Longrightarrow> Sub t u \<le> d \<longleftrightarrow> t - u \<le> d"
  by (auto simp: Sub_def Let_def maxInt64_def minInt64_def)

lemma Sub_range: "minInt64 \<le> Sub t u \<and> Sub t u \<le> maxInt64"
  by (auto simp: Sub_def Let_def maxInt64_def minInt64_def)

lemma Sub_exact: "minInt64 \<le> t - u \<Longrightarrow> t - u \<le> maxInt64 \<Longrightarrow> Sub t u = t - u"
  by (auto simp: Sub_def Let_def)

lemma Sub_self [simp]: "Sub t t = 0"
  by (simp add: Sub_def maxInt64_def minInt64_def)

lemma Sub_mono: "t \<le> t' \<Longrightarrow> Sub t u \<le> Sub t' u"
  by (auto simp: Sub_def Let_def maxInt64_def minInt64_def)

subsection \<open>Errors\<close>

datatype error =
    IngestError (errField: string) (errReason: string)
  | Errorf string
  | ContextCanceled
  | DeadlineExceeded

text \<open>A Go loop over a slice whose body may return early with an error.\<close>

fun for_each :: "('a \<Rightarrow> 's \<Rightarrow> 'e option \<times> 's) \<Rightarrow> 'a list \<Rightarrow> 's \<Rightarrow> 'e option \<times> 's" where
  "for_each body [] st = (None, st)"
| "for_each body (x # xs) st =
     (case body x st of
        (Some e, st') \<Rightarrow> (Some e, st')
      | (None, st') \<Rightarrow> for_each body xs st')"

lemma for_each_None_Cons:
  "for_each body (x # xs) st = (None, st') \<longleftrightarrow>
     (\<exists>st1. body x st = (None, st1) \<and> for_each body xs st1 = (None, st'))"
  by (auto split: prod.splits option.splits)

lemma for_each_total:
  "(\<And>x st. fst (body x st) = None) \<Longrightarrow> fst (for_each body xs st) = None"
proof (induction xs arbitrary: st)
  case (Cons x xs)
  obtain st' where "body x st = (None, st')"
    using Cons.prems [of x st] by (metis prod.collapse)
  with Cons show ?case by simp
qed simp

subsection \<open>Go maps\<close>

type_synonym ('k, 'v) gomap = "('k \<times> 'v) list"

fun map_put :: "'k \<Rightarrow> 'v \<Rightarrow> ('k, 'v) gomap \<Rightarrow> ('k, 'v) gomap" where
  "map_put k v [] = [(k, v)]"
| "map_put k v ((k', v') # m) = (if k' = k then (k, v) # m else (k', v') # map_put k v m)"

definition map_del :: "'k \<Rightarrow> ('k, 'v) gomap \<Rightarrow> ('k, 'v) gomap" where
  "map_del k m = filter (\<lambda>(k', _). k' \<noteq> k) m"

definition map_keys :: "('k, 'v) gomap \<Rightarrow> 'k list" where
  "map_keys m = map fst m"

definition wf_map :: "('k, 'v) gomap \<Rightarrow> bool" where
  "wf_map m \<longleftrightarrow> distinct (map fst m)"

text \<open>The order in which a Go \<open>range\<close> visits a map is unspecified and may differ between two
  loops: a permutation chosen by the run time.\<close>

definition iteration_order :: "('a list \<Rightarrow> 'a list) \<Rightarrow> bool" where
  "iteration_order iter \<longleftrightarrow> (\<forall>xs. mset (iter xs) = mset xs)"

lemma map_of_map_put [gomap_simps]: "map_of (map_put k v m) = (map_of m)(k \<mapsto> v)"
  by (induction k v m rule: map_put.induct) (auto simp: fun_eq_iff)

lemma set_keys_map_put [gomap_simps]: "fst ` set (map_put k v m) = insert k (fst ` set m)"
  by (induction k v m rule: map_put.induct) auto

lemma wf_map_put [intro]: "wf_map m \<Longrightarrow> wf_map (map_put k v m)"
proof (induction k v m rule: map_put.induct)
  case (2 k v k' v' m)
  then show ?case
    using set_keys_map_put [of k v m] by (auto simp: wf_map_def)
qed (simp add: wf_map_def)

lemma wf_map_del [intro]: "wf_map m \<Longrightarrow> wf_map (map_del k m)"
  by (induction m) (auto simp: wf_map_def map_del_def)

lemma map_of_map_del [gomap_simps]: "map_of (map_del k m) = (map_of m)(k := None)"
  by (induction m) (auto simp: map_del_def fun_eq_iff)

lemma wf_map_Nil [simp, intro]: "wf_map []"
  by (simp add: wf_map_def)

lemma wf_map_single [simp, intro]: "wf_map [kv]"
  by (simp add: wf_map_def)

lemma in_set_map_of: "wf_map m \<Longrightarrow> (k, v) \<in> set m \<longleftrightarrow> map_of m k = Some v"
  by (simp add: wf_map_def map_of_eq_Some_iff)

lemma values_of_wf_map: "wf_map m \<Longrightarrow> snd ` set m = {v. \<exists>k. map_of m k = Some v}"
  by (force simp: wf_map_def map_of_eq_Some_iff image_iff)

lemma wf_map_filter [intro]: "wf_map m \<Longrightarrow> wf_map (filter P m)"
  by (auto simp: wf_map_def distinct_map_filter)

lemma map_of_filter_wf:
  "wf_map m \<Longrightarrow> map_of (filter P m) k = (case map_of m k of None \<Rightarrow> None | Some v \<Rightarrow> if P (k, v) then Some v else None)"
  using in_set_map_of [of m k] in_set_map_of [of "filter P m" k] wf_map_filter [of m P]
  by (auto split: option.split) (metis not_None_eq)+

lemma length_wf_map: "wf_map m \<Longrightarrow> length m = card (dom (map_of m))"
  by (metis wf_map_def distinct_card dom_map_of_conv_image_fst length_map list.set_map)

lemma iteration_order_set: "iteration_order iter \<Longrightarrow> set (iter xs) = set xs"
  by (metis iteration_order_def set_mset_mset)

lemma iteration_order_distinct: "iteration_order iter \<Longrightarrow> distinct (iter xs) = distinct xs"
  by (metis iteration_order_def mset_eq_imp_distinct_iff)

lemma iteration_order_length: "iteration_order iter \<Longrightarrow> length (iter xs) = length xs"
  by (metis iteration_order_def mset_eq_length)

lemma iteration_order_filter:
  "iteration_order iter \<Longrightarrow> mset (filter P (iter xs)) = mset (filter P xs)"
  by (simp add: iteration_order_def)

lemma iteration_order_id [simp]: "iteration_order (\<lambda>xs. xs)"
  by (simp add: iteration_order_def)

lemma iteration_order_rev [simp]: "iteration_order rev"
  by (simp add: iteration_order_def)

subsection \<open>Tables with a key\<close>

text \<open>SQL rows are lists; these are the laws of \<^verbatim>\<open>INSERT ... ON CONFLICT(k) DO UPDATE\<close> and of a query by key.\<close>

lemma find_unique_key: "distinct (map k ws) \<Longrightarrow> find (\<lambda>w. k w = x) ws = Some w \<longleftrightarrow> w \<in> set ws \<and> k w = x"
  by (induction ws) auto

lemma find_snoc: "find P (us @ [n]) = (case find P us of None \<Rightarrow> if P n then Some n else None | Some w \<Rightarrow> Some w)"
  by (induction us) auto

lemma find_upsert:
  assumes "\<And>w. k (f w) = k w"
  shows "find (\<lambda>w. k w = x) (if list_ex (\<lambda>w. k w = k n) ws then map (\<lambda>w. if k w = k n then f w else w) ws else ws @ [n]) =
    (if x = k n then Some (case find (\<lambda>w. k w = x) ws of None \<Rightarrow> n | Some w \<Rightarrow> f w) else find (\<lambda>w. k w = x) ws)"
proof (cases "list_ex (\<lambda>w. k w = k n) ws")
  case True
  have A: "find (\<lambda>w. k w = x) (map (\<lambda>w. if k w = k n then f w else w) ws) =
      map_option (\<lambda>w. if x = k n then f w else w) (find (\<lambda>w. k w = x) ws)"
    by (induction ws) (auto simp: assms)
  have "x = k n \<Longrightarrow> find (\<lambda>w. k w = x) ws \<noteq> None" using True by (auto simp: find_None_iff list_ex_iff)
  with A True show ?thesis by (auto simp: option.map_ident)
next
  case False
  then have "find (\<lambda>w. k w = k n) ws = None" by (auto simp: find_None_iff list_ex_iff)
  with False show ?thesis by (auto simp: find_snoc split: option.split)
qed

lemma distinct_upsert:
  assumes "\<And>w. k (f w) = k w" and "distinct (map k ws)"
  shows "distinct (map k (if list_ex (\<lambda>w. k w = k n) ws then map (\<lambda>w. if k w = k n then f w else w) ws else ws @ [n]))"
proof -
  have "map k (map (\<lambda>w. if k w = k n then f w else w) ws) = map k ws" by (auto simp: assms(1))
  then have "distinct (map k (map (\<lambda>w. if k w = k n then f w else w) ws))" using assms(2) by (simp only:)
  then show ?thesis using assms(2) by (auto simp: list_ex_iff simp del: map_map)
qed

lemma option_filtered:
  assumes "\<And>r. a = Some r \<longleftrightarrow> b = Some r \<and> \<not> P r"
  shows "a = (case b of None \<Rightarrow> None | Some r \<Rightarrow> if P r then None else Some r)"
proof (cases b)
  case None
  then have "a = None" using assms by (metis not_None_eq)
  with None show ?thesis by simp
next
  case (Some r)
  then show ?thesis using assms [of r] assms by (cases "P r") (simp_all, metis not_None_eq option.inject)
qed

subsection \<open>Strings\<close>

definition HasPrefix :: "string \<Rightarrow> string \<Rightarrow> bool" where
  "HasPrefix s p \<longleftrightarrow> take (length p) s = p"

fun Contains :: "string \<Rightarrow> string \<Rightarrow> bool" where
  "Contains [] p \<longleftrightarrow> p = []"
| "Contains (c # s) p \<longleftrightarrow> HasPrefix (c # s) p \<or> Contains s p"

text \<open>\<open>strings.Index\<close>: the position of the first occurrence, \<open>None\<close> for \<open>-1\<close>.\<close>

fun Index :: "string \<Rightarrow> string \<Rightarrow> nat option" where
  "Index [] p = (if p = [] then Some 0 else None)"
| "Index (c # s) p = (if HasPrefix (c # s) p then Some 0 else map_option Suc (Index s p))"

text \<open>The UTF-8 encodings of the Unicode space characters, ASCII ones first.\<close>

definition space_seqs :: "string list" where
  "space_seqs =
     [[CHR 0x09], [CHR 0x0A], [CHR 0x0B], [CHR 0x0C], [CHR 0x0D], [CHR 0x20],
      [CHR 0xC2, CHR 0x85], [CHR 0xC2, CHR 0xA0], [CHR 0xE1, CHR 0x9A, CHR 0x80],
      [CHR 0xE2, CHR 0x80, CHR 0x80], [CHR 0xE2, CHR 0x80, CHR 0x81],
      [CHR 0xE2, CHR 0x80, CHR 0x82], [CHR 0xE2, CHR 0x80, CHR 0x83],
      [CHR 0xE2, CHR 0x80, CHR 0x84], [CHR 0xE2, CHR 0x80, CHR 0x85],
      [CHR 0xE2, CHR 0x80, CHR 0x86], [CHR 0xE2, CHR 0x80, CHR 0x87],
      [CHR 0xE2, CHR 0x80, CHR 0x88], [CHR 0xE2, CHR 0x80, CHR 0x89],
      [CHR 0xE2, CHR 0x80, CHR 0x8A], [CHR 0xE2, CHR 0x80, CHR 0xA8],
      [CHR 0xE2, CHR 0x80, CHR 0xA9], [CHR 0xE2, CHR 0x80, CHR 0xAF],
      [CHR 0xE2, CHR 0x81, CHR 0x9F], [CHR 0xE3, CHR 0x80, CHR 0x80]]"

text \<open>\<open>strip_seqs ps n s\<close> removes prefixes found in \<open>ps\<close>, at most \<open>n\<close> of them;
  every prefix is a non-empty byte sequence, so \<open>length s\<close> rounds are enough.\<close>

fun strip_seqs :: "string list \<Rightarrow> nat \<Rightarrow> string \<Rightarrow> string" where
  "strip_seqs ps 0 s = s"
| "strip_seqs ps (Suc n) s =
     (case find (HasPrefix s) ps of
        None \<Rightarrow> s
      | Some p \<Rightarrow> strip_seqs ps n (drop (length p) s))"

definition TrimLeftSpace :: "string \<Rightarrow> string" where
  "TrimLeftSpace s = strip_seqs space_seqs (length s) s"

definition TrimRightSpace :: "string \<Rightarrow> string" where
  "TrimRightSpace s = rev (strip_seqs (map rev space_seqs) (length s) (rev s))"

definition TrimSpace :: "string \<Rightarrow> string" where
  "TrimSpace s = TrimRightSpace (TrimLeftSpace s)"

lemma TrimSpace_Nil [simp]: "TrimSpace [] = []"
  by (simp add: TrimSpace_def TrimLeftSpace_def TrimRightSpace_def)

lemma HasPrefix_prefix: "HasPrefix s p \<longleftrightarrow> prefix p s"
  unfolding HasPrefix_def prefix_def by (metis append_eq_conv_conj append_take_drop_id)

lemma HasPrefix_append [simp]: "HasPrefix (p @ s) p"
  by (simp add: HasPrefix_def)

lemma HasPrefix_Nil [simp]: "HasPrefix s []"
  by (simp add: HasPrefix_def)

lemma Contains_sublist: "Contains s p \<longleftrightarrow> (\<exists>u v. s = u @ p @ v)"
proof (induction s)
  case Nil
  then show ?case by simp
next
  case (Cons c s)
  have "(\<exists>u v. c # s = u @ p @ v) \<longleftrightarrow> prefix p (c # s) \<or> (\<exists>u v. s = u @ p @ v)"
    by (metis append_Cons append_Nil list.exhaust list.inject prefix_def)
  with Cons show ?case by (simp add: HasPrefix_prefix)
qed

lemma Index_Some_split: "Index s p = Some i \<Longrightarrow> s = take i s @ p @ drop (i + length p) s"
proof (induction s p arbitrary: i rule: Index.induct)
  case (1 p)
  then show ?case by (auto split: if_splits)
next
  case (2 c s p)
  show ?case
  proof (cases "HasPrefix (c # s) p")
    case True
    with "2.prems" have "i = 0" by simp
    then show ?thesis
      using True by (metis HasPrefix_def add_0 append_Nil append_take_drop_id take0)
  next
    case False
    with "2.prems" obtain j where "Index s p = Some j" and "i = Suc j" by auto
    with "2.IH"[OF False] show ?thesis by simp
  qed
qed

lemma Index_None: "Index s p = None \<longleftrightarrow> \<not> Contains s p"
  by (induction s p rule: Index.induct) (auto simp: HasPrefix_def split: if_splits)

subsection \<open>Decimal printing\<close>

text \<open>The decimal digits of a non-negative integer.\<close>

function digits_of :: "int \<Rightarrow> string" where
  "digits_of n =
     (if n < 10 then [char_of (48 + nat n)]
      else digits_of (n div 10) @ [char_of (48 + nat (n mod 10))])"
  by pat_completeness auto
termination
  by (relation "measure nat") auto

declare digits_of.simps [simp del]

definition itoa :: "int \<Rightarrow> string" where
  "itoa i = (if i < 0 then ''-'' @ digits_of (- i) else digits_of i)"

text \<open>The left inverse of \<open>digits_of\<close>, for injectivity.\<close>

definition undigits :: "string \<Rightarrow> int" where
  "undigits s = foldl (\<lambda>a c. 10 * a + (int (of_char c) - 48)) 0 s"

lemma undigits_digits_of: "0 \<le> n \<Longrightarrow> undigits (digits_of n) = n"
proof (induction n rule: digits_of.induct)
  case (1 n)
  show ?case
  proof (cases "n < 10")
    case True
    with "1.prems" show ?thesis
      by (subst digits_of.simps) (simp add: undigits_def)
  next
    case False
    then have "undigits (digits_of n) = 10 * undigits (digits_of (n div 10)) + n mod 10"
      by (subst digits_of.simps) (simp add: undigits_def)
    with False "1" show ?thesis by simp
  qed
qed

lemma digits_of_inj: "0 \<le> m \<Longrightarrow> 0 \<le> n \<Longrightarrow> digits_of m = digits_of n \<Longrightarrow> m = n"
  by (metis undigits_digits_of)

lemma digits_of_chars:
  "0 \<le> n \<Longrightarrow> c \<in> set (digits_of n) \<Longrightarrow> 48 \<le> (of_char c :: nat) \<and> (of_char c :: nat) < 58"
proof (induction n rule: digits_of.induct)
  case (1 n)
  show ?case
  proof (cases "n < 10")
    case True
    with "1.prems" show ?thesis by (subst (asm) digits_of.simps) simp
  next
    case False
    with "1.prems" have "c \<in> set (digits_of (n div 10)) \<or> c = char_of (48 + nat (n mod 10))"
      by (subst (asm) digits_of.simps) auto
    moreover have "n mod 10 < 10" by simp
    ultimately show ?thesis using "1.IH"[OF False] False by auto
  qed
qed

lemma digits_of_nonempty [simp]: "digits_of n \<noteq> []"
  by (subst digits_of.simps) simp

lemma digits_of_no_char:
  "0 \<le> n \<Longrightarrow> (of_char c :: nat) < 48 \<or> 58 \<le> (of_char c :: nat) \<Longrightarrow> c \<notin> set (digits_of n)"
  using digits_of_chars by fastforce

lemma hd_digits_of: "0 \<le> n \<Longrightarrow> hd (digits_of n) \<noteq> CHR ''-''"
proof
  assume n: "0 \<le> n" and "hd (digits_of n) = CHR ''-''"
  then have "CHR ''-'' \<in> set (digits_of n)"
    by (metis digits_of_nonempty list.set_sel(1))
  then show False using digits_of_chars [OF n] by fastforce
qed

lemma itoa_inj: "itoa i = itoa j \<Longrightarrow> i = j"
proof -
  assume a: "itoa i = itoa j"
  show "i = j"
  proof (cases "i < 0 \<longleftrightarrow> j < 0")
    case True
    with a show ?thesis
      by (auto simp: itoa_def dest!: digits_of_inj [rotated 2] split: if_splits)
  next
    case False
    with a show ?thesis
      using hd_digits_of [of i] hd_digits_of [of j] by (auto simp: itoa_def split: if_splits) (metis list.sel(1))+
  qed
qed

end
