(* ===== verification/Byte_Words.thy ===== *)
theory Byte_Words
  imports Sha256
begin

text \<open>
  \<^verbatim>\<open>encoding/binary\<close> as the sources use it: \<open>be_word\<close> is \<open>binary.BigEndian.Uint16/32/64\<close> on a
  byte slice, \<open>be_nat\<close> the number the bytes spell. The identifier encoder and the NetFlow parser
  share these lemmas.
\<close>

definition be_word :: "u8 list \<Rightarrow> 'a::len word" where
  "be_word bs = foldl (\<lambda>w b. push_bit 8 w OR ucast b) 0 bs"

definition be_nat :: "u8 list \<Rightarrow> nat" where
  "be_nat bs = foldl (\<lambda>n b. 256 * n + unat b) 0 bs"

lemma unat_u8_less: "unat (b :: u8) < 256"
  using unsigned_less [of b] by simp

lemma be_nat_snoc [simp]: "be_nat (bs @ [b]) = 256 * be_nat bs + unat b"
  by (simp add: be_nat_def)

lemma be_nat_Nil [simp]: "be_nat [] = 0"
  by (simp add: be_nat_def)

lemma be_word_Nil [simp]: "be_word [] = 0"
  by (simp add: be_word_def)

lemma be_word_snoc: "be_word (bs @ [b]) = push_bit 8 (be_word bs) OR ucast b"
  by (simp add: be_word_def)

lemma be_nat_less: "be_nat bs < 256 ^ length bs"
proof (induction bs rule: rev_induct)
  case (snoc b bs)
  then have "256 * be_nat bs + 256 \<le> 256 * 256 ^ length bs" by simp
  with unat_u8_less [of b] show ?case by (simp del: One_nat_def)
qed simp

lemma be_nat_append: "be_nat (xs @ ys) = be_nat xs * 256 ^ length ys + be_nat ys"
proof (induction ys rule: rev_induct)
  case (snoc y ys)
  have "be_nat (xs @ ys @ [y]) = be_nat ((xs @ ys) @ [y])" by simp
  also have "\<dots> = 256 * be_nat (xs @ ys) + unat y" by (simp only: be_nat_snoc)
  finally show ?case by (simp add: snoc algebra_simps)
qed simp

lemma be_nat_inj: "length xs = length ys \<Longrightarrow> be_nat xs = be_nat ys \<Longrightarrow> xs = ys"
proof (induction xs arbitrary: ys rule: rev_induct)
  case (snoc x xs)
  then obtain ys' y where ys: "ys = ys' @ [y]" by (cases ys rule: rev_cases) auto
  have "256 * be_nat xs + unat x = 256 * be_nat ys' + unat y" using snoc.prems ys by simp
  moreover from this have "be_nat xs = be_nat ys'"
    using unat_u8_less [of x] unat_u8_less [of y] by linarith
  ultimately have "be_nat xs = be_nat ys'" and "unat x = unat y" by linarith+
  with snoc ys show ?case by (simp add: word_unat_eq_iff)
qed simp

text \<open>Bytes that fit in the word are read exactly; no bit is lost by the shifts.\<close>

lemma unat_shift_or:
  fixes w :: "'a::len word"
  assumes "(unat w + 1) * 2 ^ k \<le> 2 ^ LENGTH('a)" and "unat v < 2 ^ k"
  shows "unat (push_bit k w OR v) = unat w * 2 ^ k + unat v"
proof -
  have lt: "unat w * 2 ^ k + unat v < 2 ^ LENGTH('a)"
    using assms by (simp add: algebra_simps)
  have "push_bit k w OR v = push_bit k w + v"
  proof (rule disjunctive_add_eq_or [symmetric])
    show "push_bit k w AND v = 0"
    proof (rule bit_eqI)
      fix n
      have "\<not> bit v n" if "k \<le> n"
      proof -
        have "unat v < 2 ^ n"
          using assms(2) that by (meson less_le_trans one_le_numeral power_increasing)
        then have "\<not> bit (unat v) n" by (simp add: bit_iff_odd)
        then show ?thesis by (simp add: bit_unsigned_iff)
      qed
      then show "bit (push_bit k w AND v) n = bit 0 n"
        by (auto simp: bit_and_iff bit_push_bit_iff)
    qed
  qed
  moreover have "push_bit k w = of_nat (unat w * 2 ^ k)"
    by (simp add: push_bit_eq_mult)
  moreover have "v = of_nat (unat v)" by simp
  ultimately have "push_bit k w OR v = of_nat (unat w * 2 ^ k + unat v)"
    by (metis of_nat_add)
  then have "unat (push_bit k w OR v) = take_bit LENGTH('a) (unat w * 2 ^ k + unat v)"
    by (simp only: unsigned_of_nat of_nat_id)
  then show ?thesis using lt by (simp add: take_bit_nat_eq_self)
qed

lemma unat_be_word:
  "8 * length bs \<le> LENGTH('a::len) \<Longrightarrow> unat (be_word bs :: 'a word) = be_nat bs"
proof (induction bs rule: rev_induct)
  case (snoc b bs)
  let ?w = "be_word bs :: 'a word"
  have len: "8 * length bs + 8 \<le> LENGTH('a)" using snoc.prems by simp
  have IH: "unat ?w = be_nat bs" using snoc len by simp
  have "be_nat bs + 1 \<le> 2 ^ (8 * length bs)"
    using be_nat_less [of bs] by (simp add: power_mult)
  then have "(be_nat bs + 1) * 2 ^ 8 \<le> 2 ^ (8 * length bs + 8)"
    by (simp only: power_add mult_le_mono1)
  also have "\<dots> \<le> (2 :: nat) ^ LENGTH('a)" by (rule power_increasing [OF len]) simp
  finally have 1: "(unat ?w + 1) * 2 ^ 8 \<le> 2 ^ LENGTH('a)" by (simp add: IH)
  have "unat b < 2 ^ LENGTH('a)"
    using unat_u8_less [of b] power_increasing [of 8 "LENGTH('a)" "2 :: nat"] len by simp
  then have u: "unat (ucast b :: 'a word) = unat b"
    by (simp add: unsigned_ucast_eq take_bit_nat_eq_self)
  have "unat (ucast b :: 'a word) < 2 ^ 8" using unat_u8_less [of b] by (simp add: u)
  from unat_shift_or [OF 1 this] show ?case
    by (simp add: be_word_snoc IH u)
qed simp

lemma unat_take_bit: "unat (take_bit k w) = unat w mod 2 ^ k" for w :: "'a::len word"
  by (simp only: unsigned_take_bit_eq) (rule take_bit_eq_mod)

lemma unat_drop_bit: "unat (drop_bit k w) = unat w div 2 ^ k" for w :: "'a::len word"
  by (simp only: unat_drop_bit_eq) (rule drop_bit_eq_div)

end
