(* ===== verification/Ulid.thy ===== *)
theory Ulid
  imports Byte_Words
begin

text \<open>
  store/ulid.go: sortable identifiers. \<open>NewULID\<close> puts 48 bits of millisecond time before ten
  random bytes (the outcome of \<open>rand.Read\<close> is a parameter) and \<open>encodeCrockford\<close> renders the
  sixteen bytes with the shift loop of the source, on two \<open>64 word\<close> halves. The loop is proved to
  print the 26 base-32 digits of the 128-bit number, hence to be injective and to keep the order.
\<close>

definition crockford :: string where
  "crockford = ''0123456789ABCDEFGHJKMNPQRSTVWXYZ''"

text \<open>The loop of \<open>encodeCrockford\<close>: \<open>n\<close> positions are still to be filled, the last one first.\<close>

fun crockford_loop :: "nat \<Rightarrow> u64 \<Rightarrow> u64 \<Rightarrow> string \<Rightarrow> string" where
  "crockford_loop 0 hi lo out = out"
| "crockford_loop (Suc n) hi lo out =
     crockford_loop n (drop_bit 5 hi) (drop_bit 5 lo OR push_bit 59 hi)
       (crockford ! unat (lo AND 0x1f) # out)"

definition encodeCrockford :: "u8 list \<Rightarrow> string" where
  "encodeCrockford b = crockford_loop 26 (be_word (take 8 b)) (be_word (drop 8 b)) []"

definition unix_epoch :: time where
  "unix_epoch = 62135596800 * second"

definition UnixMilli :: "time \<Rightarrow> int" where
  "UnixMilli t = wrap64 ((t - unix_epoch) div millisecond)"

definition ms_bytes :: "u64 \<Rightarrow> u8 list" where
  "ms_bytes ms = [ucast (drop_bit 40 ms), ucast (drop_bit 32 ms), ucast (drop_bit 24 ms),
     ucast (drop_bit 16 ms), ucast (drop_bit 8 ms), ucast ms]"

definition NewULID :: "(error + u8 list) \<Rightarrow> time \<Rightarrow> error + string" where
  "NewULID rnd t =
     (let ms = word_of_int (UnixMilli t)
      in case rnd of
           Inl err \<Rightarrow> Inl err
         | Inr r \<Rightarrow> Inr (encodeCrockford (ms_bytes ms @ r)))"

subsection \<open>The reference encoding: base-32 digits, most significant first\<close>

fun base32 :: "nat \<Rightarrow> nat \<Rightarrow> string" where
  "base32 0 v = []"
| "base32 (Suc n) v = base32 n (v div 32) @ [crockford ! (v mod 32)]"

lemma length_base32 [simp]: "length (base32 n v) = n"
  by (induction n arbitrary: v) simp_all

lemma length_crockford [simp]: "length crockford = 32"
  by (simp add: crockford_def)

lemma crockford_mono: "i < j \<Longrightarrow> j < 32 \<Longrightarrow> crockford ! i < crockford ! j"
proof -
  have "sorted_wrt (<) crockford"
    by (simp add: crockford_def less_char_def)
  then show "i < j \<Longrightarrow> j < 32 \<Longrightarrow> crockford ! i < crockford ! j"
    by (simp add: sorted_wrt_iff_nth_less)
qed

lemma list_less_append:
  fixes xs ys us vs :: "'a::linorder list"
  assumes "length xs = length ys"
  shows "xs @ us < ys @ vs \<longleftrightarrow> xs < ys \<or> (xs = ys \<and> us < vs)"
  using assms by (induction xs ys rule: list_induct2) auto

text \<open>Two halves of the number move right by five bits in one step.\<close>

abbreviation val128 :: "u64 \<Rightarrow> u64 \<Rightarrow> nat" where
  "val128 hi lo \<equiv> unat hi * 2 ^ 64 + unat lo"

lemma unat_u64_less: "unat (w :: u64) < 18446744073709551616"
  using unsigned_less [of w] by simp

lemma unat_shift_carry:
  "unat (drop_bit 5 lo OR push_bit 59 hi) = unat lo div 32 + (unat hi mod 32) * 2 ^ 59"
  for lo hi :: u64
proof -
  have "push_bit 59 hi = push_bit 59 (take_bit 5 hi)"
    by (rule bit_eqI) (auto simp: bit_simps)
  then have "drop_bit 5 lo OR push_bit 59 hi = push_bit 59 (take_bit 5 hi) OR drop_bit 5 lo"
    by (simp add: ac_simps)
  moreover have "unat (take_bit 5 hi) = unat hi mod 32"
    by (simp only: unat_take_bit) simp
  moreover have d: "unat (drop_bit 5 lo) = unat lo div 32"
    by (simp only: unat_drop_bit) simp
  ultimately show ?thesis
    using unat_shift_or [of "take_bit 5 hi" 59 "drop_bit 5 lo"] unat_u64_less [of lo]
    by (simp add: less_mult_imp_div_less)
qed

lemma div_32_carry:
  "(h * 2 ^ 64 + l) div 32 = (h div 32) * 2 ^ 64 + (l div 32 + (h mod 32) * 2 ^ 59)"
  "(h * 2 ^ 64 + l) mod 32 = l mod 32" for h l :: nat
proof -
  have "(q * 32 + r) * 2 ^ 64 + l = l + 32 * (q * 2 ^ 64 + r * 2 ^ 59)" for q r :: nat
    by simp
  from this [of "h div 32" "h mod 32"]
  have "h * 2 ^ 64 + l = l + 32 * ((h div 32) * 2 ^ 64 + (h mod 32) * 2 ^ 59)"
    by (simp only: div_mult_mod_eq)
  then show "(h * 2 ^ 64 + l) div 32 = (h div 32) * 2 ^ 64 + (l div 32 + (h mod 32) * 2 ^ 59)"
    and "(h * 2 ^ 64 + l) mod 32 = l mod 32"
    by (simp_all only: div_mult_self2 mod_mult_self2)
qed

lemma val128_step:
  "val128 (drop_bit 5 hi) (drop_bit 5 lo OR push_bit 59 hi) = val128 hi lo div 32"
proof -
  have "unat (drop_bit 5 hi) = unat hi div 32"
    by (simp only: unat_drop_bit) simp
  then show ?thesis by (simp only: unat_shift_carry div_32_carry)
qed

lemma crockford_loop_base32:
  "crockford_loop n hi lo out = base32 n (val128 hi lo) @ out"
proof (induction n arbitrary: hi lo out)
  case (Suc n)
  have "unat (lo AND 0x1f) = unat (take_bit 5 lo)" by (simp add: take_bit_eq_mask mask_eq_exp_minus_1)
  also have "\<dots> = unat lo mod 32" by (simp only: unat_take_bit) simp
  also have "\<dots> = val128 hi lo mod 32" by (simp only: div_32_carry)
  finally show ?case
    using Suc [of "drop_bit 5 hi" "drop_bit 5 lo OR push_bit 59 hi"]
    by (simp only: crockford_loop.simps base32.simps val128_step) simp
qed simp

lemma encodeCrockford_base32:
  assumes "length b = 16"
  shows "encodeCrockford b = base32 26 (be_nat b)"
proof -
  have "be_nat b = be_nat (take 8 b) * 2 ^ 64 + be_nat (drop 8 b)"
    using be_nat_append [of "take 8 b" "drop 8 b"] assms by simp
  then show ?thesis
    using assms by (simp add: encodeCrockford_def crockford_loop_base32 unat_be_word)
qed

lemma base32_mono: "v < w \<Longrightarrow> w < 32 ^ n \<Longrightarrow> base32 n v < base32 n w"
proof (induction n arbitrary: v w)
  case (Suc n)
  show ?case
  proof (cases "v div 32 = w div 32")
    case True
    then have "v mod 32 < w mod 32"
      using Suc.prems(1) div_mult_mod_eq [of v 32] div_mult_mod_eq [of w 32] by linarith
    with True crockford_mono show ?thesis by (simp add: list_less_append)
  next
    case False
    then have "v div 32 < w div 32" using Suc.prems(1) by (simp add: div_le_mono le_neq_implies_less)
    moreover have "w div 32 < 32 ^ n" using Suc.prems(2) by (simp add: less_mult_imp_div_less mult.commute)
    ultimately show ?thesis using Suc.IH by (simp add: list_less_append)
  qed
qed simp

lemma encodeCrockford_less_iff:
  assumes "length a = 16" and "length b = 16"
  shows "encodeCrockford a < encodeCrockford b \<longleftrightarrow> be_nat a < be_nat b"
proof -
  have "be_nat a < 256 ^ 16" "be_nat b < 256 ^ 16"
    using be_nat_less [of a] be_nat_less [of b] assms by simp_all
  then have "be_nat a < 32 ^ 26" "be_nat b < 32 ^ 26" by simp_all
  then show ?thesis
    using base32_mono [of "be_nat a" "be_nat b" 26] base32_mono [of "be_nat b" "be_nat a" 26] assms
    by (cases "be_nat a" "be_nat b" rule: linorder_cases) (auto simp: encodeCrockford_base32)
qed

subsection \<open>Properties\<close>

lemma length_ms_bytes [simp]: "length (ms_bytes ms) = 6"
  by (simp add: ms_bytes_def)

lemma unat_ucast_u8: "unat (ucast w :: u8) = unat w mod 256" for w :: u64
  by (simp add: unsigned_ucast_eq take_bit_eq_mod)

lemma be_nat_ms_bytes: "be_nat (ms_bytes ms) = unat ms mod 2 ^ 48"
proof -
  have step: "256 * (x div (256 * k) mod m) + x div k mod 256 = x div k mod (256 * m)" for x k m :: nat
    using mod_mult2_eq [of "x div k" 256 m] div_mult2_eq [of x k 256] by (simp add: mult.commute)
  show ?thesis
    unfolding be_nat_def ms_bytes_def foldl.simps unat_ucast_u8 unat_drop_bit
    using step [of "unat ms" "2 ^ 32" 256] step [of "unat ms" "2 ^ 24" "256 ^ 2"]
      step [of "unat ms" "2 ^ 16" "256 ^ 3"] step [of "unat ms" "2 ^ 8" "256 ^ 4"]
      step [of "unat ms" 1 "256 ^ 5"]
    by simp
qed

text \<open>C33. Identifiers sort by creation time: of two identifiers generated at times whose Unix
  millisecond counts fit in 48 bits, the one of the earlier millisecond is the lexicographically
  smaller string, whatever the random bytes; both have 26 characters of the Crockford alphabet.\<close>

theorem ulid_sorts_by_time:
  assumes "NewULID (Inr r) t = Inr a" and "NewULID (Inr r') t' = Inr b"
    and "length r = 10" and "length r' = 10"
    and "0 \<le> UnixMilli t" and "UnixMilli t < UnixMilli t'" and "UnixMilli t' < 2 ^ 48"
  shows "a < b \<and> length a = 26 \<and> length b = 26"
proof -
  let ?m = "word_of_int (UnixMilli t) :: u64" and ?m' = "word_of_int (UnixMilli t') :: u64"
  have u: "unat (word_of_int i :: u64) = nat i" if "0 \<le> i" "i < 2 ^ 48" for i :: int
    using that by (simp add: unsigned_of_int take_bit_int_eq_self nat_less_iff)
  have lt: "be_nat (ms_bytes ?m) < be_nat (ms_bytes ?m')"
    using assms(5-7) u [of "UnixMilli t"] u [of "UnixMilli t'"]
    by (simp add: be_nat_ms_bytes nat_less_iff zless_nat_eq_int_zless)
  have "be_nat (ms_bytes ?m @ r) < be_nat (ms_bytes ?m' @ r')"
    using lt be_nat_less [of r] assms(3,4)
      mult_le_mono1 [of "Suc (be_nat (ms_bytes ?m))" "be_nat (ms_bytes ?m')" "256 ^ 10"]
    by (simp add: be_nat_append)
  moreover have "a = encodeCrockford (ms_bytes ?m @ r)" "b = encodeCrockford (ms_bytes ?m' @ r')"
    using assms(1,2) by (simp_all add: NewULID_def Let_def)
  ultimately show ?thesis
    using assms(3,4) by (simp add: encodeCrockford_less_iff) (simp add: encodeCrockford_base32)
qed

theorem ulid_sorts_by_time_witness:
  "\<exists>a b. NewULID (Inr (replicate 10 255)) unix_epoch = Inr a \<and>
     NewULID (Inr (replicate 10 0)) (unix_epoch + 5 * millisecond) = Inr b \<and> a < b"
proof -
  have ms: "UnixMilli unix_epoch = 0" "UnixMilli (unix_epoch + 5 * millisecond) = 5"
    by (simp_all add: UnixMilli_def wrap64_def millisecond_def)
  obtain a b where "NewULID (Inr (replicate 10 255)) unix_epoch = Inr a"
    and "NewULID (Inr (replicate 10 0)) (unix_epoch + 5 * millisecond) = Inr b"
    by (simp add: NewULID_def)
  with ulid_sorts_by_time [OF this] show ?thesis by (simp add: ms)
qed

text \<open>The identifier encoding loses nothing: it is the 26-digit base-32 numeral of the 128-bit
  big-endian number, so different byte arrays get different strings.\<close>

theorem encodeCrockford_correct:
  assumes "length a = 16" and "length b = 16"
  shows "encodeCrockford a = base32 26 (be_nat a) \<and> (encodeCrockford a = encodeCrockford b \<longleftrightarrow> a = b)"
proof -
  have "a = b" if "encodeCrockford a = encodeCrockford b"
    using that encodeCrockford_less_iff [OF assms] encodeCrockford_less_iff [OF assms(2,1)]
      be_nat_inj [of a b] assms by (metis linorder_neqE_nat less_irrefl)
  with assms show ?thesis by (auto simp: encodeCrockford_base32)
qed

theorem encodeCrockford_correct_witness:
  "encodeCrockford (replicate 16 255) = ''7ZZZZZZZZZZZZZZZZZZZZZZZZZ'' \<and>
   encodeCrockford (replicate 16 255) \<noteq> encodeCrockford (replicate 15 255 @ [254])"
proof -
  have "encodeCrockford (replicate 16 255) = ''7ZZZZZZZZZZZZZZZZZZZZZZZZZ''" by code_simp
  moreover have "replicate 16 255 \<noteq> (replicate 15 255 @ [254] :: u8 list)" by code_simp
  ultimately show ?thesis
    using conjunct2 [OF encodeCrockford_correct [of "replicate 16 255" "replicate 15 255 @ [254]"]] by auto
qed

end
