(* ===== verification/Window.thy ===== *)
theory Window
  imports Go_Base
begin

text \<open>
  detect/window.go: the bounded per-key state of the detectors. \<open>slidingCounter\<close>,
  \<open>distinctWindow\<close>, \<open>sumWindow\<close> and \<open>cooldown\<close> are records; an operation that mutates one
  returns its result and the updated record. The lemmas compare the pruned state with the whole
  history since the last reset: for timestamps that never go backwards, pruning loses nothing.
\<close>

text \<open>Reading a Go map of slices: a missing key reads as the nil slice.\<close>

definition get_slice :: "(string \<rightharpoonup> 'a list) \<Rightarrow> string \<Rightarrow> 'a list" where
  "get_slice m k = (case m k of None \<Rightarrow> [] | Some xs \<Rightarrow> xs)"

text \<open>The loop that drops the entries before the cutoff from the front, stopping at the first one
  that is not before it.\<close>

definition prune_front :: "('a \<Rightarrow> time) \<Rightarrow> time \<Rightarrow> 'a list \<Rightarrow> 'a list" where
  "prune_front ts cutoff buf = dropWhile (\<lambda>x. Before (ts x) cutoff) buf"

lemma get_slice_upd [simp]:
  "get_slice (m(k \<mapsto> xs)) k = xs"
  "get_slice (m(k := None)) k = []"
  "k' \<noteq> k \<Longrightarrow> get_slice (m(k := o')) k' = get_slice m k'"
  "get_slice Map.empty k = []"
  by (simp_all add: get_slice_def)

subsection \<open>slidingCounter\<close>

record slidingCounter =
  scWindow :: duration
  scTimes :: "string \<rightharpoonup> time list"

definition newSlidingCounter :: "duration \<Rightarrow> slidingCounter" where
  "newSlidingCounter w = \<lparr>scWindow = w, scTimes = Map.empty\<rparr>"

definition sc_add :: "slidingCounter \<Rightarrow> string \<Rightarrow> time \<Rightarrow> nat \<times> slidingCounter" where
  "sc_add s k t =
     (let cutoff = Add t (- scWindow s);
          buf = get_slice (scTimes s) k @ [t];
          buf = prune_front (\<lambda>x. x) cutoff buf
      in (length buf, s\<lparr>scTimes := (scTimes s)(k \<mapsto> buf)\<rparr>))"

definition sc_reset :: "slidingCounter \<Rightarrow> string \<Rightarrow> slidingCounter" where
  "sc_reset s k = s\<lparr>scTimes := (scTimes s)(k := None)\<rparr>"

subsection \<open>distinctWindow\<close>

text \<open>The inner map is ranged over and counted, so it is a \<open>gomap\<close>. The loop that deletes every
  expired entry visits them in any order; the entries left do not depend on it.\<close>

record distinctWindow =
  dwWindow :: duration
  dwSeen :: "string \<rightharpoonup> (string, time) gomap"

definition newDistinctWindow :: "duration \<Rightarrow> distinctWindow" where
  "newDistinctWindow w = \<lparr>dwWindow = w, dwSeen = Map.empty\<rparr>"

definition dw_add :: "distinctWindow \<Rightarrow> string \<Rightarrow> string \<Rightarrow> time \<Rightarrow> nat \<times> distinctWindow" where
  "dw_add d k v t =
     (let cutoff = Add t (- dwWindow d);
          m = map_put v t (get_slice (dwSeen d) k);
          m = filter (\<lambda>(_, ts). \<not> Before ts cutoff) m
      in (length m, d\<lparr>dwSeen := (dwSeen d)(k \<mapsto> m)\<rparr>))"

definition dw_reset :: "distinctWindow \<Rightarrow> string \<Rightarrow> distinctWindow" where
  "dw_reset d k = d\<lparr>dwSeen := (dwSeen d)(k := None)\<rparr>"

subsection \<open>sumWindow\<close>

record sample =
  smT :: time
  smV :: int

record sumWindow =
  swWindow :: duration
  swEvents :: "string \<rightharpoonup> sample list"

definition newSumWindow :: "duration \<Rightarrow> sumWindow" where
  "newSumWindow w = \<lparr>swWindow = w, swEvents = Map.empty\<rparr>"

definition sw_add :: "sumWindow \<Rightarrow> string \<Rightarrow> time \<Rightarrow> int \<Rightarrow> int \<times> sumWindow" where
  "sw_add s k t v =
     (let cutoff = Add t (- swWindow s);
          buf = get_slice (swEvents s) k @ [\<lparr>smT = t, smV = v\<rparr>];
          buf = prune_front smT cutoff buf
      in (foldl (\<lambda>total e. wrap64 (total + smV e)) 0 buf, s\<lparr>swEvents := (swEvents s)(k \<mapsto> buf)\<rparr>))"

subsection \<open>cooldown\<close>

record cooldown =
  cdD :: duration
  cdLast :: "string \<rightharpoonup> time"

definition newCooldown :: "duration \<Rightarrow> cooldown" where
  "newCooldown d = \<lparr>cdD = d, cdLast = Map.empty\<rparr>"

definition firable :: "cooldown \<Rightarrow> string \<Rightarrow> time \<Rightarrow> bool \<times> cooldown" where
  "firable c k t =
     (if (case cdLast c k of None \<Rightarrow> False | Some u \<Rightarrow> Sub t u < cdD c)
      then (False, c)
      else (True, c\<lparr>cdLast := (cdLast c)(k \<mapsto> t)\<rparr>))"

subsection \<open>Pruning against the whole history\<close>

text \<open>On a time-sorted buffer, dropping a prefix is filtering; and pruning twice with cutoffs that
  do not go backwards is pruning the whole history once.\<close>

lemma prune_front_filter:
  "sorted (map ts xs) \<Longrightarrow> prune_front ts c xs = filter (\<lambda>x. c \<le> ts x) xs"
proof (induction xs)
  case (Cons x xs)
  have "filter (\<lambda>x. c \<le> ts x) xs = xs" if "c \<le> ts x"
    using that Cons.prems by (auto simp: filter_id_conv)
  with Cons show ?case by (auto simp: prune_front_def Before_def)
qed (simp add: prune_front_def)

lemma prune_front_subset: "set (prune_front ts c xs) \<subseteq> set xs"
  by (auto simp: prune_front_def dest: set_dropWhileD)

lemma prune_front_extends:
  assumes "sorted (map ts (h @ [x]))" and "c \<le> c'"
  shows "prune_front ts c' (prune_front ts c h @ [x]) = prune_front ts c' (h @ [x])"
proof -
  have s: "sorted (map ts h)" using assms(1) by (simp add: sorted_append)
  have "sorted (map ts (prune_front ts c h @ [x]))"
    using assms(1) prune_front_subset [of ts c h] s
    by (auto simp: prune_front_filter sorted_append sorted_filter)
  then show ?thesis
    using assms s by (simp add: prune_front_filter conj_commute) (rule filter_cong, auto)
qed

text \<open>A trace of additions and resets on the keys of a window, and the history of one key since
  its last reset.\<close>

datatype 'a wop = WAdd 'a | WReset

definition ops_on :: "string \<Rightarrow> (string \<times> 'a wop) list \<Rightarrow> 'a wop list" where
  "ops_on k ops = map snd (filter (\<lambda>(k', _). k' = k) ops)"

fun since_reset :: "'a list \<Rightarrow> 'a wop list \<Rightarrow> 'a list" where
  "since_reset h [] = h"
| "since_reset h (WAdd x # ops) = since_reset (h @ [x]) ops"
| "since_reset h (WReset # ops) = since_reset [] ops"

fun adds :: "'a wop list \<Rightarrow> 'a list" where
  "adds [] = []"
| "adds (WAdd x # ops) = x # adds ops"
| "adds (WReset # ops) = adds ops"

lemma ops_on_simps [simp]:
  "ops_on k [] = []"
  "ops_on k ((k', p) # ops) = (if k' = k then p # ops_on k ops else ops_on k ops)"
  by (simp_all add: ops_on_def)

lemma since_reset_suffix: "\<exists>pre. h @ adds ops = pre @ since_reset h ops"
proof (induction h ops rule: since_reset.induct)
  case (3 h ops)
  then obtain pre where "adds ops = pre @ since_reset [] ops" by auto
  then show ?case by simp
qed auto

lemma since_reset_last:
  assumes "sorted (map ts (h @ adds ops @ [x]))"
  shows "sorted (map ts (since_reset h ops @ [x]))"
proof -
  obtain pre where "h @ adds ops = pre @ since_reset h ops" using since_reset_suffix by blast
  then have "h @ adds ops @ [x] = pre @ since_reset h ops @ [x]" by (metis append_assoc)
  with assms have "sorted (map ts pre @ map ts (since_reset h ops @ [x]))" by (metis map_append)
  then show ?thesis by (simp only: sorted_append)
qed

text \<open>The interface of a window: one key's buffer and what adding an entry does to it. The counter
  and the sum are instances. \<open>holds s k h\<close> says that the buffer is the unexpired part of the
  whole history \<open>h\<close> of the key.\<close>

locale pruned_window =
  fixes ts :: "'a \<Rightarrow> time"
    and width :: "'s \<Rightarrow> duration"
    and buffer :: "'s \<Rightarrow> string \<Rightarrow> 'a list"
    and add :: "'s \<Rightarrow> string \<Rightarrow> 'a \<Rightarrow> 's"
  assumes width_add: "width (add s k x) = width s"
    and buffer_add: "buffer (add s k x) k = prune_front ts (ts x - width s) (buffer s k @ [x])"
    and buffer_add_other: "k' \<noteq> k \<Longrightarrow> buffer (add s k x) k' = buffer s k'"
begin

definition holds :: "'s \<Rightarrow> string \<Rightarrow> 'a list \<Rightarrow> bool" where
  "holds s k h \<longleftrightarrow> sorted (map ts h) \<and>
     buffer s k = (if h = [] then [] else prune_front ts (ts (last h) - width s) h)"

lemma holds_Nil: "buffer s k = [] \<Longrightarrow> holds s k []"
  by (simp add: holds_def)

lemma add_holds:
  assumes "holds s k h" and "sorted (map ts (h @ [x]))"
  shows "holds (add s k x) k (h @ [x])"
    and "buffer (add s k x) k = filter (\<lambda>y. ts x - width s \<le> ts y) (h @ [x])"
proof -
  have buf: "buffer (add s k x) k = prune_front ts (ts x - width s) (h @ [x])"
  proof (cases "h = []")
    case False
    then have "ts (last h) - width s \<le> ts x - width s" using assms(2) by (simp add: sorted_append)
    with prune_front_extends [of ts h x] assms False show ?thesis by (simp add: holds_def buffer_add)
  qed (use assms in \<open>simp add: holds_def buffer_add\<close>)
  with assms(2) show "holds (add s k x) k (h @ [x])" by (simp add: holds_def width_add)
  show "buffer (add s k x) k = filter (\<lambda>y. ts x - width s \<le> ts y) (h @ [x])"
    using prune_front_filter [OF assms(2)] buf by simp
qed

lemma add_other_holds: "k' \<noteq> k \<Longrightarrow> holds (add s k' x) k h = holds s k h"
  by (simp add: holds_def buffer_add_other width_add)

lemma adds_hold:
  "holds s k h \<Longrightarrow> sorted (map ts (h @ map snd (filter (\<lambda>(k', _). k' = k) kxs))) \<Longrightarrow>
     holds (fold (\<lambda>(k', x) s. add s k' x) kxs s) k (h @ map snd (filter (\<lambda>(k', _). k' = k) kxs))"
proof (induction kxs arbitrary: s h)
  case (Cons kx kxs)
  obtain k' x where kx: "kx = (k', x)" by fastforce
  show ?case
  proof (cases "k' = k")
    case True
    have "sorted (map ts (h @ [x]))" using Cons.prems(2) True kx by (simp add: sorted_append)
    with add_holds(1) [OF Cons.prems(1)] Cons.IH [of "add s k x" "h @ [x]"] Cons.prems True kx
    show ?thesis by simp
  qed (use Cons kx add_other_holds in simp)
qed simp

end

text \<open>A window that can be cleared, as the detectors do after they fired.\<close>

locale resettable_window = pruned_window +
  fixes reset :: "'b \<Rightarrow> string \<Rightarrow> 'b"
  assumes width_reset: "width (reset s k) = width s"
    and buffer_reset: "buffer (reset s k) k = []"
    and buffer_reset_other: "k' \<noteq> k \<Longrightarrow> buffer (reset s k) k' = buffer s k'"
begin

fun run :: "'b \<Rightarrow> (string \<times> 'a wop) list \<Rightarrow> 'b" where
  "run s [] = s"
| "run s ((k, WAdd x) # ops) = run (add s k x) ops"
| "run s ((k, WReset) # ops) = run (reset s k) ops"

lemma width_run: "width (run s ops) = width s"
  by (induction s ops rule: run.induct) (simp_all add: width_add width_reset)

lemma run_holds:
  "holds s k h \<Longrightarrow> sorted (map ts (h @ adds (ops_on k ops))) \<Longrightarrow>
     holds (run s ops) k (since_reset h (ops_on k ops))"
proof (induction s ops arbitrary: h rule: run.induct)
  case (2 s k' x ops)
  show ?case
  proof (cases "k' = k")
    case True
    have "sorted (map ts (h @ [x]))" using "2.prems"(2) True by (simp add: sorted_append)
    with add_holds(1) [OF "2.prems"(1)] 2 True show ?thesis by simp
  qed (use 2 add_other_holds in simp)
next
  case (3 s k' ops)
  show ?case
  proof (cases "k' = k")
    case True
    with 3 holds_Nil [OF buffer_reset] show ?thesis by (simp add: sorted_append)
  next
    case False
    with "3.prems" have "holds (reset s k') k h" by (simp add: holds_def buffer_reset_other width_reset)
    with 3 False show ?thesis by simp
  qed
qed simp

lemma buffer_exact:
  assumes "buffer s0 k = []" and "sorted (map ts (adds (ops_on k ops) @ [x]))"
  shows "buffer (add (run s0 ops) k x) k =
    filter (\<lambda>y. ts x - width s0 \<le> ts y) (since_reset [] (ops_on k ops) @ [x])"
proof -
  have "holds (run s0 ops) k (since_reset [] (ops_on k ops))"
    using assms by (intro run_holds holds_Nil) (simp_all add: sorted_append)
  from add_holds(2) [OF this since_reset_last [of ts "[]"]] assms(2) show ?thesis
    by (simp add: width_run)
qed

end

interpretation counter: resettable_window "\<lambda>x. x" scWindow "\<lambda>s. get_slice (scTimes s)"
  "\<lambda>s k t. snd (sc_add s k t)" sc_reset
  by unfold_locales (simp_all add: sc_add_def sc_reset_def Let_def Add_def)

lemma sample_eta [simp]: "\<lparr>smT = smT x, smV = smV x\<rparr> = x" for x :: sample
  by simp

interpretation summed: pruned_window smT swWindow "\<lambda>s. get_slice (swEvents s)"
  "\<lambda>s k e. snd (sw_add s k (smT e) (smV e))"
  by unfold_locales (simp_all add: sw_add_def Let_def Add_def)

text \<open>The rolling sum wraps as \<open>int64\<close> does and is the sum of the buffer modulo \<open>2 ^ 64\<close>.\<close>

lemma foldl_wrap64: "foldl (\<lambda>total e. wrap64 (total + f e)) (wrap64 a) xs = wrap64 (a + sum_list (map f xs))"
  by (induction xs arbitrary: a) (simp_all add: wrap64_add add.assoc)

lemma sw_add_sum: "fst (sw_add s k t v) = wrap64 (sum_list (map smV (get_slice (swEvents (snd (sw_add s k t v))) k)))"
  using foldl_wrap64 [of smV 0] by (simp add: sw_add_def Let_def)

text \<open>The distinct window: the latest observation of every value, as long as it has not expired.\<close>

definition dw_holds :: "distinctWindow \<Rightarrow> string \<Rightarrow> (string \<times> time) list \<Rightarrow> bool" where
  "dw_holds d k h \<longleftrightarrow> sorted (map snd h) \<and> wf_map (get_slice (dwSeen d) k) \<and>
     (\<forall>v. map_of (get_slice (dwSeen d) k) v =
        (case map_of (rev h) v of
           None \<Rightarrow> None
         | Some t \<Rightarrow> if snd (last h) - dwWindow d \<le> t then Some t else None))"

fun dw_run :: "distinctWindow \<Rightarrow> (string \<times> (string \<times> time) wop) list \<Rightarrow> distinctWindow" where
  "dw_run d [] = d"
| "dw_run d ((k, WAdd x) # ops) = dw_run (snd (dw_add d k (fst x) (snd x))) ops"
| "dw_run d ((k, WReset) # ops) = dw_run (dw_reset d k) ops"

lemma dw_add_holds:
  assumes "dw_holds d k h" and "sorted (map snd (h @ [(v, t)]))"
  shows "dw_holds (snd (dw_add d k v t)) k (h @ [(v, t)])"
proof -
  let ?m = "get_slice (dwSeen d) k"
  have wf: "wf_map (map_put v t ?m)" using assms(1) by (auto simp: dw_holds_def)
  have le: "t - dwWindow d \<le> \<tau> \<Longrightarrow> snd (last h) - dwWindow d \<le> \<tau>"
    if "map_of (rev h) u = Some \<tau>'" for u \<tau> \<tau>'
  proof -
    have "h \<noteq> []" using that by auto
    then have "snd (last h) \<le> t" using assms(2) last_in_set [of h] by (auto simp: sorted_append)
    then show "t - dwWindow d \<le> \<tau> \<Longrightarrow> snd (last h) - dwWindow d \<le> \<tau>" by linarith
  qed
  show ?thesis
    using assms wf le
    by (auto simp: dw_holds_def dw_add_def Let_def Add_def Before_def map_of_filter_wf wf_map_filter
        map_of_map_put split: option.splits if_splits)
qed

lemma latest_max:
  "sorted (map snd h) \<Longrightarrow> (u, \<tau>) \<in> set h \<Longrightarrow> \<exists>\<tau>'. map_of (rev h) u = Some \<tau>' \<and> \<tau> \<le> \<tau>'"
  for h :: "(string \<times> time) list"
  by (induction h rule: rev_induct) (auto simp: sorted_append)

lemma dw_add_count:
  assumes "dw_holds d k h" and "sorted (map snd (h @ [(v, t)]))"
  shows "fst (dw_add d k v t) = card {u. \<exists>\<tau>. (u, \<tau>) \<in> set (h @ [(v, t)]) \<and> t - dwWindow d \<le> \<tau>}"
proof -
  let ?h = "h @ [(v, t)]" and ?d = "snd (dw_add d k v t)"
  let ?m = "get_slice (dwSeen ?d) k"
  have H: "dw_holds ?d k ?h" and w: "dwWindow ?d = dwWindow d"
    using dw_add_holds [OF assms] by (auto simp: dw_add_def Let_def)
  have m: "map_of ?m u = (case map_of (rev ?h) u of None \<Rightarrow> None
      | Some \<tau> \<Rightarrow> if t - dwWindow d \<le> \<tau> then Some \<tau> else None)" for u
    using H w by (simp add: dw_holds_def split: option.split)
  have "u \<in> dom (map_of ?m) \<longleftrightarrow> (\<exists>\<tau>. (u, \<tau>) \<in> set ?h \<and> t - dwWindow d \<le> \<tau>)" for u
  proof
    assume "u \<in> dom (map_of ?m)"
    then obtain \<tau> where "map_of (rev ?h) u = Some \<tau>" "t - dwWindow d \<le> \<tau>"
      unfolding domIff m by (auto split: option.splits if_splits)
    then show "\<exists>\<tau>. (u, \<tau>) \<in> set ?h \<and> t - dwWindow d \<le> \<tau>"
      using map_of_SomeD [of "rev ?h" u \<tau>] by (auto simp del: rev_append)
  next
    assume "\<exists>\<tau>. (u, \<tau>) \<in> set ?h \<and> t - dwWindow d \<le> \<tau>"
    then obtain \<tau> \<tau>' where "map_of (rev ?h) u = Some \<tau>'" "\<tau> \<le> \<tau>'" "t - dwWindow d \<le> \<tau>"
      using latest_max [OF assms(2)] by blast
    then show "u \<in> dom (map_of ?m)" unfolding domIff m by (simp del: rev_append)
  qed
  then have "dom (map_of ?m) = {u. \<exists>\<tau>. (u, \<tau>) \<in> set ?h \<and> t - dwWindow d \<le> \<tau>}" by blast
  moreover have "fst (dw_add d k v t) = length ?m" by (simp add: dw_add_def Let_def)
  moreover have "wf_map ?m" using H by (simp add: dw_holds_def)
  ultimately show ?thesis by (simp add: length_wf_map)
qed

lemma dw_other_holds:
  "k' \<noteq> k \<Longrightarrow> dw_holds (snd (dw_add d k' v t)) k h = dw_holds d k h"
  "k' \<noteq> k \<Longrightarrow> dw_holds (dw_reset d k') k h = dw_holds d k h"
  by (simp_all add: dw_holds_def dw_add_def dw_reset_def Let_def split: option.split)

lemma dw_run_holds:
  "dw_holds d k h \<Longrightarrow> sorted (map snd (h @ adds (ops_on k ops))) \<Longrightarrow>
     dw_holds (dw_run d ops) k (since_reset h (ops_on k ops)) \<and> dwWindow (dw_run d ops) = dwWindow d"
proof (induction d ops arbitrary: h rule: dw_run.induct)
  case (2 d k' x ops)
  have w: "dwWindow (snd (dw_add d k' (fst x) (snd x))) = dwWindow d" by (simp add: dw_add_def Let_def)
  show ?case
  proof (cases "k' = k")
    case True
    have "sorted (map snd (h @ [(fst x, snd x)]))" using "2.prems"(2) True by (simp add: sorted_append)
    from dw_add_holds [OF "2.prems"(1) this] 2 True w show ?thesis by simp
  qed (use 2 dw_other_holds w in simp)
next
  case (3 d k' ops)
  have w: "dwWindow (dw_reset d k') = dwWindow d" by (simp add: dw_reset_def)
  show ?case
  proof (cases "k' = k")
    case True
    have "dw_holds (dw_reset d k) k []" by (simp add: dw_holds_def dw_reset_def)
    with 3 True w show ?thesis by (simp add: sorted_append)
  qed (use 3 dw_other_holds w in simp)
qed simp

subsection \<open>Properties\<close>

text \<open>C4. The bounded counter counts like one that keeps the whole log: for any interleaving of
  additions and resets on any keys in which the key's timestamps never go backwards, the count it
  returns is the number of the key's events since its last reset that lie within the window.\<close>

theorem sliding_counter_exact:
  assumes "sorted (adds (ops_on k ops) @ [t])"
  shows "fst (sc_add (counter.run (newSlidingCounter w) ops) k t) =
    length (filter (\<lambda>x. t - w \<le> x) (since_reset [] (ops_on k ops) @ [t]))"
proof -
  let ?s = "counter.run (newSlidingCounter w) ops"
  have "fst (sc_add ?s k t) = length (get_slice (scTimes (snd (sc_add ?s k t))) k)"
    by (simp add: sc_add_def Let_def)
  also have "\<dots> = length (filter (\<lambda>x. t - w \<le> x) (since_reset [] (ops_on k ops) @ [t]))"
    using counter.buffer_exact [of "newSlidingCounter w" k ops t] assms
    by (simp add: newSlidingCounter_def)
  finally show ?thesis .
qed

theorem sliding_counter_exact_witness:
  "fst (sc_add (counter.run (newSlidingCounter 10) [(''a'', WAdd 1), (''b'', WAdd 2), (''a'', WAdd 8)]) ''a'' 15) = 2"
  using sliding_counter_exact [of "''a''" "[(''a'', WAdd 1), (''b'', WAdd 2), (''a'', WAdd 8)]" 15 10] by simp

text \<open>The distinct-value window likewise: the number it returns is the number of different
  values seen for the key since its last reset within the window.\<close>

theorem distinct_window_exact:
  assumes "sorted (map snd (adds (ops_on k ops) @ [(v, t)]))"
  shows "fst (dw_add (dw_run (newDistinctWindow w) ops) k v t) =
    card {u. \<exists>\<tau>. (u, \<tau>) \<in> set (since_reset [] (ops_on k ops) @ [(v, t)]) \<and> t - w \<le> \<tau>}"
proof -
  have "dw_holds (newDistinctWindow w) k []" by (simp add: dw_holds_def newDistinctWindow_def)
  from dw_run_holds [OF this, of ops] assms
  have "dw_holds (dw_run (newDistinctWindow w) ops) k (since_reset [] (ops_on k ops))"
    and "dwWindow (dw_run (newDistinctWindow w) ops) = w"
    by (simp_all add: sorted_append newDistinctWindow_def)
  with dw_add_count since_reset_last [of snd "[]" "ops_on k ops" "(v, t)"] assms show ?thesis by simp
qed

theorem distinct_window_exact_witness:
  "fst (dw_add (dw_run (newDistinctWindow 10) [(''a'', WAdd (''22'', 1)), (''a'', WAdd (''80'', 8))]) ''a'' ''22'' 15) =
   card {''22'', ''80''}"
proof -
  have "{u. \<exists>\<tau>::time. (u, \<tau>) \<in> set [(''22'', 1), (''80'', 8), (''22'', 15)] \<and> 15 - 10 \<le> \<tau>} = {''22'', ''80''}"
    by auto
  then show ?thesis
    using distinct_window_exact [of "''a''" "[(''a'', WAdd (''22'', 1)), (''a'', WAdd (''80'', 8))]" "''22''" 15 10]
    by simp
qed

text \<open>The rolling byte total is the sum of the key's samples within the window, modulo
  \<open>2 ^ 64\<close> as \<open>int64\<close> addition wraps; it is exact whenever that sum fits in \<open>int64\<close>.\<close>

theorem sum_window_exact:
  fixes kes :: "(string \<times> sample) list" and e :: sample
  assumes "sorted (map smT (map snd (filter (\<lambda>(k', _). k' = k) kes) @ [e]))"
    and "tot = sum_list (map smV (filter (\<lambda>x. smT e - w \<le> smT x)
      (map snd (filter (\<lambda>(k', _). k' = k) kes) @ [e])))"
  shows "fst (sw_add (fold (\<lambda>(k', x) s. snd (sw_add s k' (smT x) (smV x))) kes (newSumWindow w)) k (smT e) (smV e)) =
      wrap64 tot \<and> (minInt64 \<le> tot \<and> tot \<le> maxInt64 \<longrightarrow> wrap64 tot = tot)"
proof -
  let ?s = "fold (\<lambda>(k', x) s. snd (sw_add s k' (smT x) (smV x))) kes (newSumWindow w)"
  have "swWindow s = w \<Longrightarrow> swWindow (fold (\<lambda>(k', x) s. snd (sw_add s k' (smT x) (smV x))) kes s) = w" for s
    by (induction kes arbitrary: s) (auto simp: sw_add_def Let_def)
  then have w: "swWindow ?s = w" by (simp add: newSumWindow_def)
  have "summed.holds (newSumWindow w) k []" by (rule summed.holds_Nil) (simp add: newSumWindow_def)
  from summed.adds_hold [OF this, of kes] assms(1)
  have "summed.holds ?s k (map snd (filter (\<lambda>(k', _). k' = k) kes))" by (simp add: sorted_append)
  from summed.add_holds(2) [OF this assms(1)] show ?thesis
    using assms(2) by (simp add: sw_add_sum w wrap64_id)
qed

theorem sum_window_exact_witness:
  "fst (sw_add (fold (\<lambda>(k', x) s. snd (sw_add s k' (smT x) (smV x))) [(''h'', \<lparr>smT = 1, smV = 7\<rparr>), (''h'', \<lparr>smT = 8, smV = 20\<rparr>)]
     (newSumWindow 10)) ''h'' 15 300) = 320"
  using sum_window_exact [of "''h''" "[(''h'', \<lparr>smT = 1, smV = 7\<rparr>), (''h'', \<lparr>smT = 8, smV = 20\<rparr>)]"
      "\<lparr>smT = 15, smV = 300\<rparr>" 320 10]
  by (simp add: wrap64_def)

end
