(* ===== verification/Netip.thy ===== *)
theory Netip
  imports Byte_Words
begin

text \<open>
  \<^verbatim>\<open>net/netip\<close> and \<^verbatim>\<open>net\<close> as the sources use them: parsing and printing IPv4 and IPv6
  addresses and the classes loopback, private and link-local. An address is its 4 or 16 bytes, an
  IPv6 address may carry a zone. The lemmas show that printing an IPv4 address and parsing it
  gives the address back, so an address survives the trip through an event's text fields.
\<close>

datatype Addr = V4 "u8 list" | V6 "u8 list" string

fun split_on :: "char \<Rightarrow> string \<Rightarrow> string list" where
  "split_on d [] = [[]]"
| "split_on d (c # s) =
     (if c = d then [] # split_on d s
      else case split_on d s of
             [] \<Rightarrow> [[c]]
           | f # fs \<Rightarrow> (c # f) # fs)"

definition is_digit :: "char \<Rightarrow> bool" where
  "is_digit c \<longleftrightarrow> 48 \<le> (of_char c :: nat) \<and> (of_char c :: nat) \<le> 57"

text \<open>One IPv4 field: decimal digits without a leading zero, at most 255.\<close>

definition parse_octet :: "string \<Rightarrow> u8 option" where
  "parse_octet s =
     (if s = [] \<or> \<not> list_all is_digit s then None
      else if 1 < length s \<and> hd s = CHR ''0'' then None
      else if 255 < undigits s then None
      else Some (word_of_int (undigits s)))"

definition parse_octets :: "string \<Rightarrow> u8 list option" where
  "parse_octets s =
     (let os = map parse_octet (split_on CHR ''.'' s)
      in if length os = 4 \<and> list_all (\<lambda>o'. o' \<noteq> None) os then Some (map the os) else None)"

definition hex_val :: "char \<Rightarrow> nat option" where
  "hex_val c =
     (let n = of_char c
      in if 48 \<le> n \<and> n \<le> 57 then Some (n - 48)
         else if 97 \<le> n \<and> n \<le> 102 then Some (n - 87)
         else if 65 \<le> n \<and> n \<le> 70 then Some (n - 55)
         else None)"

text \<open>The loop of netip's IPv6 parser: \<open>bs\<close> are the bytes so far, \<open>ell\<close> the position of
  the ellipsis. The first argument bounds the number of groups: eight are enough, since every
  round adds two bytes and the loop runs while fewer than sixteen are known.\<close>

fun parse6_loop :: "nat \<Rightarrow> string \<Rightarrow> u8 list \<Rightarrow> nat option \<Rightarrow> (u8 list \<times> nat option) option" where
  "parse6_loop 0 s bs ell = (if s = [] then Some (bs, ell) else None)"
| "parse6_loop (Suc n) s bs ell =
     (let ds = takeWhile (\<lambda>c. hex_val c \<noteq> None) s;
          rest = drop (length ds) s;
          acc = foldl (\<lambda>a c. 16 * a + the (hex_val c)) 0 ds
      in if 4 < length ds \<or> ds = [] then None
         else if rest \<noteq> [] \<and> hd rest = CHR ''.''
         then (if ell = None \<and> length bs \<noteq> 12 then None
               else if 16 < length bs + 4 then None
               else case parse_octets s of
                      None \<Rightarrow> None
                    | Some os \<Rightarrow> Some (bs @ os, ell))
         else let bs = bs @ [of_nat (acc div 256), of_nat (acc mod 256)]
              in if rest = [] then Some (bs, ell)
                 else if hd rest \<noteq> CHR '':'' \<or> length rest = 1 then None
                 else let s = tl rest
                      in if hd s = CHR '':''
                         then (if ell \<noteq> None then None
                               else if tl s = [] then Some (bs, Some (length bs))
                               else parse6_loop n (tl s) bs (Some (length bs)))
                         else parse6_loop n s bs ell)"

definition parse6 :: "string \<Rightarrow> Addr option" where
  "parse6 inp =
     (let s = takeWhile (\<lambda>c. c \<noteq> CHR ''%'') inp;
          zone = tl (dropWhile (\<lambda>c. c \<noteq> CHR ''%'') inp)
      in if CHR ''%'' \<in> set inp \<and> zone = [] then None
         else let lead = HasPrefix s ''::'';
                  s' = (if lead then drop 2 s else s)
              in if lead \<and> s' = [] then Some (V6 (replicate 16 0) zone)
                 else case parse6_loop 8 s' [] (if lead then Some 0 else None) of
                        None \<Rightarrow> None
                      | Some (bs, ell) \<Rightarrow>
                          if length bs < 16
                          then (case ell of
                                  None \<Rightarrow> None
                                | Some e \<Rightarrow> Some (V6 (take e bs @ replicate (16 - length bs) 0 @ drop e bs) zone))
                          else (case ell of None \<Rightarrow> Some (V6 bs zone) | Some _ \<Rightarrow> None))"

text \<open>\<open>netip.ParseAddr\<close>: the first of the three separators decides.\<close>

definition ParseAddr :: "string \<Rightarrow> Addr option" where
  "ParseAddr s =
     (case find (\<lambda>c. c \<in> {CHR ''.'', CHR '':'', CHR ''%''}) s of
        None \<Rightarrow> None
      | Some c \<Rightarrow>
          if c = CHR ''.'' then map_option V4 (parse_octets s)
          else if c = CHR '':'' then parse6 s
          else None)"

text \<open>An IPv4-mapped IPv6 address counts as the IPv4 address in the class predicates.\<close>

definition Unmap :: "Addr \<Rightarrow> Addr" where
  "Unmap a =
     (case a of
        V6 bs z \<Rightarrow> if take 12 bs = replicate 10 0 @ [0xff, 0xff] then V4 (drop 12 bs) else a
      | V4 _ \<Rightarrow> a)"

definition IsLoopback :: "Addr \<Rightarrow> bool" where
  "IsLoopback a =
     (case Unmap a of
        V4 bs \<Rightarrow> bs ! 0 = 127
      | V6 bs z \<Rightarrow> bs = replicate 15 0 @ [1])"

definition IsPrivate :: "Addr \<Rightarrow> bool" where
  "IsPrivate a =
     (case Unmap a of
        V4 bs \<Rightarrow> bs ! 0 = 10 \<or> bs ! 0 = 172 \<and> bs ! 1 AND 0xf0 = 16 \<or> bs ! 0 = 192 \<and> bs ! 1 = 168
      | V6 bs z \<Rightarrow> bs ! 0 AND 0xfe = 0xfc)"

definition IsLinkLocalUnicast :: "Addr \<Rightarrow> bool" where
  "IsLinkLocalUnicast a =
     (case Unmap a of
        V4 bs \<Rightarrow> bs ! 0 = 169 \<and> bs ! 1 = 254
      | V6 bs z \<Rightarrow> bs ! 0 = 0xfe \<and> bs ! 1 AND 0xc0 = 0x80)"

subsection \<open>Printing\<close>

definition join :: "string \<Rightarrow> string list \<Rightarrow> string" where
  "join sep ss = (case ss of [] \<Rightarrow> [] | x # xs \<Rightarrow> x @ concat (map (\<lambda>s. sep @ s) xs))"

definition string4 :: "u8 list \<Rightarrow> string" where
  "string4 bs = join ''.'' (map (\<lambda>b. digits_of (uint b)) bs)"

definition hex_group :: "nat \<Rightarrow> string" where
  "hex_group n =
     (let ds = map hex_digit [n div 4096 mod 16, n div 256 mod 16, n div 16 mod 16]
      in dropWhile (\<lambda>c. c = CHR ''0'') ds @ [hex_digit (n mod 16)])"

fun groups16 :: "u8 list \<Rightarrow> nat list" where
  "groups16 (a # b # bs) = (256 * unat a + unat b) # groups16 bs"
| "groups16 _ = []"

text \<open>The first longest run of at least two zero groups, as (start, end).\<close>

definition zero_run :: "nat list \<Rightarrow> nat \<times> nat" where
  "zero_run gs =
     foldl (\<lambda>(zs, ze) i.
        let j = i + length (takeWhile (\<lambda>g. g = 0) (drop i gs))
        in if 2 \<le> j - i \<and> ze - zs < j - i then (i, j) else (zs, ze)) (0, 0) [0..<length gs]"

definition string6 :: "u8 list \<Rightarrow> string" where
  "string6 bs =
     (let gs = groups16 bs; (zs, ze) = zero_run gs; hx = (\<lambda>gs. join '':'' (map hex_group gs))
      in if zs < ze then hx (take zs gs) @ ''::'' @ hx (drop ze gs) else hx gs)"

text \<open>\<open>netip.Addr.String\<close> keeps a mapped address in IPv6 form; \<open>net.IP.String\<close> does not.\<close>

definition AddrString :: "Addr \<Rightarrow> string" where
  "AddrString a =
     (case a of
        V4 bs \<Rightarrow> string4 bs
      | V6 bs z \<Rightarrow>
          (case Unmap a of V4 os \<Rightarrow> ''::ffff:'' @ string4 os | V6 _ _ \<Rightarrow> string6 bs) @
          (if z = [] then [] else ''%'' @ z))"

text \<open>\<open>net.ParseIP\<close> refuses zones; the result prints with \<open>IPString\<close>.\<close>

definition ParseIP :: "string \<Rightarrow> Addr option" where
  "ParseIP s =
     (case ParseAddr s of
        Some (V6 bs z) \<Rightarrow> if z = [] then Some (Unmap (V6 bs [])) else None
      | r \<Rightarrow> r)"

definition IPString :: "Addr \<Rightarrow> string" where
  "IPString a = (case Unmap a of V4 bs \<Rightarrow> string4 bs | V6 bs _ \<Rightarrow> string6 bs)"

subsection \<open>The IPv4 round trip\<close>

lemma split_on_no: "d \<notin> set s \<Longrightarrow> split_on d s = [s]"
  by (induction s) auto

lemma split_on_append: "d \<notin> set f \<Longrightarrow> split_on d (f @ d # s) = f # split_on d s"
  by (induction f) auto

lemma split_on_join:
  "fs \<noteq> [] \<Longrightarrow> \<forall>f\<in>set fs. d \<notin> set f \<Longrightarrow> split_on d (join [d] fs) = fs"
proof (induction fs)
  case (Cons f fs)
  show ?case
  proof (cases fs)
    case (Cons g gs)
    with Cons.prems Cons.IH show ?thesis
      using split_on_append [of d f "join [d] fs"] by (simp add: join_def)
  qed (use Cons.prems in \<open>simp add: join_def split_on_no\<close>)
qed simp

lemma digits_of_small: "0 \<le> n \<Longrightarrow> n < 10 \<Longrightarrow> digits_of n = [char_of (48 + nat n)]"
  by (subst digits_of.simps) simp

lemma hd_digits_of_nonzero: "0 < n \<Longrightarrow> hd (digits_of n) \<noteq> CHR ''0''"
proof (induction n rule: digits_of.induct)
  case (1 n)
  show ?case
  proof (cases "n < 10")
    case True
    have "hd (digits_of n) = char_of (48 + nat n)" using True by (subst digits_of.simps) simp
    moreover have "of_char (char_of (48 + nat n)) \<noteq> (of_char (CHR ''0'') :: nat)"
      using True "1.prems" by simp
    ultimately show ?thesis by metis
  next
    case False
    with "1.IH" show ?thesis by (subst digits_of.simps) simp
  qed
qed

lemma parse_octet_digits: "parse_octet (digits_of (uint b)) = Some b"
proof -
  have b: "0 \<le> uint b" "uint b \<le> 255" using unsigned_less [where ?'a = int, of b] by simp_all
  have ds: "list_all is_digit (digits_of (uint b))"
    using digits_of_chars [OF b(1)] by (auto simp: list_all_iff is_digit_def) force
  have "\<not> (1 < length (digits_of (uint b)) \<and> hd (digits_of (uint b)) = CHR ''0'')"
    using hd_digits_of_nonzero [of "uint b"] b(1) digits_of_small [of "uint b"] by (cases "uint b = 0") auto
  with ds b show ?thesis by (simp add: parse_octet_def undigits_digits_of)
qed

lemma digits_of_no_sep: "0 \<le> n \<Longrightarrow> CHR ''.'' \<notin> set (digits_of n) \<and> CHR '':'' \<notin> set (digits_of n) \<and> CHR ''%'' \<notin> set (digits_of n)"
  using digits_of_no_char [of n] by simp

lemma parse_octets_string4: "length bs = 4 \<Longrightarrow> parse_octets (string4 bs) = Some bs"
proof -
  assume l: "length bs = 4"
  have "split_on CHR ''.'' (string4 bs) = map (\<lambda>b. digits_of (uint b)) bs"
    unfolding string4_def using l digits_of_no_sep
    by (intro split_on_join) auto
  with l show ?thesis
    by (simp add: parse_octets_def Let_def parse_octet_digits list_all_iff comp_def)
qed

lemma find_append_first:
  "\<forall>x\<in>set xs. \<not> P x \<Longrightarrow> P y \<Longrightarrow> find P (xs @ y # ys) = Some y"
  by (induction xs) auto

lemma ParseAddr_string4: "length bs = 4 \<Longrightarrow> ParseAddr (string4 bs) = Some (V4 bs)"
proof -
  assume l: "length bs = 4"
  then obtain b c bs' where bs: "bs = b # c # bs'" by (auto simp: numeral_eq_Suc length_Suc_conv)
  then obtain rest where "string4 bs = digits_of (uint b) @ CHR ''.'' # rest"
    by (auto simp: string4_def join_def)
  moreover have "find (\<lambda>c. c \<in> {CHR ''.'', CHR '':'', CHR ''%''}) (digits_of (uint b) @ CHR ''.'' # rest) = Some CHR ''.''"
    using digits_of_no_sep [of "uint b"] by (intro find_append_first) auto
  ultimately show ?thesis using parse_octets_string4 [OF l] by (simp add: ParseAddr_def)
qed

subsection \<open>Host and port\<close>

definition index_byte :: "char \<Rightarrow> string \<Rightarrow> nat option" where
  "index_byte c s = (if c \<in> set s then Some (length (takeWhile (\<lambda>x. x \<noteq> c) s)) else None)"

definition last_index_byte :: "char \<Rightarrow> string \<Rightarrow> nat option" where
  "last_index_byte c s =
     (if c \<in> set s then Some (length s - 1 - length (takeWhile (\<lambda>x. x \<noteq> c) (rev s))) else None)"

text \<open>\<open>net.SplitHostPort\<close>; \<open>None\<close> is any of its errors.\<close>

definition SplitHostPort :: "string \<Rightarrow> (string \<times> string) option" where
  "SplitHostPort hp =
     (case last_index_byte CHR '':'' hp of
        None \<Rightarrow> None
      | Some i \<Rightarrow>
          if hd hp = CHR ''['' then
            (case index_byte CHR '']'' hp of
               None \<Rightarrow> None
             | Some e \<Rightarrow>
                 if e + 1 \<noteq> i then None
                 else if CHR ''['' \<in> set (drop 1 hp) \<or> CHR '']'' \<in> set (drop (e + 1) hp) then None
                 else Some (drop 1 (take e hp), drop (i + 1) hp))
          else if CHR '':'' \<in> set (take i hp) \<or> CHR ''['' \<in> set hp \<or> CHR '']'' \<in> set hp then None
          else Some (take i hp, drop (i + 1) hp))"

end
