(* ===== verification/Regexp.thy ===== *)
theory Regexp
  imports Go_Base
begin

text \<open>
  \<^verbatim>\<open>regexp\<close> as the sources use it: a matcher with Go's leftmost-first semantics. \<open>rmatch\<close>
  lists the ends of all matches from a position in order of preference (greedy repetitions try
  more first, alternatives left to right) together with the span of the capturing group;
  \<open>FindSubmatch\<close> takes the first start that matches and its preferred end. Every class in the
  sources holds ASCII characters only, so matching bytes is matching runes; the case-insensitive
  classes add the two non-ASCII runes that fold to an ASCII letter.
\<close>

datatype re =
    RCls "(nat \<times> nat) list"
  | RNot "(nat \<times> nat) list"
  | REps
  | RSeq re re
  | RAlt re re
  | RRep re nat "nat option"
  | RGroup re
  | RWordB

definition byte :: "char \<Rightarrow> nat" where
  "byte c = of_char c"

definition in_cls :: "(nat \<times> nat) list \<Rightarrow> char \<Rightarrow> bool" where
  "in_cls rs c \<longleftrightarrow> (\<exists>(lo, hi)\<in>set rs. lo \<le> byte c \<and> byte c \<le> hi)"

definition word_cls :: "(nat \<times> nat) list" where
  "word_cls = [(48, 57), (65, 90), (95, 95), (97, 122)]"

definition word_at :: "string \<Rightarrow> nat \<Rightarrow> bool" where
  "word_at s i \<longleftrightarrow> i < length s \<and> in_cls word_cls (s ! i)"

definition at_boundary :: "string \<Rightarrow> nat \<Rightarrow> bool" where
  "at_boundary s i \<longleftrightarrow> (0 < i \<and> word_at s (i - 1)) \<noteq> word_at s i"

type_synonym span = "nat \<times> nat"

definition later :: "span option \<Rightarrow> span option \<Rightarrow> span option" where
  "later a b = (case b of None \<Rightarrow> a | Some _ \<Rightarrow> b)"

definition then_match ::
    "(nat \<times> span option) list \<Rightarrow> (nat \<Rightarrow> (nat \<times> span option) list) \<Rightarrow> (nat \<times> span option) list" where
  "then_match xs f = concat (map (\<lambda>(j, c). map (\<lambda>(j', c'). (j', later c c')) (f j)) xs)"

fun rep :: "(nat \<Rightarrow> (nat \<times> span option) list) \<Rightarrow> nat \<Rightarrow> nat \<Rightarrow> nat \<Rightarrow> (nat \<times> span option) list" where
  "rep f lo 0 i = (if lo = 0 then [(i, None)] else [])"
| "rep f lo (Suc n) i = then_match (f i) (rep f (lo - 1) n) @ (if lo = 0 then [(i, None)] else [])"

primrec rmatch :: "re \<Rightarrow> string \<Rightarrow> nat \<Rightarrow> (nat \<times> span option) list" where
  "rmatch (RCls rs) s i = (if i < length s \<and> in_cls rs (s ! i) then [(i + 1, None)] else [])"
| "rmatch (RNot rs) s i = (if i < length s \<and> \<not> in_cls rs (s ! i) then [(i + 1, None)] else [])"
| "rmatch REps s i = [(i, None)]"
| "rmatch (RSeq a b) s i = then_match (rmatch a s i) (rmatch b s)"
| "rmatch (RAlt a b) s i = rmatch a s i @ rmatch b s i"
| "rmatch (RRep a lo hi) s i = rep (rmatch a s) lo (case hi of None \<Rightarrow> length s | Some h \<Rightarrow> h) i"
| "rmatch (RGroup a) s i = map (\<lambda>(j, _). (j, Some (i, j))) (rmatch a s i)"
| "rmatch RWordB s i = (if at_boundary s i then [(i, None)] else [])"

definition FindSubmatch :: "re \<Rightarrow> string \<Rightarrow> (nat \<times> nat \<times> span option) option" where
  "FindSubmatch r s =
     (case find (\<lambda>i. rmatch r s i \<noteq> []) [0..<Suc (length s)] of
        None \<Rightarrow> None
      | Some i \<Rightarrow> Some (i, hd (rmatch r s i)))"

definition MatchString :: "re \<Rightarrow> string \<Rightarrow> bool" where
  "MatchString r s \<longleftrightarrow> FindSubmatch r s \<noteq> None"

definition slice :: "string \<Rightarrow> nat \<Rightarrow> nat \<Rightarrow> string" where
  "slice s i j = drop i (take j s)"

text \<open>The text of the first group, \<open>m[1]\<close>, when the expression matches.\<close>

definition group1 :: "re \<Rightarrow> string \<Rightarrow> string option" where
  "group1 r s =
     (case FindSubmatch r s of
        None \<Rightarrow> None
      | Some (_, _, c) \<Rightarrow> Some (case c of None \<Rightarrow> [] | Some (i, j) \<Rightarrow> slice s i j))"

subsection \<open>Building expressions\<close>

definition rchar :: "char \<Rightarrow> re" where
  "rchar c = RCls [(byte c, byte c)]"

fun rlit :: "string \<Rightarrow> re" where
  "rlit [] = REps"
| "rlit [c] = rchar c"
| "rlit (c # cs) = RSeq (rchar c) (rlit cs)"

fun rseq :: "re list \<Rightarrow> re" where
  "rseq [] = REps"
| "rseq [r] = r"
| "rseq (r # rs) = RSeq r (rseq rs)"

fun ralts :: "re list \<Rightarrow> re" where
  "ralts [] = RCls []"
| "ralts [r] = r"
| "ralts (r # rs) = RAlt r (ralts rs)"

abbreviation rstar :: "re \<Rightarrow> re" where "rstar r \<equiv> RRep r 0 None"
abbreviation rplus :: "re \<Rightarrow> re" where "rplus r \<equiv> RRep r 1 None"
abbreviation ropt :: "re \<Rightarrow> re" where "ropt r \<equiv> RRep r 0 (Some 1)"

definition space_re :: re where
  "space_re = RCls [(9, 10), (12, 13), (32, 32)]"

definition digit_re :: re where
  "digit_re = RCls [(48, 57)]"

text \<open>Under \<^verbatim>\<open>(?i)\<close> a class also matches the other case of its letters, U+017F (long s) when it
  holds an s and U+212A (Kelvin sign) when it holds a k; both are two or three bytes of UTF-8.\<close>

definition fold_range :: "nat \<times> nat \<Rightarrow> (nat \<times> nat) list" where
  "fold_range r = (case r of (lo, hi) \<Rightarrow>
     [(lo, hi)] @
     (if max lo 65 \<le> min hi 90 then [(max lo 65 + 32, min hi 90 + 32)] else []) @
     (if max lo 97 \<le> min hi 122 then [(max lo 97 - 32, min hi 122 - 32)] else []))"

definition cls_ci :: "(nat \<times> nat) list \<Rightarrow> re" where
  "cls_ci rs =
     (let fs = concat (map fold_range rs);
          has = (\<lambda>n. \<exists>(lo, hi)\<in>set fs. lo \<le> n \<and> n \<le> hi)
      in ralts ([RCls fs] @
           (if has 115 then [rlit [CHR 0xC5, CHR 0xBF]] else []) @
           (if has 107 then [rlit [CHR 0xE2, CHR 0x84, CHR 0xAA]] else [])))"

definition rlit_ci :: "string \<Rightarrow> re" where
  "rlit_ci s = rseq (map (\<lambda>c. cls_ci [(byte c, byte c)]) s)"

subsection \<open>Laws\<close>

lemma then_match_iff:
  "(j, c) \<in> set (then_match xs f) \<longleftrightarrow>
     (\<exists>i a b. (i, a) \<in> set xs \<and> (j, b) \<in> set (f i) \<and> c = later a b)"
  by (force simp: then_match_def)

text \<open>A match stays inside the text and moves forward.\<close>

lemma rep_bounds:
  assumes f: "\<forall>i j c. i \<le> L \<longrightarrow> (j, c) \<in> set (f i) \<longrightarrow> i \<le> j \<and> j \<le> L"
  shows "i \<le> L \<Longrightarrow> (j, c) \<in> set (rep f lo n i) \<Longrightarrow> i \<le> j \<and> j \<le> L"
proof (induction n arbitrary: lo i j c)
  case 0
  then show ?case by (simp split: if_splits)
next
  case (Suc n)
  show ?case
  proof (cases "j = i")
    case False
    with Suc.prems obtain k a b where k: "(k, a) \<in> set (f i)" "(j, b) \<in> set (rep f (lo - 1) n k)"
      by (auto simp: then_match_iff split: if_splits)
    then have "i \<le> k" "k \<le> L" using f Suc.prems(1) by blast+
    with Suc.IH [OF _ k(2)] show ?thesis by simp
  qed (use Suc.prems(1) in simp)
qed

lemma rmatch_bounds:
  "i \<le> length s \<Longrightarrow> (j, c) \<in> set (rmatch r s i) \<Longrightarrow> i \<le> j \<and> j \<le> length s"
proof (induction r arbitrary: i j c)
  case (RSeq a b)
  from RSeq.prems(2) obtain k u v where k: "(k, u) \<in> set (rmatch a s i)" "(j, v) \<in> set (rmatch b s k)"
    by (auto simp: then_match_iff)
  from RSeq.IH(1) [OF RSeq.prems(1) k(1)] RSeq.IH(2) [OF _ k(2)] show ?case by simp
next
  case (RRep a lo hi)
  from RRep.IH have "\<forall>i j c. i \<le> length s \<longrightarrow> (j, c) \<in> set (rmatch a s i) \<longrightarrow> i \<le> j \<and> j \<le> length s"
    by blast
  from rep_bounds [OF this RRep.prems(1)] RRep.prems(2) show ?case by simp
next
  case (RAlt a b)
  from RAlt.prems(2) consider "(j, c) \<in> set (rmatch a s i)" | "(j, c) \<in> set (rmatch b s i)" by auto
  then show ?case using RAlt by cases blast+
next
  case (RGroup a)
  from RGroup.prems(2) obtain u where "(j, u) \<in> set (rmatch a s i)" by auto
  from RGroup.IH [OF RGroup.prems(1) this] show ?case .
qed (simp_all split: if_splits)

text \<open>The characters of a group that repeats a class all belong to the class, and there are at
  least as many as the repetition asks for.\<close>

lemma rep_cls:
  assumes f: "\<And>i. f i = (if i < length s \<and> P (s ! i) then [(i + 1, None)] else [])"
  shows "(j, c) \<in> set (rep f lo n i) \<Longrightarrow>
     i + lo \<le> j \<and> (\<forall>k. i \<le> k \<and> k < j \<longrightarrow> k < length s \<and> P (s ! k))"
proof (induction n arbitrary: lo i j c)
  case 0
  then show ?case by (auto split: if_splits)
next
  case (Suc n)
  show ?case
  proof (cases "j = i \<and> lo = 0")
    case False
    with Suc.prems obtain b where i: "i < length s" "P (s ! i)"
      and j: "(j, b) \<in> set (rep f (lo - 1) n (i + 1))"
      by (auto simp: then_match_iff f [of i] split: if_splits)
    have "k < length s \<and> P (s ! k)" if "i \<le> k \<and> k < j" for k
      using Suc.IH [OF j] i that by (cases "k = i") auto
    with Suc.IH [OF j] show ?thesis by auto
  qed auto
qed

lemma FindSubmatch_match:
  "FindSubmatch r s = Some (i, j, c) \<Longrightarrow> (j, c) \<in> set (rmatch r s i)"
proof -
  assume "FindSubmatch r s = Some (i, j, c)"
  then have "rmatch r s i \<noteq> []" "hd (rmatch r s i) = (j, c)"
    by (auto simp: FindSubmatch_def find_Some_iff split: option.splits)
  then show ?thesis by (metis list.set_sel(1))
qed

text \<open>\<open>prefix_then_class pre rs\<close> is the shape \<^verbatim>\<open>pre([class]+)\<close> of the key=value expressions.\<close>

definition key_value_re :: "re \<Rightarrow> (nat \<times> nat) list \<Rightarrow> re" where
  "key_value_re pre rs = RSeq pre (RGroup (rplus (RCls rs)))"

lemma group1_key_value:
  assumes "group1 (key_value_re pre rs) s = Some v"
  shows "v \<noteq> [] \<and> (\<forall>c\<in>set v. in_cls rs c)"
proof -
  obtain i j c where F: "FindSubmatch (key_value_re pre rs) s = Some (i, j, c)"
    using assms by (auto simp: group1_def split: option.splits)
  from FindSubmatch_match [OF F] obtain k a where
    m: "c = Some (k, j)" "(j, a) \<in> set (rep (rmatch (RCls rs) s) 1 (length s) k)"
    by (auto simp: key_value_re_def then_match_iff later_def simp del: rmatch.simps(1))
  from rep_cls [where f = "rmatch (RCls rs) s", OF _ m(2), of s "in_cls rs"] have r: "k + 1 \<le> j" "\<forall>n. k \<le> n \<and> n < j \<longrightarrow> n < length s \<and> in_cls rs (s ! n)"
    by auto
  have j: "j \<le> length s" using r(1) spec [OF r(2), of "j - 1"] by auto
  have v: "v = slice s k j" using assms F m(1) by (simp add: group1_def)
  have "in_cls rs x" if "x \<in> set v" for x
  proof -
    from that obtain n where "n < length v" "x = v ! n" by (metis in_set_conv_nth)
    with r(2) j show ?thesis by (auto simp: v slice_def)
  qed
  moreover have "length v = j - k" using j by (simp add: v slice_def)
  ultimately show ?thesis using r(1) by auto
qed

end
