(* ===== verification/Log_Event.thy ===== *)
theory Log_Event
  imports Netip Regexp
begin

text \<open>
  logingest/event.go: the normalized event that every source produces and every detector
  consumes, with the identity detections are keyed on.
\<close>

type_synonym SourceType = string
type_synonym AuthOutcome = string

definition SourceSyslog :: SourceType where "SourceSyslog = ''syslog''"
definition SourceFile :: SourceType where "SourceFile = ''file''"
definition SourceJournald :: SourceType where "SourceJournald = ''journald''"
definition SourceDocker :: SourceType where "SourceDocker = ''docker''"
definition SourceWindows :: SourceType where "SourceWindows = ''windows''"
definition SourceNetflow :: SourceType where "SourceNetflow = ''netflow''"

definition AuthNone :: AuthOutcome where "AuthNone = []"
definition AuthFailure :: AuthOutcome where "AuthFailure = ''failure''"
definition AuthSuccess :: AuthOutcome where "AuthSuccess = ''success''"

lemmas source_consts = SourceSyslog_def SourceFile_def SourceJournald_def SourceDocker_def
  SourceWindows_def SourceNetflow_def
lemmas auth_consts = AuthNone_def AuthFailure_def AuthSuccess_def

record Event =
  evTimestamp :: time
  evSource :: SourceType
  evSourceID :: string
  evHost :: string
  evApp :: string
  evSeverity :: int
  evMessage :: string
  evAuth :: AuthOutcome
  evUser :: string
  evSrcIP :: string
  evDstIP :: string
  evDstPort :: int
  evBytesOut :: int
  evAction :: string
  evVendor :: string
  evVendorRule :: string
  evVendorLevel :: int
  evRaw :: string
  evParsed :: bool

definition zero_event :: Event where
  "zero_event = \<lparr>evTimestamp = zero_time, evSource = [], evSourceID = [], evHost = [], evApp = [],
     evSeverity = 0, evMessage = [], evAuth = AuthNone, evUser = [], evSrcIP = [], evDstIP = [],
     evDstPort = 0, evBytesOut = 0, evAction = [], evVendor = [], evVendorRule = [],
     evVendorLevel = 0, evRaw = [], evParsed = False\<rparr>"

definition Actor :: "Event \<Rightarrow> string" where
  "Actor e =
     (if evSrcIP e \<noteq> [] then evSrcIP e
      else if evUser e \<noteq> [] then ''user:'' @ evUser e
      else evHost e)"

definition isPrivateIP :: "string \<Rightarrow> bool" where
  "isPrivateIP ip =
     (case ParseIP ip of
        None \<Rightarrow> False
      | Some p \<Rightarrow> IsLoopback p \<or> IsPrivate p \<or> IsLinkLocalUnicast p)"

text \<open>\<open>strings.Trim(s, cutset)\<close> for an ASCII cutset.\<close>

definition Trim :: "string \<Rightarrow> string \<Rightarrow> string" where
  "Trim s cs = rev (dropWhile (\<lambda>c. c \<in> set cs) (rev (dropWhile (\<lambda>c. c \<in> set cs) s)))"

definition looksLikeIP :: "string \<Rightarrow> bool" where
  "looksLikeIP s \<longleftrightarrow> s \<noteq> [] \<and> ParseIP (Trim s ''[]'') \<noteq> None"

end
