(* ===== verification/Float64.thy ===== *)
theory Float64
  imports Complex_Main Go_Base
begin

text \<open>
  Go's \<open>float64\<close>: IEEE 754 binary64 with rounding to nearest, ties to even, on exact rationals.
  A finite value is the rational it denotes (negative zero is identified with zero, which no
  operation used by the sources can tell apart), infinities and NaN are values of their own.
  \<open>f64_round\<close> rounds to 53 significant bits with the subnormal range below \<open>2 ^ -1022\<close>; each
  arithmetic operation is the exact operation followed by one rounding. \<open>fmt_fixed\<close> is the
  \<^verbatim>\<open>%.<p>f\<close> verb and \<open>DurationString\<close> is \<^verbatim>\<open>time.Duration.String\<close>.
\<close>

datatype f64 = Fin rat | PInf | NInf | NaN

subsection \<open>Rounding\<close>

function bitlen :: "int \<Rightarrow> int" where
  "bitlen n = (if n \<le> 0 then 0 else 1 + bitlen (n div 2))"
  by pat_completeness auto
termination
  by (relation "measure nat") auto

declare bitlen.simps [simp del]

definition pow2 :: "int \<Rightarrow> rat" where
  "pow2 e = (if 0 \<le> e then 2 ^ nat e else 1 / 2 ^ nat (- e))"

text \<open>For \<open>0 < x\<close>: the exponent \<open>e\<close> with \<open>pow2 e \<le> x < pow2 (e + 1)\<close>.\<close>

definition floor_log2 :: "rat \<Rightarrow> int" where
  "floor_log2 x =
     (let (p, q) = quotient_of x; e = bitlen p - bitlen q
      in if pow2 e \<le> x then e else e - 1)"

definition round_half_even :: "rat \<Rightarrow> int" where
  "round_half_even x =
     (let f = \<lfloor>x\<rfloor>; d = x - of_int f
      in if d < 1 / 2 then f else if d > 1 / 2 then f + 1 else if even f then f else f + 1)"

definition f64_round :: "rat \<Rightarrow> f64" where
  "f64_round x =
     (if x = 0 then Fin 0
      else let e = max (- 1022) (floor_log2 \<bar>x\<bar>); u = pow2 (e - 52);
               r = of_int (round_half_even (x / u)) * u
           in if pow2 1024 \<le> r then PInf else if r \<le> - pow2 1024 then NInf else Fin r)"

subsection \<open>Operations\<close>

definition f64_of_int :: "int \<Rightarrow> f64" where
  "f64_of_int n = f64_round (of_int n)"

fun f64_neg :: "f64 \<Rightarrow> f64" where
  "f64_neg (Fin a) = Fin (- a)"
| "f64_neg PInf = NInf"
| "f64_neg NInf = PInf"
| "f64_neg NaN = NaN"

fun f64_add :: "f64 \<Rightarrow> f64 \<Rightarrow> f64" where
  "f64_add (Fin a) (Fin b) = f64_round (a + b)"
| "f64_add NaN _ = NaN"
| "f64_add _ NaN = NaN"
| "f64_add PInf NInf = NaN"
| "f64_add NInf PInf = NaN"
| "f64_add PInf _ = PInf"
| "f64_add NInf _ = NInf"
| "f64_add _ PInf = PInf"
| "f64_add _ NInf = NInf"

definition f64_sub :: "f64 \<Rightarrow> f64 \<Rightarrow> f64" where
  "f64_sub a b = f64_add a (f64_neg b)"

definition f64_sgn :: "f64 \<Rightarrow> int" where
  "f64_sgn a = (case a of Fin x \<Rightarrow> (if x > 0 then 1 else if x < 0 then -1 else 0) | PInf \<Rightarrow> 1 | NInf \<Rightarrow> -1 | NaN \<Rightarrow> 0)"

definition f64_inf :: "int \<Rightarrow> f64" where
  "f64_inf s = (if s > 0 then PInf else if s < 0 then NInf else NaN)"

definition f64_mul :: "f64 \<Rightarrow> f64 \<Rightarrow> f64" where
  "f64_mul a b =
     (case (a, b) of
        (Fin x, Fin y) \<Rightarrow> f64_round (x * y)
      | (NaN, _) \<Rightarrow> NaN
      | (_, NaN) \<Rightarrow> NaN
      | _ \<Rightarrow> f64_inf (f64_sgn a * f64_sgn b))"

definition f64_div :: "f64 \<Rightarrow> f64 \<Rightarrow> f64" where
  "f64_div a b =
     (case (a, b) of
        (NaN, _) \<Rightarrow> NaN
      | (_, NaN) \<Rightarrow> NaN
      | (Fin x, Fin y) \<Rightarrow> (if y = 0 then f64_inf (f64_sgn a) else f64_round (x / y))
      | (Fin x, _) \<Rightarrow> Fin 0
      | (_, Fin y) \<Rightarrow> f64_inf (f64_sgn a * (if y < 0 then -1 else 1))
      | _ \<Rightarrow> NaN)"

function isqrt :: "int \<Rightarrow> int" where
  "isqrt n =
     (if n \<le> 0 then 0
      else let r = 2 * isqrt (n div 4) in if (r + 1) * (r + 1) \<le> n then r + 1 else r)"
  by pat_completeness auto
termination
  by (relation "measure nat") auto

declare isqrt.simps [simp del]

definition f64_sqrt :: "f64 \<Rightarrow> f64" where
  "f64_sqrt a =
     (case a of
        Fin x \<Rightarrow>
          (if x < 0 then NaN else if x = 0 then Fin 0
           else let h = floor_log2 x div 2; u = pow2 (h - 52); y = x / (u * u);
                    q = isqrt \<lfloor>y\<rfloor>; m = of_int q + 1 / 2
                in Fin (of_int (if y > m * m then q + 1 else q) * u))
      | PInf \<Rightarrow> PInf
      | _ \<Rightarrow> NaN)"

definition f64_lt :: "f64 \<Rightarrow> f64 \<Rightarrow> bool" where
  "f64_lt a b =
     (case (a, b) of
        (Fin x, Fin y) \<Rightarrow> x < y
      | (Fin x, PInf) \<Rightarrow> True
      | (NInf, Fin y) \<Rightarrow> True
      | (NInf, PInf) \<Rightarrow> True
      | _ \<Rightarrow> False)"

definition f64_is_zero :: "f64 \<Rightarrow> bool" where
  "f64_is_zero a \<longleftrightarrow> a = Fin 0"

text \<open>Conversion to \<open>int64\<close> truncates; out of range the result is what amd64 gives.\<close>

definition f64_to_int64 :: "f64 \<Rightarrow> int" where
  "f64_to_int64 a =
     (case a of
        Fin x \<Rightarrow> (let t = (if x < 0 then - \<lfloor>- x\<rfloor> else \<lfloor>x\<rfloor>)
                   in if minInt64 \<le> t \<and> t \<le> maxInt64 then t else minInt64)
      | _ \<Rightarrow> minInt64)"

text \<open>\<open>Duration.Seconds\<close>: whole seconds plus the remaining nanoseconds divided by \<open>1e9\<close>,
  both truncating towards zero.\<close>

definition quot :: "int \<Rightarrow> int \<Rightarrow> int" where
  "quot a b = sgn a * sgn b * (\<bar>a\<bar> div \<bar>b\<bar>)"

definition rem_go :: "int \<Rightarrow> int \<Rightarrow> int" where
  "rem_go a b = a - b * quot a b"

definition Seconds :: "duration \<Rightarrow> f64" where
  "Seconds d = f64_add (f64_of_int (quot d second)) (f64_div (f64_of_int (rem_go d second)) (Fin 1000000000))"

subsection \<open>Formatting\<close>

definition pad_digits :: "nat \<Rightarrow> int \<Rightarrow> string" where
  "pad_digits w n = (let s = digits_of n in replicate (w - length s) (CHR ''0'') @ s)"

definition fmt_fixed :: "nat \<Rightarrow> f64 \<Rightarrow> string" where
  "fmt_fixed p a =
     (case a of
        Fin x \<Rightarrow>
          (let n = round_half_even (\<bar>x\<bar> * 10 ^ p);
               sign = (if x < 0 then ''-'' else '''')
           in if p = 0 then sign @ digits_of n
              else sign @ digits_of (n div 10 ^ p) @ ''.'' @ pad_digits p (n mod 10 ^ p))
      | PInf \<Rightarrow> ''+Inf''
      | NInf \<Rightarrow> ''-Inf''
      | NaN \<Rightarrow> ''NaN'')"

text \<open>The fraction \<open>v / 10 ^ prec\<close> without trailing zeros, empty when it is zero.\<close>

definition fmt_frac :: "int \<Rightarrow> nat \<Rightarrow> string" where
  "fmt_frac v prec =
     (let ds = pad_digits prec (v mod 10 ^ prec);
          kept = rev (dropWhile (\<lambda>c. c = CHR ''0'') (rev ds))
      in if kept = [] then [] else ''.'' @ kept)"

definition DurationString :: "duration \<Rightarrow> string" where
  "DurationString d =
     (let u = \<bar>d\<bar>;
          body =
            (if u = 0 then ''0s''
             else if u < 1000 then digits_of u @ ''ns''
             else if u < 1000000 then digits_of (u div 1000) @ fmt_frac u 3 @ [CHR 0xC2, CHR 0xB5] @ ''s''
             else if u < 1000000000 then digits_of (u div 1000000) @ fmt_frac u 6 @ ''ms''
             else let s = u div 1000000000; m = s div 60; h = m div 60;
                      secs = digits_of (s mod 60) @ fmt_frac u 9 @ ''s''
                  in (if h > 0 then digits_of h @ ''h'' else '''') @
                     (if m > 0 then digits_of (m mod 60) @ ''m'' else '''') @ secs)
      in (if d < 0 then ''-'' else '''') @ body)"

text \<open>\<open>Duration.Round\<close> to a positive multiple: to nearest, halves away from zero; a result that
  leaves \<open>int64\<close> saturates.\<close>

definition RoundTo :: "duration \<Rightarrow> duration \<Rightarrow> duration" where
  "RoundTo d m =
     (if m \<le> 0 then d
      else let r = \<bar>rem_go d m\<bar>
           in if d < 0
              then (if r + r < m then d + r
                    else if d - m + r \<ge> minInt64 then d - m + r else minInt64)
              else (if r + r < m then d - r
                    else if d + m - r \<le> maxInt64 then d + m - r else maxInt64))"

subsection \<open>Laws\<close>

lemma pow2_pos [simp]: "0 < pow2 e"
  by (simp add: pow2_def)

lemma round_half_even_of_int [simp]: "round_half_even (of_int n) = n"
  by (simp add: round_half_even_def)

lemma round_half_even_error: "\<bar>of_int (round_half_even x) - x\<bar> \<le> 1 / 2"
proof -
  define d where "d = x - of_int \<lfloor>x\<rfloor>"
  have d: "0 \<le> d" "d < 1" and x: "x = of_int \<lfloor>x\<rfloor> + d"
    by (simp_all add: d_def) linarith
  show ?thesis
    unfolding round_half_even_def Let_def d_def [symmetric] using d x
    by (auto simp: abs_le_iff)
qed

lemma f64_round_zero [simp]: "f64_round 0 = Fin 0"
  by (simp add: f64_round_def)

lemma f64_lt_irrefl [simp]: "\<not> f64_lt a a"
  by (cases a) (simp_all add: f64_lt_def)

lemma f64_lt_trans: "f64_lt a b \<Longrightarrow> f64_lt b c \<Longrightarrow> f64_lt a c"
  by (cases a; cases b; cases c) (simp_all add: f64_lt_def)

lemma isqrt_bounds: "0 \<le> n \<Longrightarrow> isqrt n * isqrt n \<le> n \<and> n < (isqrt n + 1) * (isqrt n + 1)"
proof (induction n rule: isqrt.induct)
  case (1 n)
  show ?case
  proof (cases "n \<le> 0")
    case True
    with "1.prems" show ?thesis by (simp add: isqrt.simps)
  next
    case False
    define q where "q = isqrt (n div 4)"
    have IH: "q * q \<le> n div 4" "n div 4 < (q + 1) * (q + 1)"
      using "1.IH"[OF False] False by (simp_all add: q_def)
    have lo: "(2 * q) * (2 * q) \<le> n"
      using IH(1) by simp
    have "n < 4 * ((q + 1) * (q + 1))"
      using IH(2) by linarith
    then have hi: "n < (2 * q + 2) * (2 * q + 2)"
      by (simp add: algebra_simps)
    have "isqrt n = (if (2 * q + 1) * (2 * q + 1) \<le> n then 2 * q + 1 else 2 * q)"
      using False by (simp add: isqrt.simps [of n] q_def Let_def)
    with lo hi show ?thesis by (simp add: algebra_simps)
  qed
qed

end
