(* ===== verification/Detectors.thy ===== *)
theory Detectors
  imports Window Log_Event Float64
begin

text \<open>
  The package \<^verbatim>\<open>detect\<close>: the configuration with its defaults, the eight detectors
  (detect/detectors.go, detect/traffic_detectors.go) and the engine that feeds each event to all
  of them (detect/detect.go). A detector is a record; \<open>observe\<close> returns the fired detection, if
  any, and the updated record. Floating point follows IEEE 754 binary64 without fused operations.

  Configurations are those with a non-negative \<open>BeaconMin\<close>: a negative one makes the slice
  expression of the beacon detector panic.
\<close>

subsection \<open>Kinds, severities, detections (detect/detect.go)\<close>

type_synonym Kind = string

definition KindBruteForce :: Kind where "KindBruteForce = ''brute_force''"
definition KindScan :: Kind where "KindScan = ''scan''"
definition KindExfil :: Kind where "KindExfil = ''exfil''"
definition KindNewAdmin :: Kind where "KindNewAdmin = ''new_admin''"
definition KindAuthSpike :: Kind where "KindAuthSpike = ''auth_spike''"
definition KindBeacon :: Kind where "KindBeacon = ''beacon''"
definition KindNewService :: Kind where "KindNewService = ''new_service''"
definition KindSentinel :: Kind where "KindSentinel = ''sentinel_finding''"

lemmas kind_consts = KindBruteForce_def KindScan_def KindExfil_def KindNewAdmin_def
  KindAuthSpike_def KindBeacon_def KindNewService_def KindSentinel_def

definition SevCritical :: string where "SevCritical = ''critical''"
definition SevHigh :: string where "SevHigh = ''high''"
definition SevMedium :: string where "SevMedium = ''medium''"
definition SevLow :: string where "SevLow = ''low''"

lemmas sev_consts = SevCritical_def SevHigh_def SevMedium_def SevLow_def

record Detection =
  dKind :: Kind
  dSeverity :: string
  dActor :: string
  dTarget :: string
  dUser :: string
  dTitle :: string
  dDetail :: string
  dCount :: int
  dFirstAt :: time
  dLastAt :: time
  dEvidence :: "string list"
  dKey :: string

record Config =
  BruteFailures :: int
  BruteWindow :: duration
  ScanPorts :: int
  ScanWindow :: duration
  ExfilBytes :: int
  ExfilFactor :: f64
  ExfilWindow :: duration
  SpikeMin :: int
  SpikeWindow :: duration
  BeaconMin :: int
  BeaconMinGap :: duration
  BeaconMaxGap :: duration
  BeaconMaxCV :: f64
  NewServiceLearn :: duration
  Cooldown :: duration
  EvidenceMax :: int

abbreviation default_int :: "int \<Rightarrow> int \<Rightarrow> int" where
  "default_int x d \<equiv> (if x = 0 then d else x)"

definition withDefaults :: "Config \<Rightarrow> Config" where
  "withDefaults c =
     \<lparr>BruteFailures = default_int (BruteFailures c) 8,
      BruteWindow = default_int (BruteWindow c) (60 * second),
      ScanPorts = default_int (ScanPorts c) 10,
      ScanWindow = default_int (ScanWindow c) (30 * second),
      ExfilBytes = default_int (ExfilBytes c) (50 * 2 ^ 20),
      ExfilFactor = (if f64_is_zero (ExfilFactor c) then Fin 4 else ExfilFactor c),
      ExfilWindow = default_int (ExfilWindow c) (60 * second),
      SpikeMin = default_int (SpikeMin c) 20,
      SpikeWindow = default_int (SpikeWindow c) (60 * second),
      BeaconMin = default_int (BeaconMin c) 8,
      BeaconMinGap = default_int (BeaconMinGap c) (10 * second),
      BeaconMaxGap = default_int (BeaconMaxGap c) hour,
      BeaconMaxCV = (if f64_is_zero (BeaconMaxCV c) then f64_round (1 / 5) else BeaconMaxCV c),
      NewServiceLearn = default_int (NewServiceLearn c) (30 * minute),
      Cooldown = default_int (Cooldown c) (5 * minute),
      EvidenceMax = default_int (EvidenceMax c) 5\<rparr>"

definition zero_config :: Config where
  "zero_config =
     \<lparr>BruteFailures = 0, BruteWindow = 0, ScanPorts = 0, ScanWindow = 0, ExfilBytes = 0,
      ExfilFactor = Fin 0, ExfilWindow = 0, SpikeMin = 0, SpikeWindow = 0, BeaconMin = 0,
      BeaconMinGap = 0, BeaconMaxGap = 0, BeaconMaxCV = Fin 0, NewServiceLearn = 0, Cooldown = 0,
      EvidenceMax = 0\<rparr>"

subsection \<open>Helpers (detect/detectors.go)\<close>

definition evidenceKeep :: "string list \<Rightarrow> string \<Rightarrow> int \<Rightarrow> string list" where
  "evidenceKeep ev line mx = (if int (length ev) \<ge> mx \<or> line = [] then ev else ev @ [line])"

definition orAny :: "string \<Rightarrow> string" where
  "orAny s = (if s = [] then ''any'' else s)"

definition em_dash :: string where
  "em_dash = [CHR 0xE2, CHR 0x80, CHR 0x94]"

text \<open>The unit loop of \<open>humanBytes\<close>: an \<open>int64\<close> below \<open>2 ^ 63\<close> is divided at most six times, so
  the index stays inside the unit string.\<close>

function unit_loop :: "int \<Rightarrow> int \<Rightarrow> nat \<Rightarrow> int \<times> nat" where
  "unit_loop n dv ex = (if n \<ge> 1024 then unit_loop (n div 1024) (dv * 1024) (Suc ex) else (dv, ex))"
  by pat_completeness auto
termination
  by (relation "measure (\<lambda>(n, _, _). nat n)") auto

declare unit_loop.simps [simp del]

definition humanBytes :: "int \<Rightarrow> string" where
  "humanBytes b =
     (if b < 1024 then itoa b @ '' B''
      else let (dv, ex) = unit_loop (b div 1024) 1024 0
           in fmt_fixed 1 (f64_div (f64_of_int b) (f64_of_int dv)) @ '' '' @ [''KMGTPE'' ! ex] @ ''B'')"

definition isInternalIP :: "string \<Rightarrow> bool" where
  "isInternalIP ip =
     (case ParseAddr ip of
        None \<Rightarrow> False
      | Some a \<Rightarrow> IsPrivate a \<or> IsLoopback a \<or> IsLinkLocalUnicast a)"

definition humanInterval :: "f64 \<Rightarrow> string" where
  "humanInterval sec =
     DurationString (RoundTo (f64_to_int64 (f64_mul sec (f64_of_int second))) second)"

text \<open>\<open>if _, ok := m[k]; !ok { m[k] = t }\<close>.\<close>

definition put_if_absent :: "'k \<Rightarrow> 'v \<Rightarrow> ('k \<rightharpoonup> 'v) \<Rightarrow> ('k \<rightharpoonup> 'v)" where
  "put_if_absent k v m = (case m k of None \<Rightarrow> m(k \<mapsto> v) | Some _ \<Rightarrow> m)"

definition get_time :: "(string \<rightharpoonup> time) \<Rightarrow> string \<Rightarrow> time" where
  "get_time m k = (case m k of None \<Rightarrow> zero_time | Some t \<Rightarrow> t)"

subsection \<open>Brute force\<close>

record bruteForce =
  bfCfg :: Config
  bfCount :: slidingCounter
  bfCool :: cooldown
  bfFirst :: "string \<rightharpoonup> time"
  bfEvid :: "string \<rightharpoonup> string list"

definition newBruteForce :: "Config \<Rightarrow> bruteForce" where
  "newBruteForce c = \<lparr>bfCfg = c, bfCount = newSlidingCounter (BruteWindow c),
     bfCool = newCooldown (Cooldown c), bfFirst = Map.empty, bfEvid = Map.empty\<rparr>"

definition bruteForce_observe :: "bruteForce \<Rightarrow> Event \<Rightarrow> Detection option \<times> bruteForce" where
  "bruteForce_observe b e =
     (if evAuth e \<noteq> AuthFailure then (None, b)
      else let actor = Actor e
           in if actor = [] then (None, b)
      else let t = evTimestamp e;
               b = b\<lparr>bfFirst := put_if_absent actor t (bfFirst b),
                     bfEvid := (bfEvid b)(actor \<mapsto>
                        evidenceKeep (get_slice (bfEvid b) actor) (evRaw e) (EvidenceMax (bfCfg b)))\<rparr>;
               (n, cnt) = sc_add (bfCount b) actor t;
               b = b\<lparr>bfCount := cnt\<rparr>
           in if int n < BruteFailures (bfCfg b) then (None, b)
      else let (ok, cool) = firable (bfCool b) (''bf:'' @ actor) t;
               b = b\<lparr>bfCool := cool\<rparr>
           in if \<not> ok then (None, b)
      else (Some \<lparr>dKind = KindBruteForce, dSeverity = SevHigh, dActor = actor, dTarget = evHost e,
                  dUser = evUser e,
                  dTitle = ''Brute force: '' @ itoa (int n) @ '' failed logins from '' @ actor,
                  dDetail = itoa (int n) @ '' authentication failures within '' @
                    DurationString (BruteWindow (bfCfg b)) @ '' (target '' @ orAny (evHost e) @ '').'',
                  dCount = int n,
                  dFirstAt = get_time (bfFirst b) actor, dLastAt = t,
                  dEvidence = get_slice (bfEvid b) actor,
                  dKey = ''brute|'' @ actor\<rparr>,
            b\<lparr>bfCount := sc_reset (bfCount b) actor, bfFirst := (bfFirst b)(actor := None),
              bfEvid := (bfEvid b)(actor := None)\<rparr>))"

subsection \<open>Port and host scan\<close>

record scan =
  snCfg :: Config
  snPorts :: distinctWindow
  snCool :: cooldown
  snFirst :: "string \<rightharpoonup> time"
  snEvid :: "string \<rightharpoonup> string list"

definition newScan :: "Config \<Rightarrow> scan" where
  "newScan c = \<lparr>snCfg = c, snPorts = newDistinctWindow (ScanWindow c),
     snCool = newCooldown (Cooldown c), snFirst = Map.empty, snEvid = Map.empty\<rparr>"

definition scan_observe :: "scan \<Rightarrow> Event \<Rightarrow> Detection option \<times> scan" where
  "scan_observe s e =
     (if evSrcIP e = [] \<or> evDstPort e = 0 then (None, s)
      else let ip = evSrcIP e; t = evTimestamp e;
               s = s\<lparr>snFirst := put_if_absent ip t (snFirst s),
                     snEvid := (snEvid s)(ip \<mapsto>
                        evidenceKeep (get_slice (snEvid s) ip) (evRaw e) (EvidenceMax (snCfg s)))\<rparr>;
               (n, ports) = dw_add (snPorts s) ip (itoa (evDstPort e)) t;
               s = s\<lparr>snPorts := ports\<rparr>
           in if int n < ScanPorts (snCfg s) then (None, s)
      else let (ok, cool) = firable (snCool s) (''scan:'' @ ip) t;
               s = s\<lparr>snCool := cool\<rparr>
           in if \<not> ok then (None, s)
      else (Some \<lparr>dKind = KindScan, dSeverity = SevMedium, dActor = ip, dTarget = evHost e, dUser = [],
                  dTitle = ''Port scan: '' @ ip @ '' hit '' @ itoa (int n) @ '' distinct ports'',
                  dDetail = itoa (int n) @ '' distinct destination ports within '' @
                    DurationString (ScanWindow (snCfg s)) @ ''.'',
                  dCount = int n,
                  dFirstAt = get_time (snFirst s) ip, dLastAt = t,
                  dEvidence = get_slice (snEvid s) ip,
                  dKey = ''scan|'' @ ip\<rparr>,
            s\<lparr>snPorts := dw_reset (snPorts s) ip, snFirst := (snFirst s)(ip := None),
              snEvid := (snEvid s)(ip := None)\<rparr>))"

subsection \<open>Exfiltration\<close>

record exfil =
  xfCfg :: Config
  xfSum :: sumWindow
  xfBase :: "string \<rightharpoonup> f64"
  xfCool :: cooldown
  xfEvid :: "string \<rightharpoonup> string list"

definition newExfil :: "Config \<Rightarrow> exfil" where
  "newExfil c = \<lparr>xfCfg = c, xfSum = newSumWindow (ExfilWindow c), xfBase = Map.empty,
     xfCool = newCooldown (Cooldown c), xfEvid = Map.empty\<rparr>"

definition get_base :: "(string \<rightharpoonup> f64) \<Rightarrow> string \<Rightarrow> f64" where
  "get_base m k = (case m k of None \<Rightarrow> Fin 0 | Some x \<Rightarrow> x)"

definition exfil_observe :: "exfil \<Rightarrow> Event \<Rightarrow> Detection option \<times> exfil" where
  "exfil_observe x e =
     (if evBytesOut e \<le> 0 \<or> evHost e = [] then (None, x)
      else let h = evHost e; t = evTimestamp e;
               x = x\<lparr>xfEvid := (xfEvid x)(h \<mapsto>
                        evidenceKeep (get_slice (xfEvid x) h) (evRaw e) (EvidenceMax (xfCfg x)))\<rparr>;
               (total, sm) = sw_add (xfSum x) h t (evBytesOut e);
               base = get_base (xfBase x) h;
               ewma = (if f64_is_zero base then f64_of_int total
                       else f64_add (f64_mul (f64_round (4 / 5)) base)
                                    (f64_mul (f64_round (1 / 5)) (f64_of_int total)));
               x = x\<lparr>xfSum := sm, xfBase := (xfBase x)(h \<mapsto> ewma)\<rparr>
           in if total < ExfilBytes (xfCfg x) \<or> f64_is_zero base then (None, x)
      else if f64_lt (f64_of_int total) (f64_mul (ExfilFactor (xfCfg x)) base) then (None, x)
      else let (ok, cool) = firable (xfCool x) (''exfil:'' @ h) t;
               x = x\<lparr>xfCool := cool\<rparr>
           in if \<not> ok then (None, x)
      else (Some \<lparr>dKind = KindExfil, dSeverity = SevHigh, dActor = h, dTarget = h, dUser = [],
                  dTitle = ''Abnormal egress from '' @ h @ '': '' @ humanBytes total,
                  dDetail = humanBytes total @ '' outbound within '' @
                    DurationString (ExfilWindow (xfCfg x)) @ '' '' @ em_dash @ '' ~'' @
                    fmt_fixed 1 (f64_div (f64_of_int total) base) @ [CHR 0xC3, CHR 0x97] @
                    '' this host'' @ [CHR 0x27] @ ''s baseline.'',
                  dCount = 1,
                  dFirstAt = t, dLastAt = t,
                  dEvidence = get_slice (xfEvid x) h,
                  dKey = ''exfil|'' @ h\<rparr>,
            x\<lparr>xfEvid := (xfEvid x)(h := None)\<rparr>))"

subsection \<open>New privileged account\<close>

record newAdmin =
  naCfg :: Config
  naCool :: cooldown

definition newNewAdmin :: "Config \<Rightarrow> newAdmin" where
  "newNewAdmin c = \<lparr>naCfg = c, naCool = newCooldown (Cooldown c)\<rparr>"

definition newAdmin_observe :: "newAdmin \<Rightarrow> Event \<Rightarrow> Detection option \<times> newAdmin" where
  "newAdmin_observe n e =
     (if evAction e \<noteq> ''new_admin'' then (None, n)
      else let k = ''newadmin|'' @ orAny (evHost e) @ ''|'' @ orAny (evUser e);
               t = evTimestamp e;
               (ok, cool) = firable (naCool n) k t;
               n = n\<lparr>naCool := cool\<rparr>
           in if \<not> ok then (None, n)
      else let who = (if evUser e = [] then ''a new account'' else evUser e)
           in (Some \<lparr>dKind = KindNewAdmin, dSeverity = SevHigh, dActor = Actor e, dTarget = evHost e,
                     dUser = evUser e,
                     dTitle = ''New privileged account created: '' @ who,
                     dDetail = ''A new user/admin account or privilege grant was recorded '' @ em_dash @
                       '' a classic persistence step. Confirm it was authorised.'',
                     dCount = 1,
                     dFirstAt = t, dLastAt = t,
                     dEvidence = [evRaw e],
                     dKey = k\<rparr>, n))"

subsection \<open>Authentication-failure spike\<close>

record authSpike =
  asCfg :: Config
  asCount :: slidingCounter
  asSources :: distinctWindow
  asCool :: cooldown
  asFirst :: "string \<rightharpoonup> time"
  asEvid :: "string \<rightharpoonup> string list"

definition newAuthSpike :: "Config \<Rightarrow> authSpike" where
  "newAuthSpike c = \<lparr>asCfg = c, asCount = newSlidingCounter (SpikeWindow c),
     asSources = newDistinctWindow (SpikeWindow c), asCool = newCooldown (Cooldown c),
     asFirst = Map.empty, asEvid = Map.empty\<rparr>"

definition authSpike_observe :: "authSpike \<Rightarrow> Event \<Rightarrow> Detection option \<times> authSpike" where
  "authSpike_observe a e =
     (if evAuth e \<noteq> AuthFailure then (None, a)
      else let svc = orAny (evHost e) @ ''/'' @ orAny (evApp e); t = evTimestamp e;
               a = a\<lparr>asFirst := put_if_absent svc t (asFirst a),
                     asEvid := (asEvid a)(svc \<mapsto>
                        evidenceKeep (get_slice (asEvid a) svc) (evRaw e) (EvidenceMax (asCfg a)))\<rparr>;
               (n, cnt) = sc_add (asCount a) svc t;
               srcKey = (if evSrcIP e = [] then orAny (evUser e) else evSrcIP e);
               (distinctSrc, srcs) = dw_add (asSources a) svc srcKey t;
               a = a\<lparr>asCount := cnt, asSources := srcs\<rparr>
           in if int n < SpikeMin (asCfg a) \<or> distinctSrc < 3 then (None, a)
      else let (ok, cool) = firable (asCool a) (''spike:'' @ svc) t;
               a = a\<lparr>asCool := cool\<rparr>
           in if \<not> ok then (None, a)
      else (Some \<lparr>dKind = KindAuthSpike, dSeverity = SevMedium, dActor = svc, dTarget = evHost e, dUser = [],
                  dTitle = ''Distributed auth-failure spike on '' @ svc @ '': '' @ itoa (int n) @
                    '' from '' @ itoa (int distinctSrc) @ '' sources'',
                  dDetail = itoa (int n) @ '' auth failures on '' @ svc @ '' from '' @ itoa (int distinctSrc) @
                    '' distinct sources within '' @ DurationString (SpikeWindow (asCfg a)) @ '' '' @ em_dash @
                    '' looks like credential stuffing.'',
                  dCount = int n,
                  dFirstAt = get_time (asFirst a) svc, dLastAt = t,
                  dEvidence = get_slice (asEvid a) svc,
                  dKey = ''spike|'' @ svc\<rparr>,
            a\<lparr>asCount := sc_reset (asCount a) svc, asSources := dw_reset (asSources a) svc,
              asFirst := (asFirst a)(svc := None), asEvid := (asEvid a)(svc := None)\<rparr>))"

subsection \<open>Findings of other products over syslog\<close>

record sentinelFinding =
  sfCfg :: Config
  sfCool :: cooldown
  sfEvid :: "string \<rightharpoonup> string list"

definition newSentinelFinding :: "Config \<Rightarrow> sentinelFinding" where
  "newSentinelFinding c = \<lparr>sfCfg = c, sfCool = newCooldown (Cooldown c), sfEvid = Map.empty\<rparr>"

definition lower_cls :: "(nat \<times> nat) list" where
  "lower_cls = [(97, 122)]"

definition product_cls :: "(nat \<times> nat) list" where
  "product_cls = [(97, 122), (48, 57), (95, 95), (46, 46), (45, 45)]"

definition check_cls :: "(nat \<times> nat) list" where
  "check_cls = [(97, 122), (65, 90), (48, 57), (95, 95), (46, 46), (45, 45)]"

definition reSentinelProduct :: re where
  "reSentinelProduct = key_value_re (RSeq RWordB (rlit ''product='')) product_cls"

definition reSentinelSev :: re where
  "reSentinelSev = key_value_re (RSeq RWordB (rlit ''severity='')) lower_cls"

definition reSentinelCheck :: re where
  "reSentinelCheck = key_value_re (RSeq RWordB (rlit ''check='')) check_cls"

definition reSentinelStatus :: re where
  "reSentinelStatus = key_value_re (RSeq RWordB (rlit ''status='')) lower_cls"

definition firstGroup :: "re \<Rightarrow> string \<Rightarrow> string" where
  "firstGroup r s = (case group1 r s of None \<Rightarrow> [] | Some g \<Rightarrow> g)"

definition sentinelFinding_observe :: "sentinelFinding \<Rightarrow> Event \<Rightarrow> Detection option \<times> sentinelFinding" where
  "sentinelFinding_observe s e =
     (let msg = (if evMessage e = [] then evRaw e else evMessage e);
          product = firstGroup reSentinelProduct msg
      in if product = [] then (None, s)
      else if firstGroup reSentinelStatus msg = ''resolved'' then (None, s)
      else let sev = firstGroup reSentinelSev msg
           in if sev \<noteq> ''critical'' \<and> sev \<noteq> ''high'' then (None, s)
      else if evSrcIP e = [] then (None, s)
      else let actor = evSrcIP e; t = evTimestamp e;
               (ok, cool) = firable (sfCool s) (''sentinel:'' @ product @ '':'' @ actor) t;
               s = s\<lparr>sfCool := cool\<rparr>
           in if \<not> ok then (None, s)
      else let s = s\<lparr>sfEvid := (sfEvid s)(actor \<mapsto>
                        evidenceKeep (get_slice (sfEvid s) actor) (evRaw e) (EvidenceMax (sfCfg s)))\<rparr>;
               check = firstGroup reSentinelCheck msg;
               severity = (if sev = ''critical'' then SevCritical else SevHigh)
           in (Some \<lparr>dKind = KindSentinel, dSeverity = severity, dActor = actor, dTarget = evHost e,
                     dUser = [],
                     dTitle = product @ '' reported '' @ orAny check @ '' from '' @ actor,
                     dDetail = ''A '' @ sev @ '' finding from '' @ product @ '' arrived over syslog: '' @ msg,
                     dCount = 1,
                     dFirstAt = t, dLastAt = t,
                     dEvidence = get_slice (sfEvid s) actor,
                     dKey = ''sentinel|'' @ product @ ''|'' @ actor\<rparr>, s))"

subsection \<open>Beaconing (detect/traffic\_detectors.go)\<close>

record beacon =
  bcCfg :: Config
  bcTimes :: "string \<rightharpoonup> time list"
  bcCool :: cooldown

definition newBeacon :: "Config \<Rightarrow> beacon" where
  "newBeacon c = \<lparr>bcCfg = c, bcTimes = Map.empty, bcCool = newCooldown (Cooldown c)\<rparr>"

text \<open>The gaps between consecutive beats in seconds, and their statistics.\<close>

definition beat_gaps :: "time list \<Rightarrow> f64 list" where
  "beat_gaps ts = map2 (\<lambda>b a. Seconds (Sub b a)) (tl ts) ts"

definition gap_mean :: "f64 list \<Rightarrow> f64" where
  "gap_mean gaps = f64_div (foldl f64_add (Fin 0) gaps) (f64_of_int (int (length gaps)))"

definition gap_cv :: "f64 list \<Rightarrow> f64 \<Rightarrow> f64" where
  "gap_cv gaps mean =
     (let varsum = foldl (\<lambda>v g. f64_add v (f64_mul (f64_sub g mean) (f64_sub g mean))) (Fin 0) gaps
      in f64_div (f64_sqrt (f64_div varsum (f64_of_int (int (length gaps))))) mean)"

definition beacon_observe :: "beacon \<Rightarrow> Event \<Rightarrow> Detection option \<times> beacon" where
  "beacon_observe b e =
     (if evSource e \<noteq> SourceNetflow \<or> evSrcIP e = [] \<or> evDstIP e = [] then (None, b)
      else if \<not> isInternalIP (evSrcIP e) \<or> isInternalIP (evDstIP e) then (None, b)
      else let k = evSrcIP e @ ''|'' @ evDstIP e; t = evTimestamp e;
               ts = get_slice (bcTimes b) k
           in if ts \<noteq> [] \<and> Sub t (last ts) < second then (None, b)
      else let ts = ts @ [t];
               mx = wrap64 (BeaconMin (bcCfg b) * 2);
               ts = (if int (length ts) > mx then drop (length ts - nat mx) ts else ts);
               b = b\<lparr>bcTimes := (bcTimes b)(k \<mapsto> ts)\<rparr>
           in if int (length ts) < BeaconMin (bcCfg b) then (None, b)
      else let gaps = beat_gaps ts; mean = gap_mean gaps
           in if f64_lt mean (Seconds (BeaconMinGap (bcCfg b))) \<or>
                 f64_lt (Seconds (BeaconMaxGap (bcCfg b))) mean then (None, b)
      else let cv = gap_cv gaps mean
           in if f64_lt (BeaconMaxCV (bcCfg b)) cv then (None, b)
      else let (ok, cool) = firable (bcCool b) (''beacon:'' @ k) t;
               b = b\<lparr>bcCool := cool\<rparr>
           in if \<not> ok then (None, b)
      else (Some \<lparr>dKind = KindBeacon, dSeverity = SevHigh, dActor = evSrcIP e, dTarget = evDstIP e,
                  dUser = [],
                  dTitle = ''Beaconing: '' @ evSrcIP e @ '' calls '' @ evDstIP e @ '' every ~'' @ humanInterval mean,
                  dDetail = itoa (int (length ts)) @ '' connections at a regular ~'' @ humanInterval mean @
                    '' interval (variation '' @ fmt_fixed 0 (f64_mul cv (Fin 100)) @ ''%) '' @ em_dash @
                    '' the heartbeat pattern of malware calling its command-and-control server.'',
                  dCount = int (length ts),
                  dFirstAt = hd ts, dLastAt = t,
                  dEvidence = [evRaw e],
                  dKey = ''beacon|'' @ k\<rparr>,
            b\<lparr>bcTimes := (bcTimes b)(k := None)\<rparr>))"

subsection \<open>New service (detect/traffic\_detectors.go)\<close>

record newService =
  nsCfg :: Config
  nsSeen :: "string \<rightharpoonup> int list"
  nsBorn :: "string \<rightharpoonup> time"
  nsCool :: cooldown

definition newNewService :: "Config \<Rightarrow> newService" where
  "newNewService c = \<lparr>nsCfg = c, nsSeen = Map.empty, nsBorn = Map.empty, nsCool = newCooldown (Cooldown c)\<rparr>"

definition newService_observe :: "newService \<Rightarrow> Event \<Rightarrow> Detection option \<times> newService" where
  "newService_observe s e =
     (if evSource e \<noteq> SourceNetflow \<or> evDstIP e = [] \<or> evDstPort e = 0 then (None, s)
      else if \<not> isInternalIP (evDstIP e) \<or> evSrcIP e = evDstIP e then (None, s)
      else if evDstPort e > 49151 then (None, s)
      else let h = evDstIP e; t = evTimestamp e; p = evDstPort e;
               s = (case nsSeen s h of
                      None \<Rightarrow> s\<lparr>nsSeen := (nsSeen s)(h \<mapsto> []), nsBorn := (nsBorn s)(h \<mapsto> t)\<rparr>
                    | Some _ \<Rightarrow> s);
               ports = get_slice (nsSeen s) h
           in if p \<in> set ports then (None, s)
      else let s = (if length ports < 4096 then s\<lparr>nsSeen := (nsSeen s)(h \<mapsto> ports @ [p])\<rparr> else s)
           in if Sub t (get_time (nsBorn s) h) < NewServiceLearn (nsCfg s) then (None, s)
      else let k = ''newsvc|'' @ h @ ''|'' @ itoa p;
               (ok, cool) = firable (nsCool s) k t;
               s = s\<lparr>nsCool := cool\<rparr>
           in if \<not> ok then (None, s)
      else (Some \<lparr>dKind = KindNewService, dSeverity = SevMedium, dActor = evSrcIP e, dTarget = h,
                  dUser = [],
                  dTitle = ''New service on '' @ h @ '': port '' @ itoa p,
                  dDetail = h @ '' started accepting connections on port '' @ itoa p @
                    '', never seen for this host before. New listening services are how backdoors and unauthorised software announce themselves.'',
                  dCount = 1,
                  dFirstAt = t, dLastAt = t,
                  dEvidence = [evRaw e],
                  dKey = k\<rparr>, s))"

subsection \<open>The engine (detect/detect.go)\<close>

record Engine =
  egCfg :: Config
  egBrute :: bruteForce
  egScan :: scan
  egExfil :: exfil
  egNewAdmin :: newAdmin
  egAuthSpike :: authSpike
  egSentinel :: sentinelFinding
  egBeacon :: beacon
  egNewSvc :: newService

definition NewEngine :: "Config \<Rightarrow> Engine" where
  "NewEngine cfg =
     (let c = withDefaults cfg
      in \<lparr>egCfg = c, egBrute = newBruteForce c, egScan = newScan c, egExfil = newExfil c,
          egNewAdmin = newNewAdmin c, egAuthSpike = newAuthSpike c,
          egSentinel = newSentinelFinding c, egBeacon = newBeacon c, egNewSvc = newNewService c\<rparr>)"

definition Engine_Observe :: "Engine \<Rightarrow> Event \<Rightarrow> Detection list \<times> Engine" where
  "Engine_Observe g e =
     (let (d1, b) = bruteForce_observe (egBrute g) e;
          (d2, s) = scan_observe (egScan g) e;
          (d3, x) = exfil_observe (egExfil g) e;
          (d4, n) = newAdmin_observe (egNewAdmin g) e;
          (d5, a) = authSpike_observe (egAuthSpike g) e;
          (d6, f) = sentinelFinding_observe (egSentinel g) e;
          (d7, bc) = beacon_observe (egBeacon g) e;
          (d8, ns) = newService_observe (egNewSvc g) e
      in (concat (map (\<lambda>d. case d of None \<Rightarrow> [] | Some d \<Rightarrow> [d]) [d1, d2, d3, d4, d5, d6, d7, d8]),
          g\<lparr>egBrute := b, egScan := s, egExfil := x, egNewAdmin := n, egAuthSpike := a,
            egSentinel := f, egBeacon := bc, egNewSvc := ns\<rparr>))"

end
