(* ===== verification/Firing.thy ===== *)
theory Firing
  imports Window
begin

text \<open>
  The contract of a component that announces things under a cooldown: the detectors, the detector
  engine and the correlator are all of this kind. It announces only when the cooldown of the key
  has passed and records exactly what it announced; the client lemma, proved once, is that two
  announcements with the same key are at least the cooldown apart.
\<close>

lemma distinct_map_sorted_wrt: "distinct (map f xs) \<Longrightarrow> sorted_wrt (\<lambda>a b. f a \<noteq> f b) xs"
  by (induction xs) auto

text \<open>\<open>observe\<close> consumes one input and emits announcements; \<open>lastfire\<close> is the time of the last
  announcement per cooldown key, \<open>gap\<close> the cooldown, \<open>ckey\<close> the cooldown key of an
  announcement's key.\<close>

locale firing =
  fixes observe :: "'s \<Rightarrow> 'i \<Rightarrow> 'o list \<times> 's"
    and clock :: "'i \<Rightarrow> time"
    and stamp :: "'o \<Rightarrow> time"
    and key :: "'o \<Rightarrow> string"
    and lastfire :: "'s \<Rightarrow> string \<Rightarrow> time option"
    and gap :: "'s \<Rightarrow> duration"
    and ckey :: "string \<Rightarrow> string"
  assumes gap_step: "observe s e = (ds, s') \<Longrightarrow> gap s' = gap s"
    and fires_distinct: "observe s e = (ds, s') \<Longrightarrow> distinct (map (ckey \<circ> key) ds)"
    and fires_at: "observe s e = (ds, s') \<Longrightarrow> d \<in> set ds \<Longrightarrow> stamp d = clock e"
    and fires_cooled: "observe s e = (ds, s') \<Longrightarrow> d \<in> set ds \<Longrightarrow>
      lastfire s (ckey (key d)) = Some u \<Longrightarrow> \<not> Sub (clock e) u < gap s"
    and lastfire_step: "observe s e = (ds, s') \<Longrightarrow>
      lastfire s' k = (if k \<in> (ckey \<circ> key) ` set ds then Some (clock e) else lastfire s k)"
begin

fun outputs :: "'s \<Rightarrow> 'i list \<Rightarrow> 'o list" where
  "outputs s [] = []"
| "outputs s (e # es) = fst (observe s e) @ outputs (snd (observe s e)) es"

lemma cooled:
  assumes "observe s e = (ds, s')" and "d \<in> set ds" and "lastfire s (ckey (key d)) = Some u"
    and "0 < gap s" and "gap s \<le> maxInt64"
  shows "u + gap s \<le> stamp d"
  using fires_cooled [OF assms(1-3)] fires_at [OF assms(1,2)] Sub_less_iff [of "gap s"] assms(4,5)
  by (simp add: minInt64_def)

lemma after_last:
  "0 < gap s \<Longrightarrow> gap s \<le> maxInt64 \<Longrightarrow> d \<in> set (outputs s es) \<Longrightarrow>
     lastfire s (ckey (key d)) = Some u \<Longrightarrow> u + gap s \<le> stamp d"
proof (induction es arbitrary: s u)
  case (Cons e es)
  obtain ds s' where ob: "observe s e = (ds, s')" by fastforce
  show ?case
  proof (cases "d \<in> set ds")
    case True
    with cooled [OF ob] Cons.prems show ?thesis by blast
  next
    case False
    then have d: "d \<in> set (outputs s' es)" using Cons.prems(3) ob by simp
    have g: "gap s' = gap s" by (rule gap_step [OF ob])
    show ?thesis
    proof (cases "ckey (key d) \<in> (ckey \<circ> key) ` set ds")
      case True
      then obtain d0 where d0: "d0 \<in> set ds" "ckey (key d) = ckey (key d0)" by auto
      have "lastfire s' (ckey (key d)) = Some (clock e)" using lastfire_step [OF ob] True by simp
      from Cons.IH [OF _ _ d this] g Cons.prems(1,2) have "clock e + gap s \<le> stamp d" by simp
      moreover have "u + gap s \<le> clock e"
        using cooled [OF ob d0(1)] fires_at [OF ob d0(1)] d0(2) Cons.prems by simp
      ultimately show ?thesis using Cons.prems(1) by simp
    next
      case False
      then have "lastfire s' (ckey (key d)) = Some u" using lastfire_step [OF ob] Cons.prems(4) by simp
      from Cons.IH [OF _ _ d this] g Cons.prems(1,2) show ?thesis by simp
    qed
  qed
qed simp

lemma spaced:
  "0 < gap s \<Longrightarrow> gap s \<le> maxInt64 \<Longrightarrow>
     sorted_wrt (\<lambda>a b. key a = key b \<longrightarrow> stamp a + gap s \<le> stamp b) (outputs s es)"
proof (induction es arbitrary: s)
  case (Cons e es)
  obtain ds s' where ob: "observe s e = (ds, s')" by fastforce
  have g: "gap s' = gap s" by (rule gap_step [OF ob])
  have "sorted_wrt (\<lambda>a b. (ckey \<circ> key) a \<noteq> (ckey \<circ> key) b) ds"
    by (rule distinct_map_sorted_wrt [OF fires_distinct [OF ob]])
  then have "sorted_wrt (\<lambda>a b. key a = key b \<longrightarrow> stamp a + gap s \<le> stamp b) ds"
    by (rule sorted_wrt_mono_rel [rotated]) auto
  moreover have "stamp a + gap s \<le> stamp b"
    if "a \<in> set ds" "b \<in> set (outputs s' es)" "key a = key b" for a b
  proof -
    have "lastfire s' (ckey (key b)) = Some (clock e)"
      using lastfire_step [OF ob] that by (auto simp: image_iff)
    from after_last [OF _ _ that(2) this] g Cons.prems fires_at [OF ob that(1)] show ?thesis by simp
  qed
  ultimately show ?case using Cons.IH [of s'] g Cons.prems by (simp add: ob sorted_wrt_append)
qed simp

end

end
