(* ===== verification/Detector_Laws.thy ===== *)
theory Detector_Laws
  imports Detectors Firing
begin

text \<open>
  What the detectors promise. \<open>detector\<close> is the contract of one detector: it announces
  something only when its cooldown lets it, and touches its cooldown in no other way. Every
  detector gives a \<open>firing\<close>, and so inherits the spacing of its announcements.
\<close>

lemma firable_True:
  "firable c k t = (True, c') \<Longrightarrow> c' = c\<lparr>cdLast := (cdLast c)(k \<mapsto> t)\<rparr> \<and> (\<forall>u. cdLast c k = Some u \<longrightarrow> \<not> Sub t u < cdD c)"
  by (auto simp: firable_def split: option.splits if_splits)

lemma firable_False: "firable c k t = (False, c') \<Longrightarrow> c' = c"
  by (auto simp: firable_def split: option.splits if_splits)

text \<open>One detector with its cooldown. \<open>tag\<close> is the part of its cooldown keys before the first
  separator, \<open>ktag\<close> that of its detection keys.\<close>

definition key_tag :: "string \<Rightarrow> string" where
  "key_tag k = takeWhile (\<lambda>c. c \<noteq> CHR '':'' \<and> c \<noteq> CHR ''|'') k"

definition as_list :: "('s \<Rightarrow> Event \<Rightarrow> Detection option \<times> 's) \<Rightarrow> 's \<Rightarrow> Event \<Rightarrow> Detection list \<times> 's" where
  "as_list obs s e = (case obs s e of (d, s') \<Rightarrow> (case d of None \<Rightarrow> [] | Some d \<Rightarrow> [d], s'))"

locale detector =
  fixes obs :: "'s \<Rightarrow> Event \<Rightarrow> Detection option \<times> 's"
    and cool :: "'s \<Rightarrow> cooldown"
    and ckey :: "string \<Rightarrow> string"
    and tag :: string
    and ktag :: string
  assumes silent: "obs s e = (None, s') \<Longrightarrow> cool s' = cool s"
    and fired: "obs s e = (Some d, s') \<Longrightarrow>
      firable (cool s) (ckey (dKey d)) (evTimestamp e) = (True, cool s')"
    and fired_at: "obs s e = (Some d, s') \<Longrightarrow> dLastAt d = evTimestamp e"
    and fired_tag: "obs s e = (Some d, s') \<Longrightarrow> key_tag (ckey (dKey d)) = tag"
    and fired_key: "obs s e = (Some d, s') \<Longrightarrow> key_tag (dKey d) = ktag"
begin

lemma step_last:
  "obs s e = (o', s') \<Longrightarrow> cdLast (cool s') k =
     (if \<exists>d. o' = Some d \<and> k = ckey (dKey d) then Some (evTimestamp e) else cdLast (cool s) k)"
  by (cases o') (auto dest!: silent fired firable_True)

lemma step_gap: "obs s e = (o', s') \<Longrightarrow> cdD (cool s') = cdD (cool s)"
  by (cases o') (auto dest!: silent fired firable_True)

lemma step_cooled:
  "obs s e = (Some d, s') \<Longrightarrow> cdLast (cool s) (ckey (dKey d)) = Some u \<Longrightarrow> cdD (cool s) \<le> Sub (evTimestamp e) u"
  by (auto dest!: fired firable_True)

end

sublocale detector \<subseteq> firing "as_list obs" evTimestamp dLastAt dKey "\<lambda>s. cdLast (cool s)" "\<lambda>s. cdD (cool s)" ckey
proof
  fix s e ds s' d u k
  assume "as_list obs s e = (ds, s')"
  then consider "obs s e = (None, s')" "ds = []" | d' where "obs s e = (Some d', s')" "ds = [d']"
    by (auto simp: as_list_def split: prod.splits option.splits)
  note cs = this
  show "cdD (cool s') = cdD (cool s)"
    by (rule cs) (auto dest!: silent fired firable_True)
  show "distinct (map (ckey \<circ> dKey) ds)" by (rule cs) auto
  show "dLastAt d = evTimestamp e" if "d \<in> set ds"
    by (rule cs) (use that in \<open>auto dest: fired_at\<close>)
  show "\<not> Sub (evTimestamp e) u < cdD (cool s)" if "d \<in> set ds" "cdLast (cool s) (ckey (dKey d)) = Some u"
    by (rule cs) (use that in \<open>auto dest!: fired firable_True\<close>)
  show "cdLast (cool s') k = (if k \<in> (ckey \<circ> dKey) ` set ds then Some (evTimestamp e) else cdLast (cool s) k)"
    by (rule cs) (auto dest!: silent fired firable_True)
qed

subsection \<open>The eight detectors\<close>

definition brute_ckey :: "string \<Rightarrow> string" where "brute_ckey k = ''bf:'' @ drop 6 k"
definition scan_ckey :: "string \<Rightarrow> string" where "scan_ckey k = ''scan:'' @ drop 5 k"
definition exfil_ckey :: "string \<Rightarrow> string" where "exfil_ckey k = ''exfil:'' @ drop 6 k"
definition spike_ckey :: "string \<Rightarrow> string" where "spike_ckey k = ''spike:'' @ drop 6 k"
definition beacon_ckey :: "string \<Rightarrow> string" where "beacon_ckey k = ''beacon:'' @ drop 7 k"

definition sentinel_ckey :: "string \<Rightarrow> string" where
  "sentinel_ckey k =
     (let rest = drop 9 k; p = takeWhile (\<lambda>c. c \<noteq> CHR ''|'') rest
      in ''sentinel:'' @ p @ '':'' @ drop (length p + 1) rest)"

lemmas ckey_defs = brute_ckey_def scan_ckey_def exfil_ckey_def spike_ckey_def beacon_ckey_def
  sentinel_ckey_def

interpretation brute: detector bruteForce_observe bfCool brute_ckey "''bf''" "''brute''"
  by unfold_locales
    (auto simp: bruteForce_observe_def Let_def brute_ckey_def key_tag_def
      split: if_splits prod.splits dest: firable_False)

interpretation scan: detector scan_observe snCool scan_ckey "''scan''" "''scan''"
  by unfold_locales
    (auto simp: scan_observe_def Let_def scan_ckey_def key_tag_def
      split: if_splits prod.splits dest: firable_False)

interpretation exfil: detector exfil_observe xfCool exfil_ckey "''exfil''" "''exfil''"
  by unfold_locales
    (auto simp: exfil_observe_def Let_def exfil_ckey_def key_tag_def
      split: if_splits prod.splits dest: firable_False)

interpretation new_admin: detector newAdmin_observe naCool "\<lambda>k. k" "''newadmin''" "''newadmin''"
  by unfold_locales
    (auto simp: newAdmin_observe_def Let_def key_tag_def
      split: if_splits prod.splits dest: firable_False)

interpretation spike: detector authSpike_observe asCool spike_ckey "''spike''" "''spike''"
  by unfold_locales
    (auto simp: authSpike_observe_def Let_def spike_ckey_def key_tag_def
      split: if_splits prod.splits dest: firable_False)

interpretation beacon: detector beacon_observe bcCool beacon_ckey "''beacon''" "''beacon''"
  by unfold_locales
    (auto simp: beacon_observe_def Let_def beacon_ckey_def key_tag_def
      split: if_splits prod.splits dest: firable_False)

interpretation new_service: detector newService_observe nsCool "\<lambda>k. k" "''newsvc''" "''newsvc''"
  by unfold_locales
    (auto simp: newService_observe_def Let_def key_tag_def
      split: if_splits prod.splits option.splits dest: firable_False)

lemma firstGroup_product_no_bar: "CHR ''|'' \<notin> set (firstGroup reSentinelProduct s)"
proof (cases "group1 reSentinelProduct s")
  case (Some v)
  then have "\<forall>c\<in>set v. in_cls product_cls c"
    unfolding reSentinelProduct_def by (blast dest: group1_key_value)
  moreover have "\<not> in_cls product_cls (CHR ''|'')" by (simp add: in_cls_def product_cls_def byte_def)
  ultimately show ?thesis using Some by (auto simp: firstGroup_def)
qed (simp add: firstGroup_def)

lemma sentinel_ckey_key:
  "CHR ''|'' \<notin> set p \<Longrightarrow> sentinel_ckey (''sentinel|'' @ p @ ''|'' @ a) = ''sentinel:'' @ p @ '':'' @ a"
proof -
  assume "CHR ''|'' \<notin> set p"
  then have "takeWhile (\<lambda>c. c \<noteq> CHR ''|'') (p @ CHR ''|'' # a) = p"
    by (subst takeWhile_append2) auto
  then show ?thesis by (simp add: sentinel_ckey_def)
qed

interpretation sentinel: detector sentinelFinding_observe sfCool sentinel_ckey "''sentinel''" "''sentinel''"
proof unfold_locales
  fix s e s' d
  show "sfCool s' = sfCool s" if "sentinelFinding_observe s e = (None, s')"
    using that by (auto simp: sentinelFinding_observe_def Let_def split: if_splits prod.splits dest: firable_False)
  assume F: "sentinelFinding_observe s e = (Some d, s')"
  let ?p = "firstGroup reSentinelProduct (if evMessage e = [] then evRaw e else evMessage e)"
  have k: "sentinel_ckey (dKey d) = ''sentinel:'' @ ?p @ '':'' @ evSrcIP e"
    using F sentinel_ckey_key [OF firstGroup_product_no_bar, of "if evMessage e = [] then evRaw e else evMessage e" "evSrcIP e"]
    by (auto simp: sentinelFinding_observe_def Let_def split: if_splits prod.splits)
  show "firable (sfCool s) (sentinel_ckey (dKey d)) (evTimestamp e) = (True, sfCool s')"
    unfolding k using F by (auto simp: sentinelFinding_observe_def Let_def split: if_splits prod.splits)
  show "dLastAt d = evTimestamp e"
    using F by (auto simp: sentinelFinding_observe_def Let_def split: if_splits prod.splits)
  show "key_tag (sentinel_ckey (dKey d)) = ''sentinel''"
    unfolding k by (simp add: key_tag_def)
  show "key_tag (dKey d) = ''sentinel''"
    using F by (auto simp: sentinelFinding_observe_def Let_def key_tag_def split: if_splits prod.splits)
qed

end
