(* ===== verification/Engine_Laws.thy ===== *)
theory Engine_Laws
  imports Detector_Laws
begin

text \<open>
  The detector engine as a whole. Its cooldown entries are those of the eight detectors, told apart
  by the tag of the key; with that, \<open>Engine_Observe\<close> satisfies the contract \<open>firing\<close>. The second
  half compares the brute-force detector with a reference that keeps the complete log.
\<close>

definition engine_last :: "Engine \<Rightarrow> string \<Rightarrow> time option" where
  "engine_last g k =
     (let t = key_tag k
      in if t = ''bf'' then cdLast (bfCool (egBrute g)) k
         else if t = ''scan'' then cdLast (snCool (egScan g)) k
         else if t = ''exfil'' then cdLast (xfCool (egExfil g)) k
         else if t = ''newadmin'' then cdLast (naCool (egNewAdmin g)) k
         else if t = ''spike'' then cdLast (asCool (egAuthSpike g)) k
         else if t = ''sentinel'' then cdLast (sfCool (egSentinel g)) k
         else if t = ''beacon'' then cdLast (bcCool (egBeacon g)) k
         else if t = ''newsvc'' then cdLast (nsCool (egNewSvc g)) k
         else None)"

definition engine_gaps :: "Engine \<Rightarrow> duration list" where
  "engine_gaps g = map cdD [bfCool (egBrute g), snCool (egScan g), xfCool (egExfil g),
     naCool (egNewAdmin g), asCool (egAuthSpike g), sfCool (egSentinel g), bcCool (egBeacon g),
     nsCool (egNewSvc g)]"

definition engine_gap :: "Engine \<Rightarrow> duration" where
  "engine_gap g = Min (set (engine_gaps g))"

definition engine_ckey :: "string \<Rightarrow> string" where
  "engine_ckey k =
     (let t = key_tag k
      in if t = ''brute'' then brute_ckey k
         else if t = ''scan'' then scan_ckey k
         else if t = ''exfil'' then exfil_ckey k
         else if t = ''spike'' then spike_ckey k
         else if t = ''sentinel'' then sentinel_ckey k
         else if t = ''beacon'' then beacon_ckey k
         else k)"

definition opt_list :: "'a option \<Rightarrow> 'a list" where
  "opt_list x = (case x of None \<Rightarrow> [] | Some d \<Rightarrow> [d])"

lemma opt_list_simps [simp]: "opt_list None = []" "opt_list (Some d) = [d]" "set (opt_list x) = {d. x = Some d}"
  by (auto simp: opt_list_def split: option.split)

lemma Engine_ObserveE:
  assumes "Engine_Observe g e = (ds, g')"
  obtains d1 d2 d3 d4 d5 d6 d7 d8 where
    "bruteForce_observe (egBrute g) e = (d1, egBrute g')"
    "scan_observe (egScan g) e = (d2, egScan g')"
    "exfil_observe (egExfil g) e = (d3, egExfil g')"
    "newAdmin_observe (egNewAdmin g) e = (d4, egNewAdmin g')"
    "authSpike_observe (egAuthSpike g) e = (d5, egAuthSpike g')"
    "sentinelFinding_observe (egSentinel g) e = (d6, egSentinel g')"
    "beacon_observe (egBeacon g) e = (d7, egBeacon g')"
    "newService_observe (egNewSvc g) e = (d8, egNewSvc g')"
    "ds = concat (map opt_list [d1, d2, d3, d4, d5, d6, d7, d8])"
  using assms by (auto simp: Engine_Observe_def opt_list_def [abs_def] split: prod.splits)

lemma engine_ckey_simps:
  "key_tag k = ''brute'' \<Longrightarrow> engine_ckey k = brute_ckey k"
  "key_tag k = ''scan'' \<Longrightarrow> engine_ckey k = scan_ckey k"
  "key_tag k = ''exfil'' \<Longrightarrow> engine_ckey k = exfil_ckey k"
  "key_tag k = ''newadmin'' \<Longrightarrow> engine_ckey k = k"
  "key_tag k = ''spike'' \<Longrightarrow> engine_ckey k = spike_ckey k"
  "key_tag k = ''sentinel'' \<Longrightarrow> engine_ckey k = sentinel_ckey k"
  "key_tag k = ''beacon'' \<Longrightarrow> engine_ckey k = beacon_ckey k"
  "key_tag k = ''newsvc'' \<Longrightarrow> engine_ckey k = k"
  by (simp_all add: engine_ckey_def)

lemma distinct_tagged:
  assumes "distinct tags" and "length os = length tags"
    and "\<forall>i<length os. \<forall>d. os ! i = Some d \<longrightarrow> f d = tags ! i"
  shows "distinct (map f (concat (map opt_list os)))"
  using assms
proof (induction os tags rule: list_induct2')
  case (4 x os t tags)
  have IH: "distinct (map f (concat (map opt_list os)))"
    using 4 by force
  have "f d \<in> set tags" if "d \<in> set (concat (map opt_list os))" for d
  proof -
    from that have "Some d \<in> set os" by auto
    then obtain i where "i < length os" "os ! i = Some d" by (auto simp: in_set_conv_nth)
    with "4.prems"(2,3) show ?thesis by (metis Suc_less_eq length_Cons nat.inject nth_Cons_Suc nth_mem)
  qed
  moreover have "x = Some d \<Longrightarrow> f d = t" for d using "4.prems"(3) by force
  ultimately show ?case using IH "4.prems"(1) by (cases x) auto
qed auto

text \<open>One step of the engine, seen from one detector with cooldown keys tagged \<open>tag\<close>: what the
  laws of the locale \<open>detector\<close> give.\<close>

definition seen_by :: "Event \<Rightarrow> Detection option \<Rightarrow> string \<Rightarrow> cooldown \<Rightarrow> cooldown \<Rightarrow> bool" where
  "seen_by e o' tag c c' \<longleftrightarrow>
     cdD c' = cdD c \<and>
     (\<forall>d. o' = Some d \<longrightarrow> dLastAt d = evTimestamp e \<and> key_tag (engine_ckey (dKey d)) = tag \<and>
        (\<forall>u. cdLast c (engine_ckey (dKey d)) = Some u \<longrightarrow> cdD c \<le> Sub (evTimestamp e) u)) \<and>
     (\<forall>k. cdLast c' k =
        (if \<exists>d. o' = Some d \<and> k = engine_ckey (dKey d) then Some (evTimestamp e) else cdLast c k))"

context detector
begin

lemma seen:
  assumes "obs s e = (o', s')" and "\<And>k. key_tag k = ktag \<Longrightarrow> engine_ckey k = ckey k"
  shows "seen_by e o' tag (cool s) (cool s')"
  unfolding seen_by_def
  using step_gap [OF assms(1)] step_last [OF assms(1)] step_cooled [of s e _ s'] fired_at [of s e _ s']
    fired_tag [of s e _ s'] fired_key [of s e _ s'] assms
  by auto

end

lemma seen_gap: "seen_by e o' tag c c' \<Longrightarrow> cdD c' = cdD c"
  by (simp add: seen_by_def)

lemma seen_at: "seen_by e o' tag c c' \<Longrightarrow> \<forall>d. o' = Some d \<longrightarrow> dLastAt d = evTimestamp e"
  by (simp add: seen_by_def)

lemma seen_tag: "seen_by e o' tag c c' \<Longrightarrow> \<forall>d. o' = Some d \<longrightarrow> key_tag (engine_ckey (dKey d)) = tag"
  by (simp add: seen_by_def)

lemma seen_cooled:
  "seen_by e o' tag c c' \<Longrightarrow> o' = Some d \<Longrightarrow> cdLast c (engine_ckey (dKey d)) = Some u \<Longrightarrow>
     cdD c \<le> Sub (evTimestamp e) u"
  by (simp add: seen_by_def)

lemma seen_hit:
  "seen_by e o' tag c c' \<Longrightarrow> o' = Some d \<Longrightarrow> cdLast c' (engine_ckey (dKey d)) = Some (evTimestamp e)"
  by (auto simp: seen_by_def)

lemma seen_miss:
  "seen_by e o' tag c c' \<Longrightarrow> (\<forall>d. o' = Some d \<longrightarrow> k \<noteq> engine_ckey (dKey d)) \<longrightarrow> cdLast c' k = cdLast c k"
  by (auto simp: seen_by_def)

lemma Engine_Observe_seen:
  assumes "Engine_Observe g e = (ds, g')"
  obtains d1 d2 d3 d4 d5 d6 d7 d8 where
    "seen_by e d1 ''bf'' (bfCool (egBrute g)) (bfCool (egBrute g'))"
    "seen_by e d2 ''scan'' (snCool (egScan g)) (snCool (egScan g'))"
    "seen_by e d3 ''exfil'' (xfCool (egExfil g)) (xfCool (egExfil g'))"
    "seen_by e d4 ''newadmin'' (naCool (egNewAdmin g)) (naCool (egNewAdmin g'))"
    "seen_by e d5 ''spike'' (asCool (egAuthSpike g)) (asCool (egAuthSpike g'))"
    "seen_by e d6 ''sentinel'' (sfCool (egSentinel g)) (sfCool (egSentinel g'))"
    "seen_by e d7 ''beacon'' (bcCool (egBeacon g)) (bcCool (egBeacon g'))"
    "seen_by e d8 ''newsvc'' (nsCool (egNewSvc g)) (nsCool (egNewSvc g'))"
    "ds = concat (map opt_list [d1, d2, d3, d4, d5, d6, d7, d8])"
  using assms
  by (rule Engine_ObserveE)
    (blast intro: brute.seen scan.seen exfil.seen new_admin.seen spike.seen sentinel.seen beacon.seen
      new_service.seen engine_ckey_simps)

interpretation engine: firing Engine_Observe evTimestamp dLastAt dKey engine_last engine_gap engine_ckey
proof
  fix g e ds g' d u k
  assume "Engine_Observe g e = (ds, g')"
  then obtain d1 d2 d3 d4 d5 d6 d7 d8 where
    s: "seen_by e d1 ''bf'' (bfCool (egBrute g)) (bfCool (egBrute g'))"
    "seen_by e d2 ''scan'' (snCool (egScan g)) (snCool (egScan g'))"
    "seen_by e d3 ''exfil'' (xfCool (egExfil g)) (xfCool (egExfil g'))"
    "seen_by e d4 ''newadmin'' (naCool (egNewAdmin g)) (naCool (egNewAdmin g'))"
    "seen_by e d5 ''spike'' (asCool (egAuthSpike g)) (asCool (egAuthSpike g'))"
    "seen_by e d6 ''sentinel'' (sfCool (egSentinel g)) (sfCool (egSentinel g'))"
    "seen_by e d7 ''beacon'' (bcCool (egBeacon g)) (bcCool (egBeacon g'))"
    "seen_by e d8 ''newsvc'' (nsCool (egNewSvc g)) (nsCool (egNewSvc g'))"
    and ds: "ds = concat (map opt_list [d1, d2, d3, d4, d5, d6, d7, d8])"
    by (rule Engine_Observe_seen)
  have "engine_gaps g' = engine_gaps g"
    by (simp only: engine_gaps_def list.map s [THEN seen_gap])
  then show "engine_gap g' = engine_gap g" by (simp only: engine_gap_def)
  let ?tags = "[''bf'', ''scan'', ''exfil'', ''newadmin'', ''spike'', ''sentinel'', ''beacon'', ''newsvc'']"
  have "distinct (map (\<lambda>d. key_tag (engine_ckey (dKey d))) (concat (map opt_list [d1, d2, d3, d4, d5, d6, d7, d8])))"
    by (rule distinct_tagged [of ?tags]) (use s [THEN seen_tag] in \<open>auto simp: less_Suc_eq numeral_eq_Suc\<close>)
  then have "distinct (map key_tag (map (engine_ckey \<circ> dKey) ds))" by (simp add: ds comp_def)
  then show "distinct (map (engine_ckey \<circ> dKey) ds)" by (simp only: distinct_map)
  show "dLastAt d = evTimestamp e" if "d \<in> set ds"
    using that s [THEN seen_at] by (auto simp: ds)
  show "\<not> Sub (evTimestamp e) u < engine_gap g" if "d \<in> set ds" "engine_last g (engine_ckey (dKey d)) = Some u"
  proof -
    have "\<exists>c\<in>set (engine_gaps g). c \<le> Sub (evTimestamp e) u"
      using that s [THEN seen_tag] s [THEN seen_cooled, of d u]
      by (auto simp: ds engine_gaps_def engine_last_def)
    then have "engine_gap g \<le> Sub (evTimestamp e) u"
      unfolding engine_gap_def by (metis List.finite_set Min_le order_trans)
    then show ?thesis by simp
  qed
  show "engine_last g' k =
      (if k \<in> (engine_ckey \<circ> dKey) ` set ds then Some (evTimestamp e) else engine_last g k)"
  proof (cases "k \<in> (engine_ckey \<circ> dKey) ` set ds")
    case True
    then obtain d where d: "d \<in> set ds" "k = engine_ckey (dKey d)" by auto
    then have "engine_last g' (engine_ckey (dKey d)) = Some (evTimestamp e)"
      using s [THEN seen_tag] s [THEN seen_hit, of d] by (auto simp: ds engine_last_def)
    then show ?thesis using True d(2) by simp
  next
    case False
    then have "\<forall>d\<in>set ds. k \<noteq> engine_ckey (dKey d)" by auto
    then have "engine_last g' k = engine_last g k"
      using s [THEN seen_miss, of k] by (simp add: ds engine_last_def Let_def)
    then show ?thesis using False by simp
  qed
qed

lemma engine_gap_NewEngine: "engine_gap (NewEngine cfg) = Cooldown (withDefaults cfg)"
  by (simp add: engine_gap_def engine_gaps_def NewEngine_def Let_def newCooldown_def newBruteForce_def
      newScan_def newExfil_def newNewAdmin_def newAuthSpike_def newSentinelFinding_def newBeacon_def
      newNewService_def)

text \<open>C34. The engine never repeats itself within the cooldown: for every configuration and every
  sequence of events, in whatever order their timestamps come, any two detections with the same
  key are at least the configured cooldown apart (five minutes when it is left at zero).\<close>

theorem detections_spaced:
  assumes "0 \<le> Cooldown cfg" and "Cooldown cfg \<le> maxInt64"
  shows "sorted_wrt (\<lambda>a b. dKey a = dKey b \<longrightarrow>
      dLastAt a + (if Cooldown cfg = 0 then 5 * minute else Cooldown cfg) \<le> dLastAt b)
    (engine.outputs (NewEngine cfg) es)"
proof -
  have "engine_gap (NewEngine cfg) = (if Cooldown cfg = 0 then 5 * minute else Cooldown cfg)"
    by (simp add: engine_gap_NewEngine withDefaults_def)
  then show ?thesis
    using engine.spaced [of "NewEngine cfg" es] assms
    by (simp add: minute_def second_def maxInt64_def split: if_splits)
qed

definition ex_admin :: "time \<Rightarrow> Event" where
  "ex_admin t = zero_event\<lparr>evTimestamp := t, evAction := ''new_admin'', evHost := ''h'', evUser := ''eve''\<rparr>"

theorem detections_spaced_witness:
  "sorted_wrt (\<lambda>a b. dKey a = dKey b \<longrightarrow> dLastAt a + 5 * minute \<le> dLastAt b)
     (engine.outputs (NewEngine zero_config) [ex_admin 7, ex_admin (8 * minute), ex_admin 9])"
  using detections_spaced [of zero_config "[ex_admin 7, ex_admin (8 * minute), ex_admin 9]"]
  by (simp add: zero_config_def maxInt64_def)

subsection \<open>Brute force against the complete log\<close>

text \<open>The reference keeps every failure of an actor since that actor's last alarm.\<close>

type_synonym brute_log = "(string \<Rightarrow> time list) \<times> (string \<Rightarrow> time option)"

definition brute_spec :: "Config \<Rightarrow> brute_log \<Rightarrow> Event \<Rightarrow> (string \<times> int \<times> time) option \<times> brute_log" where
  "brute_spec c st e =
     (let (log, alarm) = st; a = Actor e; t = evTimestamp e
      in if evAuth e \<noteq> AuthFailure \<or> a = [] then (None, st)
         else let l = log a @ [t];
                  n = int (length (filter (\<lambda>x. t - BruteWindow c \<le> x) l))
              in if BruteFailures c \<le> n \<and> (case alarm a of None \<Rightarrow> True | Some u \<Rightarrow> Cooldown c \<le> Sub t u)
                 then (Some (a, n, t), (log(a := []), alarm(a \<mapsto> t)))
                 else (None, (log(a := l), alarm)))"

fun trace :: "('s \<Rightarrow> Event \<Rightarrow> 'd option \<times> 's) \<Rightarrow> 's \<Rightarrow> Event list \<Rightarrow> 'd option list" where
  "trace obs s [] = []"
| "trace obs s (e # es) = fst (obs s e) # trace obs (snd (obs s e)) es"

definition brute_rel :: "Config \<Rightarrow> bruteForce \<Rightarrow> brute_log \<Rightarrow> bool" where
  "brute_rel c b st \<longleftrightarrow>
     bfCfg b = c \<and> scWindow (bfCount b) = BruteWindow c \<and> cdD (bfCool b) = Cooldown c \<and>
     (\<forall>a. counter.holds (bfCount b) a (fst st a)) \<and> (\<forall>a. cdLast (bfCool b) (''bf:'' @ a) = snd st a)"

lemma brute_step_refines:
  assumes "brute_rel c b st" and "\<forall>a. \<forall>x\<in>set (fst st a). x \<le> evTimestamp e"
  shows "map_option (\<lambda>d. (dActor d, dCount d, dLastAt d)) (fst (bruteForce_observe b e)) = fst (brute_spec c st e)"
    and "brute_rel c (snd (bruteForce_observe b e)) (snd (brute_spec c st e))"
    and "\<forall>a. \<forall>x\<in>set (fst (snd (brute_spec c st e)) a). x \<le> evTimestamp e"
proof -
  let ?a = "Actor e" and ?t = "evTimestamp e"
  have holds: "counter.holds (bfCount b) ?a (fst st ?a)" using assms(1) by (simp add: brute_rel_def)
  have srt: "sorted (map (\<lambda>x. x) (fst st ?a @ [?t]))"
    using holds assms(2) by (simp add: counter.holds_def sorted_append)
  define cnt where "cnt = snd (sc_add (bfCount b) ?a ?t)"
  have n: "sc_add (bfCount b) ?a ?t = (length (filter (\<lambda>x. ?t - BruteWindow c \<le> x) (fst st ?a @ [?t])), cnt)"
    using counter.add_holds(2) [OF holds srt] assms(1)
    by (simp add: cnt_def brute_rel_def sc_add_def Let_def)
  have cnt: "counter.holds cnt ?a (fst st ?a @ [?t])" "scWindow cnt = BruteWindow c"
    "a \<noteq> ?a \<Longrightarrow> counter.holds cnt a (fst st a)" for a
    using counter.add_holds(1) [OF holds srt] counter.add_other_holds [of ?a a] counter.width_add assms(1)
    by (simp_all add: cnt_def brute_rel_def)
  have rst: "counter.holds (sc_reset cnt ?a) ?a []" "scWindow (sc_reset cnt ?a) = BruteWindow c"
    "a \<noteq> ?a \<Longrightarrow> counter.holds (sc_reset cnt ?a) a (fst st a)" for a
    using cnt(2) cnt(3) [of a] by (simp_all add: counter.holds_def sc_reset_def)
  show "map_option (\<lambda>d. (dActor d, dCount d, dLastAt d)) (fst (bruteForce_observe b e)) = fst (brute_spec c st e)"
    using assms(1) n
    by (auto simp: bruteForce_observe_def brute_spec_def brute_rel_def firable_def Let_def case_prod_beta split: option.splits)
  show "brute_rel c (snd (bruteForce_observe b e)) (snd (brute_spec c st e))"
    using assms(1) n cnt rst
    by (auto simp: bruteForce_observe_def brute_spec_def brute_rel_def firable_def Let_def case_prod_beta split: option.splits)
  show "\<forall>a. \<forall>x\<in>set (fst (snd (brute_spec c st e)) a). x \<le> evTimestamp e"
    using assms(2) by (auto simp: brute_spec_def Let_def case_prod_beta)
qed

lemma brute_trace_refines:
  "brute_rel c b st \<Longrightarrow> \<forall>a. \<forall>x\<in>set (fst st a). \<forall>e\<in>set es. x \<le> evTimestamp e \<Longrightarrow>
     sorted (map evTimestamp es) \<Longrightarrow>
     map (map_option (\<lambda>d. (dActor d, dCount d, dLastAt d))) (trace bruteForce_observe b es) =
     trace (brute_spec c) st es"
proof (induction es arbitrary: b st)
  case (Cons e es)
  have le: "\<forall>a. \<forall>x\<in>set (fst st a). x \<le> evTimestamp e" using Cons.prems(2) by simp
  note step = brute_step_refines [OF Cons.prems(1) le]
  have "\<forall>a. \<forall>x\<in>set (fst (snd (brute_spec c st e)) a). \<forall>e'\<in>set es. x \<le> evTimestamp e'"
    using step(3) Cons.prems(3) by (auto intro: order_trans)
  with Cons.IH [OF step(2)] Cons.prems(3) step(1) show ?case by simp
qed simp

text \<open>C6. Bounded memory costs the brute-force detector nothing: on events in time order it fires on
  exactly the events, with exactly the counts, of a reference that keeps every failure of each
  actor since its last alarm and counts those inside the window.\<close>

theorem brute_force_refines_log:
  assumes "sorted (map evTimestamp es)"
  shows "map (map_option (\<lambda>d. (dActor d, dCount d, dLastAt d))) (trace bruteForce_observe (newBruteForce c) es) =
    trace (brute_spec c) (\<lambda>_. [], \<lambda>_. None) es"
proof (rule brute_trace_refines [OF _ _ assms])
  show "brute_rel c (newBruteForce c) (\<lambda>_. [], \<lambda>_. None)"
    by (simp add: brute_rel_def newBruteForce_def newSlidingCounter_def newCooldown_def counter.holds_def)
qed simp

definition ex_failure :: "time \<Rightarrow> Event" where
  "ex_failure t = zero_event\<lparr>evTimestamp := t, evAuth := AuthFailure, evSrcIP := ''203.0.113.9''\<rparr>"

theorem brute_force_refines_log_witness:
  "map (map_option (\<lambda>d. (dActor d, dCount d, dLastAt d)))
     (trace bruteForce_observe (newBruteForce (zero_config\<lparr>BruteFailures := 2, BruteWindow := 10, Cooldown := 5\<rparr>))
       [ex_failure 100, ex_failure 120, ex_failure 125]) = [None, None, Some (''203.0.113.9'', 2, 125)]"
proof -
  have "sorted (map evTimestamp [ex_failure 100, ex_failure 120, ex_failure 125])"
    by (simp add: ex_failure_def)
  then show ?thesis
    unfolding brute_force_refines_log [OF \<open>sorted _\<close>]
    by (simp add: brute_spec_def ex_failure_def zero_event_def zero_config_def Actor_def auth_consts Let_def)
qed

end
