(* ===== verification/Netflow.thy ===== *)
theory Netflow
  imports Log_Event "HOL-Library.Monad_Syntax"
begin

text \<open>
  netflow/netflow.go: the parser for NetFlow v5, v9 and IPFIX datagrams. Bytes are \<open>8 word\<close>. Every
  slice expression of the source goes through \<open>slice_of\<close>, whose value \<open>None\<close> is Go's
  out-of-range panic, so the parser is a computation in the option monad and \<open>None\<close> means a crash.
  The template cache is threaded as state.
\<close>

definition slice_of :: "u8 list \<Rightarrow> nat \<Rightarrow> nat \<Rightarrow> u8 list option" where
  "slice_of b i j = (if i \<le> j \<and> j \<le> length b then Some (take (j - i) (drop i b)) else None)"

definition index_of :: "u8 list \<Rightarrow> nat \<Rightarrow> u8 option" where
  "index_of b i = (if i < length b then Some (b ! i) else None)"

definition u16_at :: "u8 list \<Rightarrow> nat \<Rightarrow> nat option" where
  "u16_at b i = map_option be_nat (slice_of b i (i + 2))"

definition u32_at :: "u8 list \<Rightarrow> nat \<Rightarrow> nat option" where
  "u32_at b i = map_option be_nat (slice_of b i (i + 4))"

record Flow =
  flExporter :: string
  flSrcIP :: string
  flDstIP :: string
  flSrcPort :: int
  flDstPort :: int
  flProto :: u8
  flBytes :: int
  flPackets :: int
  flStart :: time
  flEnd :: time

record templateField =
  tfType :: nat
  tfLen :: nat
  tfEnt :: bool

record TemplateCache =
  tcTpls :: "(string, templateField list) gomap"
  tcDropped :: int

definition NewTemplateCache :: TemplateCache where
  "NewTemplateCache = \<lparr>tcTpls = [], tcDropped = 0\<rparr>"

definition tpl_key :: "string \<Rightarrow> nat \<Rightarrow> nat \<Rightarrow> string" where
  "tpl_key exporter domain tid = exporter @ ''|'' @ itoa (int domain) @ ''|'' @ itoa (int tid)"

definition tc_put :: "TemplateCache \<Rightarrow> string \<Rightarrow> nat \<Rightarrow> nat \<Rightarrow> templateField list \<Rightarrow> TemplateCache" where
  "tc_put c exporter domain tid fs =
     (let m = (if length (tcTpls c) > 4096 then [] else tcTpls c)
      in c\<lparr>tcTpls := map_put (tpl_key exporter domain tid) fs m\<rparr>)"

definition tc_get :: "TemplateCache \<Rightarrow> string \<Rightarrow> nat \<Rightarrow> nat \<Rightarrow> templateField list option" where
  "tc_get c exporter domain tid = map_of (tcTpls c) (tpl_key exporter domain tid)"

subsection \<open>Field values\<close>

definition uintN :: "u8 list \<Rightarrow> u64" where
  "uintN v = be_word (drop (length v - 8) v)"

definition int64_of :: "u64 \<Rightarrow> int" where
  "int64_of w = wrap64 (uint w)"

definition applyField :: "Flow \<Rightarrow> nat \<Rightarrow> u8 list \<Rightarrow> Flow" where
  "applyField f typ v =
     (if typ = 1 then f\<lparr>flBytes := int64_of (uintN v)\<rparr>
      else if typ = 2 then f\<lparr>flPackets := int64_of (uintN v)\<rparr>
      else if typ = 4 then (if length v \<ge> 1 then f\<lparr>flProto := last v\<rparr> else f)
      else if typ = 7 then f\<lparr>flSrcPort := int64_of (uintN v)\<rparr>
      else if typ = 11 then f\<lparr>flDstPort := int64_of (uintN v)\<rparr>
      else if typ = 8 then (if length v = 4 then f\<lparr>flSrcIP := AddrString (V4 v)\<rparr> else f)
      else if typ = 12 then (if length v = 4 then f\<lparr>flDstIP := AddrString (V4 v)\<rparr> else f)
      else if typ = 27 then (if length v = 16 then f\<lparr>flSrcIP := AddrString (V6 v [])\<rparr> else f)
      else if typ = 28 then (if length v = 16 then f\<lparr>flDstIP := AddrString (V6 v [])\<rparr> else f)
      else f)"

definition empty_flow :: "string \<Rightarrow> time \<Rightarrow> Flow" where
  "empty_flow exporter now = \<lparr>flExporter = exporter, flSrcIP = [], flDstIP = [], flSrcPort = 0, flDstPort = 0,
     flProto = 0, flBytes = 0, flPackets = 0, flStart = now, flEnd = now\<rparr>"

text \<open>The tail both record decoders share: a record without both addresses is dropped, a missing
  packet count is one.\<close>

definition finish_record :: "Flow \<Rightarrow> Flow option" where
  "finish_record f =
     (if flSrcIP f = [] \<or> flDstIP f = [] then None
      else Some (if flPackets f = 0 then f\<lparr>flPackets := 1\<rparr> else f))"

fun fixed_fields :: "u8 list \<Rightarrow> templateField list \<Rightarrow> nat \<Rightarrow> Flow \<Rightarrow> Flow option" where
  "fixed_fields r [] off f = Some f"
| "fixed_fields r (tf # tpl) off f = do {
     v \<leftarrow> slice_of r off (off + tfLen tf);
     fixed_fields r tpl (off + tfLen tf) (if tfEnt tf then f else applyField f (tfType tf) v) }"

definition decodeRecordFixed ::
    "u8 list \<Rightarrow> templateField list \<Rightarrow> string \<Rightarrow> time \<Rightarrow> Flow option option" where
  "decodeRecordFixed r tpl exporter now = do {
     f \<leftarrow> fixed_fields r tpl 0 (empty_flow exporter now);
     Some (finish_record f) }"

text \<open>The length of one field of a variable-length record and the offset of its value; the inner
  \<open>None\<close> is the early return on a truncated record.\<close>

definition field_len :: "u8 list \<Rightarrow> templateField \<Rightarrow> nat \<Rightarrow> (nat \<times> nat) option option" where
  "field_len r tf off =
     (if tfLen tf = 65535 then
        if off \<ge> length r then Some None
        else do {
          l \<leftarrow> index_of r off;
          if unat l = 255 then
            if off + 1 + 2 > length r then Some None
            else do { l2 \<leftarrow> u16_at r (off + 1); Some (Some (l2, off + 3)) }
          else Some (Some (unat l, off + 1)) }
      else Some (Some (tfLen tf, off)))"

fun var_fields :: "u8 list \<Rightarrow> templateField list \<Rightarrow> nat \<Rightarrow> Flow \<Rightarrow> (Flow \<times> nat) option option" where
  "var_fields r [] off f = Some (Some (f, off))"
| "var_fields r (tf # tpl) off f = do {
     lo \<leftarrow> field_len r tf off;
     case lo of
       None \<Rightarrow> Some None
     | Some (l, off) \<Rightarrow>
         if off + l > length r then Some None
         else do {
           v \<leftarrow> slice_of r off (off + l);
           var_fields r tpl (off + l) (if tfEnt tf then f else applyField f (tfType tf) v) } }"

definition decodeRecordVar ::
    "u8 list \<Rightarrow> templateField list \<Rightarrow> string \<Rightarrow> time \<Rightarrow> (Flow option \<times> nat) option" where
  "decodeRecordVar r tpl exporter now = do {
     res \<leftarrow> var_fields r tpl 0 (empty_flow exporter now);
     Some (case res of None \<Rightarrow> (None, 0) | Some (f, off) \<Rightarrow> (finish_record f, off)) }"

subsection \<open>Data sets\<close>

text \<open>The first loop of \<open>decodeData\<close>: the record length, and whether a field is variable.\<close>

fun rec_len :: "templateField list \<Rightarrow> nat \<Rightarrow> nat \<times> bool" where
  "rec_len [] n = (n, False)"
| "rec_len (f # fs) n = (if tfLen f = 65535 then (n, True) else rec_len fs (n + tfLen f))"

definition opt_flow :: "Flow option \<Rightarrow> Flow list" where
  "opt_flow f = (case f of None \<Rightarrow> [] | Some f \<Rightarrow> [f])"

function records_loop ::
    "u8 list \<Rightarrow> templateField list \<Rightarrow> nat \<Rightarrow> bool \<Rightarrow> string \<Rightarrow> time \<Rightarrow> nat \<Rightarrow> Flow list \<Rightarrow> Flow list option" where
  "records_loop b tpl recLen varlen exporter now off out =
     (if varlen then do {
        rest \<leftarrow> slice_of b off (length b);
        (f, n) \<leftarrow> decodeRecordVar rest tpl exporter now;
        if n = 0 then Some out
        else if off + n + 3 \<ge> length b then Some (out @ opt_flow f)
        else records_loop b tpl recLen varlen exporter now (off + n) (out @ opt_flow f) }
      else if recLen = 0 \<or> off + recLen > length b then Some out
      else do {
        r \<leftarrow> slice_of b off (off + recLen);
        f \<leftarrow> decodeRecordFixed r tpl exporter now;
        if off + recLen + 3 \<ge> length b then Some (out @ opt_flow f)
        else records_loop b tpl recLen varlen exporter now (off + recLen) (out @ opt_flow f) })"
  by pat_completeness auto
termination
  by (relation "measure (\<lambda>(b, _, _, _, _, _, off, _). length b - off)") auto

declare records_loop.simps [simp del]

definition decodeData ::
    "u8 list \<Rightarrow> string \<Rightarrow> nat \<Rightarrow> nat \<Rightarrow> time \<Rightarrow> TemplateCache \<Rightarrow> (Flow list \<times> TemplateCache) option" where
  "decodeData b exporter domain tid now tc =
     (case tc_get tc exporter domain tid of
        None \<Rightarrow> Some ([], tc\<lparr>tcDropped := tcDropped tc + 1\<rparr>)
      | Some tpl \<Rightarrow> do {
          fs \<leftarrow> (let (n, v) = rec_len tpl 0 in records_loop b tpl n v exporter now 0 []);
          Some (fs, tc) })"

subsection \<open>Template sets\<close>

text \<open>The inner loop of \<open>parseTemplates\<close>: \<open>n\<close> more fields; the inner \<open>None\<close> is the early return.\<close>

fun fields_loop ::
    "u8 list \<Rightarrow> bool \<Rightarrow> nat \<Rightarrow> nat \<Rightarrow> templateField list \<Rightarrow> (templateField list \<times> nat) option option" where
  "fields_loop b ipfix 0 off acc = Some (Some (acc, off))"
| "fields_loop b ipfix (Suc n) off acc =
     (if off + 4 > length b then Some None
      else do {
        ft \<leftarrow> u16_at b off;
        fl \<leftarrow> u16_at b (off + 2);
        if ipfix \<and> 32768 \<le> ft then
          if off + 8 > length b then Some None
          else fields_loop b ipfix n (off + 8) (acc @ [\<lparr>tfType = ft - 32768, tfLen = fl, tfEnt = True\<rparr>])
        else fields_loop b ipfix n (off + 4) (acc @ [\<lparr>tfType = ft, tfLen = fl, tfEnt = False\<rparr>]) })"

lemma fields_loop_mono: "fields_loop b ipfix n off acc = Some (Some (fs, off')) \<Longrightarrow> off \<le> off'"
proof (induction n arbitrary: off acc)
  case (Suc n)
  then obtain k acc' where "fields_loop b ipfix n (off + k) acc' = Some (Some (fs, off'))"
    by (auto simp: bind_eq_Some_conv simp del: fields_loop.simps(1) split: if_splits)
  from Suc.IH [OF this] show ?case by simp
qed simp

function parseTemplates ::
    "u8 list \<Rightarrow> string \<Rightarrow> nat \<Rightarrow> bool \<Rightarrow> nat \<Rightarrow> TemplateCache \<Rightarrow> TemplateCache option" where
  "parseTemplates b exporter domain ipfix off tc =
     (if off + 4 \<le> length b then do {
        tid \<leftarrow> u16_at b off;
        n \<leftarrow> u16_at b (off + 2);
        if tid < 256 \<or> n = 0 \<or> n > 128 then Some tc
        else do {
          res \<leftarrow> fields_loop b ipfix n (off + 4) [];
          (case res of
             None \<Rightarrow> Some tc
           | Some (fs, off') \<Rightarrow> parseTemplates b exporter domain ipfix off' (tc_put tc exporter domain tid fs)) } }
      else Some tc)"
  by pat_completeness auto
termination
  by (relation "measure (\<lambda>(b, _, _, _, off, _). length b - off)") (auto dest: fields_loop_mono)

declare parseTemplates.simps [simp del]

subsection \<open>Datagrams\<close>

text \<open>The set loops of \<open>parseV9\<close> and \<open>parseIPFIX\<close> differ in the limit, the number of the
  template set and the flag; the options-template sets are skipped like every other number.\<close>

function sets_loop ::
    "u8 list \<Rightarrow> nat \<Rightarrow> nat \<Rightarrow> bool \<Rightarrow> string \<Rightarrow> nat \<Rightarrow> time \<Rightarrow> nat \<Rightarrow> TemplateCache \<Rightarrow> Flow list
      \<Rightarrow> (Flow list \<times> TemplateCache) option" where
  "sets_loop b limit tplSet ipfix exporter domain now off tc out =
     (if off + 4 \<le> limit then do {
        setID \<leftarrow> u16_at b off;
        setLen \<leftarrow> u16_at b (off + 2);
        if setLen < 4 \<or> off + setLen > limit then Some (out, tc)
        else do {
          body \<leftarrow> slice_of b (off + 4) (off + setLen);
          (fs, tc') \<leftarrow>
            (if setID = tplSet then do { tc' \<leftarrow> parseTemplates body exporter domain ipfix 0 tc; Some ([], tc') }
             else if setID > 255 then decodeData body exporter domain setID now tc
             else Some ([], tc));
          sets_loop b limit tplSet ipfix exporter domain now (off + setLen) tc' (out @ fs) } }
      else Some (out, tc))"
  by pat_completeness auto
termination
  by (relation "measure (\<lambda>(_, limit, _, _, _, _, _, off, _, _). limit - off)") auto

declare sets_loop.simps [simp del]

definition parseV9 ::
    "u8 list \<Rightarrow> string \<Rightarrow> time \<Rightarrow> TemplateCache option \<Rightarrow> (Flow list \<times> TemplateCache option) option" where
  "parseV9 b exporter now tc =
     (case tc of
        None \<Rightarrow> Some ([], None)
      | Some c \<Rightarrow>
          if length b < 20 then Some ([], tc)
          else do {
            domain \<leftarrow> u32_at b 16;
            (fs, c') \<leftarrow> sets_loop b (length b) 0 False exporter domain now 20 c [];
            Some (fs, Some c') })"

definition parseIPFIX ::
    "u8 list \<Rightarrow> string \<Rightarrow> time \<Rightarrow> TemplateCache option \<Rightarrow> (Flow list \<times> TemplateCache option) option" where
  "parseIPFIX b exporter now tc =
     (case tc of
        None \<Rightarrow> Some ([], None)
      | Some c \<Rightarrow>
          if length b < 16 then Some ([], tc)
          else do {
            total \<leftarrow> u16_at b 2;
            domain \<leftarrow> u32_at b 12;
            (fs, c') \<leftarrow> sets_loop b (min total (length b)) 2 True exporter domain now 16 c [];
            Some (fs, Some c') })"

definition unix_epoch0 :: time where
  "unix_epoch0 = 62135596800 * second"

definition v5_record :: "u8 list \<Rightarrow> string \<Rightarrow> time \<Rightarrow> Flow option" where
  "v5_record r exporter boot = do {
     first \<leftarrow> u32_at r 24;
     lst \<leftarrow> u32_at r 28;
     src \<leftarrow> slice_of r 0 4;
     dst \<leftarrow> slice_of r 4 8;
     pkts \<leftarrow> u32_at r 16;
     octets \<leftarrow> u32_at r 20;
     sport \<leftarrow> u16_at r 32;
     dport \<leftarrow> u16_at r 34;
     proto \<leftarrow> index_of r 38;
     Some \<lparr>flExporter = exporter, flSrcIP = AddrString (V4 src), flDstIP = AddrString (V4 dst),
       flSrcPort = int sport, flDstPort = int dport, flProto = proto, flBytes = int octets,
       flPackets = int pkts, flStart = Add boot (int first * millisecond),
       flEnd = Add boot (int lst * millisecond)\<rparr> }"

text \<open>The record loop of \<open>parseV5\<close>, from record \<open>i\<close> with \<open>n\<close> announced records to go.\<close>

fun v5_loop :: "u8 list \<Rightarrow> string \<Rightarrow> time \<Rightarrow> nat \<Rightarrow> nat \<Rightarrow> Flow list option" where
  "v5_loop b exporter boot i 0 = Some []"
| "v5_loop b exporter boot i (Suc n) =
     (let off = 24 + i * 48
      in if off + 48 > length b then Some []
         else do {
           r \<leftarrow> slice_of b off (off + 48);
           f \<leftarrow> v5_record r exporter boot;
           fs \<leftarrow> v5_loop b exporter boot (i + 1) n;
           Some (f # fs) })"

definition parseV5 :: "u8 list \<Rightarrow> string \<Rightarrow> time \<Rightarrow> Flow list option" where
  "parseV5 b exporter now =
     (if length b < 24 then Some []
      else do {
        count \<leftarrow> u16_at b 2;
        uptime \<leftarrow> u32_at b 4;
        secs \<leftarrow> u32_at b 8;
        let base = (if secs = 0 then now else unix_epoch0 + int secs * second) in
        v5_loop b exporter (Add base (- (int uptime * millisecond))) 0 count })"

definition ParseDatagram ::
    "u8 list \<Rightarrow> string \<Rightarrow> time \<Rightarrow> TemplateCache option \<Rightarrow> (Flow list \<times> TemplateCache option) option" where
  "ParseDatagram b exporter now tc =
     (if length b < 2 then Some ([], tc)
      else do {
        version \<leftarrow> u16_at b 0;
        if version = 5 then do { fs \<leftarrow> parseV5 b exporter now; Some (fs, tc) }
        else if version = 9 then parseV9 b exporter now tc
        else if version = 10 then parseIPFIX b exporter now tc
        else Some ([], tc) })"

subsection \<open>The UDP source (netflow/source.go)\<close>

definition netflow_IsPrivate :: "string \<Rightarrow> bool" where
  "netflow_IsPrivate ip =
     (case ParseAddr ip of
        None \<Rightarrow> False
      | Some a \<Rightarrow> IsPrivate a \<or> IsLoopback a \<or> IsLinkLocalUnicast a)"

text \<open>\<open>wall\<close> is the wall clock read when the flow carries no end time.\<close>

definition FlowEvent :: "time \<Rightarrow> Flow \<Rightarrow> string \<Rightarrow> Event" where
  "FlowEvent wall f sourceID =
     (let srcPriv = netflow_IsPrivate (flSrcIP f);
          dstPriv = netflow_IsPrivate (flDstIP f);
          host = (if srcPriv then flSrcIP f else if dstPriv then flDstIP f else flExporter f);
          out = (if srcPriv \<and> \<not> dstPriv then flBytes f else 0);
          ts = (if IsZero (flEnd f) then wall else flEnd f)
      in zero_event\<lparr>evTimestamp := ts, evSource := SourceNetflow, evSourceID := sourceID, evHost := host,
           evApp := ''netflow'', evSeverity := - 1,
           evMessage := ''flow '' @ flSrcIP f @ '':'' @ itoa (flSrcPort f) @ '' -> '' @ flDstIP f @ '':'' @
             itoa (flDstPort f) @ '' proto '' @ itoa (uint (flProto f)) @ '' bytes '' @ itoa (flBytes f),
           evSrcIP := flSrcIP f, evDstIP := flDstIP f, evDstPort := flDstPort f, evBytesOut := out,
           evAction := ''flow'',
           evRaw := ''netflow '' @ flExporter f @ '' '' @ flSrcIP f @ '':'' @ itoa (flSrcPort f) @ ''>'' @
             flDstIP f @ '':'' @ itoa (flDstPort f) @ '' p'' @ itoa (uint (flProto f)) @ '' b'' @ itoa (flBytes f),
           evParsed := True\<rparr>)"

text \<open>The body of the receive loop of \<open>UDPSource.Run\<close> for one datagram: the flows handed to
  \<open>OnFlow\<close> and the events emitted, in order. The receive loop is in theory \<open>Listeners\<close>.\<close>

definition UDPSource_datagram ::
    "string \<Rightarrow> u8 list \<Rightarrow> string \<Rightarrow> time \<Rightarrow> time \<Rightarrow> TemplateCache \<Rightarrow> ((Flow \<times> Event) list \<times> TemplateCache) option" where
  "UDPSource_datagram sourceID buf from now wall tc = do {
     let exporter = (case SplitHostPort from of None \<Rightarrow> from | Some (h, _) \<Rightarrow> h);
     (fs, tc') \<leftarrow> ParseDatagram buf exporter now (Some tc);
     Some (map (\<lambda>f. (f, FlowEvent wall f sourceID)) fs, the tc') }"

end
