(* ===== verification/Netflow_Laws.thy ===== *)
theory Netflow_Laws
  imports Netflow Detectors
begin

text \<open>
  What the datagram parser and the flow source promise: no input makes the parser panic or loop,
  version 5 records are read back exactly, templates are remembered per exporter and the cache
  stays bounded, and the event made of a flow reports egress only for traffic that leaves the
  network.
\<close>

subsection \<open>No panic\<close>

lemma slice_of_Some: "i \<le> j \<Longrightarrow> j \<le> length b \<Longrightarrow> slice_of b i j = Some (take (j - i) (drop i b))"
  by (simp add: slice_of_def)

lemma u16_at_Some: "i + 2 \<le> length b \<Longrightarrow> u16_at b i = Some (be_nat (take 2 (drop i b)))"
  by (simp add: u16_at_def slice_of_def)

lemma u32_at_Some: "i + 4 \<le> length b \<Longrightarrow> u32_at b i = Some (be_nat (take 4 (drop i b)))"
  by (simp add: u32_at_def slice_of_def)

lemma index_of_Some: "i < length b \<Longrightarrow> index_of b i = Some (b ! i)"
  by (simp add: index_of_def)

lemmas at_Some = slice_of_Some u16_at_Some u32_at_Some index_of_Some

lemma slice_of_length: "slice_of b i j = Some v \<Longrightarrow> length v = j - i"
  by (auto simp: slice_of_def split: if_splits)

lemma rec_len_fixed: "rec_len tpl n = (m, False) \<Longrightarrow> m = n + sum_list (map tfLen tpl)"
  by (induction tpl n rule: rec_len.induct) (auto split: if_splits)

lemma fixed_fields_total: "off + sum_list (map tfLen tpl) \<le> length r \<Longrightarrow> \<exists>f'. fixed_fields r tpl off f = Some f'"
  by (induction r tpl off f rule: fixed_fields.induct) (auto simp: slice_of_Some)

lemma field_len_total: "\<exists>lo. field_len r tf off = Some lo"
  by (auto simp: field_len_def index_of_Some u16_at_Some)

lemma var_fields_total: "\<exists>res. var_fields r tpl off f = Some res"
proof (induction tpl arbitrary: off f)
  case (Cons tf tpl)
  obtain lo where lo: "field_len r tf off = Some lo" using field_len_total by blast
  show ?case
  proof (cases lo)
    case (Some p)
    obtain l o' where p: "p = (l, o')" by fastforce
    show ?thesis
      using Cons.IH by (cases "o' + l > length r") (simp_all add: lo Some p slice_of_Some)
  qed (simp add: lo)
qed simp

lemma decodeRecordVar_total: "\<exists>f n. decodeRecordVar r tpl exporter now = Some (f, n)"
  using var_fields_total [of r tpl 0 "empty_flow exporter now"]
  by (auto simp: decodeRecordVar_def split: option.split)

lemma records_loop_total:
  "off \<le> length b \<Longrightarrow> (\<not> varlen \<longrightarrow> recLen = sum_list (map tfLen tpl)) \<Longrightarrow>
     \<exists>fs. records_loop b tpl recLen varlen exporter now off out = Some fs"
proof (induction b tpl recLen varlen exporter now off out rule: records_loop.induct)
  case (1 b tpl recLen varlen exporter now off out)
  show ?case
  proof (cases varlen)
    case True
    obtain f n where d: "decodeRecordVar (drop off b) tpl exporter now = Some (f, n)"
      using decodeRecordVar_total by blast
    show ?thesis
      using "1.IH"(1) [OF True, of "drop off b" "(f, n)" f n] "1.prems" True d
      by (subst records_loop.simps) (auto simp: slice_of_Some)
  next
    case False
    show ?thesis
    proof (cases "recLen = 0 \<or> off + recLen > length b")
      case True
      with False show ?thesis by (subst records_loop.simps) auto
    next
      case inb: False
      have "0 + sum_list (map tfLen tpl) \<le> length (take recLen (drop off b))"
        using "1.prems"(2) False inb by (metis add_0 diff_le_mono2 add_le_imp_le_diff add.commute
            le_less_linear length_drop length_take min.absorb2 order_refl)
      from fixed_fields_total [OF this] obtain f0 where
        "fixed_fields (take recLen (drop off b)) tpl 0 (empty_flow exporter now) = Some f0" by blast
      then obtain f where d: "decodeRecordFixed (take recLen (drop off b)) tpl exporter now = Some f"
        unfolding decodeRecordFixed_def by simp
      show ?thesis
        using "1.IH"(2) [OF False inb, of "take recLen (drop off b)" f] "1.prems" False inb d
        by (subst records_loop.simps) (auto simp: slice_of_Some)
    qed
  qed
qed

lemma decodeData_total: "\<exists>fs tc'. decodeData b exporter domain tid now tc = Some (fs, tc')"
proof (cases "tc_get tc exporter domain tid")
  case (Some tpl)
  obtain n v where nv: "rec_len tpl 0 = (n, v)" by fastforce
  then have "\<not> v \<longrightarrow> n = sum_list (map tfLen tpl)" using rec_len_fixed [of tpl 0 n] by auto
  from records_loop_total [OF _ this, of 0 b exporter now "[]"] Some nv show ?thesis
    by (auto simp: decodeData_def)
qed (simp add: decodeData_def)

lemma fields_loop_total: "\<exists>res. fields_loop b ipfix n off acc = Some res"
  by (induction n arbitrary: off acc) (auto simp: u16_at_Some)

lemma parseTemplates_total: "\<exists>tc'. parseTemplates b exporter domain ipfix off tc = Some tc'"
proof (induction b exporter domain ipfix off tc rule: parseTemplates.induct)
  case (1 b exporter domain ipfix off tc)
  show ?case
  proof (cases "off + 4 \<le> length b")
    case True
    let ?tid = "be_nat (take 2 (drop off b))" and ?n = "be_nat (take 2 (drop (off + 2) b))"
    have u: "u16_at b off = Some ?tid" "u16_at b (off + 2) = Some ?n" using True by (simp_all add: u16_at_Some)
    obtain res where res: "fields_loop b ipfix ?n (off + 4) [] = Some res" using fields_loop_total by blast
    show ?thesis
    proof (cases "?tid < 256 \<or> ?n = 0 \<or> ?n > 128")
      case True
      with u \<open>off + 4 \<le> length b\<close> show ?thesis by (subst parseTemplates.simps) auto
    next
      case False
      show ?thesis
        using "1.IH" [OF True, of ?tid ?n res] u False res True
        by (subst parseTemplates.simps) (auto split: option.split)
    qed
  qed (subst parseTemplates.simps, simp)
qed

lemma sets_loop_total:
  "limit \<le> length b \<Longrightarrow> \<exists>fs tc'. sets_loop b limit tplSet ipfix exporter domain now off tc out = Some (fs, tc')"
proof (induction b limit tplSet ipfix exporter domain now off tc out rule: sets_loop.induct)
  case (1 b limit tplSet ipfix exporter domain now off tc out)
  show ?case
  proof (cases "off + 4 \<le> limit")
    case True
    let ?id = "be_nat (take 2 (drop off b))" and ?n = "be_nat (take 2 (drop (off + 2) b))"
    have u: "u16_at b off = Some ?id" "u16_at b (off + 2) = Some ?n"
      using True "1.prems" by (simp_all add: u16_at_Some)
    show ?thesis
    proof (cases "?n < 4 \<or> off + ?n > limit")
      case True
      with u \<open>off + 4 \<le> limit\<close> show ?thesis by (subst sets_loop.simps) auto
    next
      case False
      let ?body = "take (?n - 4) (drop (off + 4) b)"
      have body: "slice_of b (off + 4) (off + ?n) = Some ?body" using False "1.prems" by (simp add: slice_of_Some)
      obtain tc1 where t: "parseTemplates ?body exporter domain ipfix 0 tc = Some tc1"
        using parseTemplates_total by blast
      obtain fs2 tc2 where d: "decodeData ?body exporter domain ?id now tc = Some (fs2, tc2)"
        using decodeData_total by blast
      obtain fs tc' where s: "(if ?id = tplSet then do { tc' \<leftarrow> parseTemplates ?body exporter domain ipfix 0 tc; Some ([], tc') }
           else if ?id > 255 then decodeData ?body exporter domain ?id now tc else Some ([], tc)) = Some (fs, tc')"
        unfolding t d by (cases "?id = tplSet"; cases "?id > 255") simp_all
      show ?thesis
        using "1.IH" [OF True u False body s, of fs tc'] "1.prems"
        unfolding sets_loop.simps [of b limit tplSet ipfix exporter domain now off tc out]
        by (simp only: True u False body s if_True if_False Option.bind_lunit prod.case)
    qed
  qed (subst sets_loop.simps, simp)
qed

lemma v5_record_total: "length r = 48 \<Longrightarrow> \<exists>f. v5_record r exporter boot = Some f"
  by (simp add: v5_record_def at_Some)

lemma v5_loop_total: "\<exists>fs. v5_loop b exporter boot i n = Some fs"
proof (induction n arbitrary: i)
  case (Suc n)
  show ?case
  proof (cases "24 + i * 48 + 48 \<le> length b")
    case True
    have "\<exists>f. v5_record (take 48 (drop (24 + i * 48) b)) exporter boot = Some f"
      using True by (intro v5_record_total) simp
    with True Suc [of "i + 1"] show ?thesis by (auto simp: slice_of_Some Let_def)
  qed simp
qed simp

lemma ParseDatagram_total:
  "\<exists>fs tc'. ParseDatagram b exporter now tc = Some (fs, tc')"
proof -
  have v5: "\<exists>fs. parseV5 b exporter now = Some fs"
    using v5_loop_total by (auto simp: parseV5_def at_Some Let_def)
  have v9: "\<exists>fs tc'. parseV9 b exporter now tc = Some (fs, tc')"
    using sets_loop_total [of "length b" b 0 False exporter "be_nat (take 4 (drop 16 b))" now 20 "the tc" "[]"]
    by (auto simp: parseV9_def at_Some split: option.split)
  have v10: "\<exists>fs tc'. parseIPFIX b exporter now tc = Some (fs, tc')"
    using sets_loop_total [of "min (be_nat (take 2 (drop 2 b))) (length b)" b 2 True exporter "be_nat (take 4 (drop 12 b))" now 16 "the tc" "[]"]
    by (auto simp: parseIPFIX_def at_Some split: option.split)
  show ?thesis using v5 v9 v10 by (auto simp: ParseDatagram_def at_Some)
qed

text \<open>C21. No datagram crashes the flow monitor: for every byte string, exporter, time and template
  cache (nil included) the parser returns; no slice or index expression is out of range and no
  loop runs forever.\<close>

theorem ParseDatagram_no_panic:
  "\<exists>fs tc'. ParseDatagram b exporter now tc = Some (fs, tc')"
  by (rule ParseDatagram_total)

subsection \<open>Version 5 records\<close>

fun be_of :: "nat \<Rightarrow> nat \<Rightarrow> u8 list" where
  "be_of 0 n = []"
| "be_of (Suc k) n = be_of k (n div 256) @ [of_nat (n mod 256)]"

lemma length_be_of [simp]: "length (be_of k n) = k"
  by (induction k arbitrary: n) simp_all

lemma be_nat_be_of: "n < 256 ^ k \<Longrightarrow> be_nat (be_of k n) = n"
proof (induction k arbitrary: n)
  case (Suc k)
  have "unat (of_nat (n mod 256) :: u8) = n mod 256"
    by (simp add: unsigned_of_nat take_bit_eq_mod)
  with Suc show ?case by (simp add: less_mult_imp_div_less mult.commute)
qed simp

record v5 =
  vSrc :: "u8 list"
  vDst :: "u8 list"
  vPkts :: nat
  vOctets :: nat
  vFirst :: nat
  vLast :: nat
  vSport :: nat
  vDport :: nat
  vProto :: u8

definition wf_v5 :: "v5 \<Rightarrow> bool" where
  "wf_v5 r \<longleftrightarrow> length (vSrc r) = 4 \<and> length (vDst r) = 4 \<and> vPkts r < 2 ^ 32 \<and> vOctets r < 2 ^ 32 \<and>
     vFirst r < 2 ^ 32 \<and> vLast r < 2 ^ 32 \<and> vSport r < 2 ^ 16 \<and> vDport r < 2 ^ 16"

text \<open>The wire format of the NetFlow version 5 specification.\<close>

definition enc_v5 :: "v5 \<Rightarrow> u8 list" where
  "enc_v5 r = vSrc r @ vDst r @ replicate 8 0 @ be_of 4 (vPkts r) @ be_of 4 (vOctets r) @ be_of 4 (vFirst r) @
     be_of 4 (vLast r) @ be_of 2 (vSport r) @ be_of 2 (vDport r) @ [0, 0, vProto r] @ replicate 9 0"

definition enc_v5_datagram :: "nat \<Rightarrow> nat \<Rightarrow> v5 list \<Rightarrow> u8 list" where
  "enc_v5_datagram uptime secs rs =
     (be_of 2 5 @ be_of 2 (length rs) @ be_of 4 uptime @ be_of 4 secs @ replicate 12 0) @ concat (map enc_v5 rs)"

definition v5_flow :: "string \<Rightarrow> time \<Rightarrow> v5 \<Rightarrow> Flow" where
  "v5_flow exporter boot r =
     \<lparr>flExporter = exporter, flSrcIP = AddrString (V4 (vSrc r)), flDstIP = AddrString (V4 (vDst r)),
      flSrcPort = int (vSport r), flDstPort = int (vDport r), flProto = vProto r, flBytes = int (vOctets r),
      flPackets = int (vPkts r), flStart = boot + int (vFirst r) * millisecond,
      flEnd = boot + int (vLast r) * millisecond\<rparr>"

lemma length_enc_v5: "wf_v5 r \<Longrightarrow> length (enc_v5 r) = 48"
  by (simp add: wf_v5_def enc_v5_def)

lemma v5_record_enc: "wf_v5 r \<Longrightarrow> v5_record (enc_v5 r) exporter boot = Some (v5_flow exporter boot r)"
  using length_enc_v5 [of r]
  by (simp add: v5_record_def at_Some v5_flow_def Add_def)
    (simp add: enc_v5_def wf_v5_def be_nat_be_of nth_append)

lemma drop_concat_blocks:
  "\<forall>x\<in>set xs. length (f x) = k \<Longrightarrow> drop (i * k) (concat (map f xs)) = concat (map f (drop i xs))"
proof (induction i arbitrary: xs)
  case (Suc i)
  then show ?case by (cases xs) (auto simp: add.commute [of k] simp flip: drop_drop)
qed simp

lemma length_concat_blocks:
  "\<forall>x\<in>set xs. length (f x) = k \<Longrightarrow> length (concat (map f xs)) = length xs * k"
  by (induction xs) auto

lemma v5_loop_enc:
  assumes "\<forall>r\<in>set rs. wf_v5 r" and "length hdr = 24"
  shows "i + n \<le> length rs \<Longrightarrow> v5_loop (hdr @ concat (map enc_v5 rs)) exporter boot i n =
    Some (map (v5_flow exporter boot) (take n (drop i rs)))"
proof (induction n arbitrary: i)
  case (Suc n)
  let ?b = "hdr @ concat (map enc_v5 rs)"
  have blocks: "\<forall>r\<in>set rs. length (enc_v5 r) = 48" using assms(1) length_enc_v5 by blast
  have i: "i < length rs" using Suc.prems by simp
  have len: "length ?b = 24 + length rs * 48"
    using length_concat_blocks [OF blocks] assms(2) by simp
  have d: "drop (24 + i * 48) ?b = concat (map enc_v5 (drop i rs))"
    using drop_concat_blocks [OF blocks, of i] assms(2) by simp
  have "take 48 (concat (map enc_v5 (drop i rs))) = enc_v5 (rs ! i)"
    using i blocks by (simp add: Cons_nth_drop_Suc [symmetric])
  then have "slice_of ?b (24 + i * 48) (24 + i * 48 + 48) = Some (enc_v5 (rs ! i))"
    using i len d by (simp add: slice_of_Some)
  moreover have "v5_record (enc_v5 (rs ! i)) exporter boot = Some (v5_flow exporter boot (rs ! i))"
    using i assms(1) by (intro v5_record_enc) simp
  moreover have "take (Suc n) (drop i rs) = rs ! i # take n (drop (i + 1) rs)"
    using i by (simp add: Cons_nth_drop_Suc [symmetric])
  ultimately show ?case
    using Suc.IH [of "i + 1"] Suc.prems i len by (simp only: v5_loop.simps Let_def) simp
qed simp

text \<open>C35. Version 5 datagrams are read back exactly: a datagram in the version 5 wire format with
  any number of records (fewer than 65536, every field within its width) yields exactly those
  flows, in order, with times relative to the exporter's boot, and leaves the cache alone.\<close>

theorem v5_roundtrip:
  assumes "\<forall>r\<in>set rs. wf_v5 r" and "length rs < 2 ^ 16" and "uptime < 2 ^ 32" and "secs < 2 ^ 32"
  shows "ParseDatagram (enc_v5_datagram uptime secs rs) exporter now tc =
    Some (map (v5_flow exporter ((if secs = 0 then now else unix_epoch0 + int secs * second) -
        int uptime * millisecond)) rs, tc)"
proof -
  let ?hdr = "be_of 2 5 @ be_of 2 (length rs) @ be_of 4 uptime @ be_of 4 secs @ replicate 12 (0 :: u8)"
  let ?b = "enc_v5_datagram uptime secs rs"
  have len: "24 \<le> length ?b" by (simp add: enc_v5_datagram_def)
  have f: "u16_at ?b 0 = Some 5" "u16_at ?b 2 = Some (length rs)" "u32_at ?b 4 = Some uptime" "u32_at ?b 8 = Some secs"
    using len assms(2-4) by (simp_all add: at_Some) (simp_all add: enc_v5_datagram_def be_nat_be_of)
  have "v5_loop (?hdr @ concat (map enc_v5 rs)) exporter boot 0 (length rs) = Some (map (v5_flow exporter boot) rs)" for boot
    using v5_loop_enc [OF assms(1), of ?hdr 0 "length rs" exporter boot] by simp
  then have loop: "v5_loop ?b exporter boot 0 (length rs) = Some (map (v5_flow exporter boot) rs)" for boot
    by (simp only: enc_v5_datagram_def)
  show ?thesis
    using len by (simp add: ParseDatagram_def parseV5_def f loop Let_def Add_def)
qed

definition ex_v5 :: v5 where
  "ex_v5 = \<lparr>vSrc = [10, 0, 0, 5], vDst = [8, 8, 8, 8], vPkts = 3, vOctets = 4200, vFirst = 10, vLast = 20,
     vSport = 51000, vDport = 443, vProto = 6\<rparr>"

theorem v5_roundtrip_witness:
  "ParseDatagram (enc_v5_datagram 60000 1700000000 [ex_v5]) ''10.0.0.1'' 0 None =
     Some ([v5_flow ''10.0.0.1'' (unix_epoch0 + 1700000000 * second - 60000 * millisecond) ex_v5], None)"
  using v5_roundtrip [of "[ex_v5]" 60000 1700000000 "''10.0.0.1''" 0 None] by (simp add: ex_v5_def wf_v5_def)

subsection \<open>The template cache\<close>

definition tc_bounded :: "TemplateCache \<Rightarrow> bool" where
  "tc_bounded c \<longleftrightarrow> wf_map (tcTpls c) \<and> length (tcTpls c) \<le> 4097"

lemma length_map_put: "length (map_put k v m) \<le> Suc (length m)"
  by (induction k v m rule: map_put.induct) auto

lemma tc_put_bounded: "tc_bounded c \<Longrightarrow> tc_bounded (tc_put c exporter domain tid fs)"
  using length_map_put [of "tpl_key exporter domain tid" fs "tcTpls c"]
  by (auto simp: tc_bounded_def tc_put_def Let_def)

lemma parseTemplates_bounded:
  "parseTemplates b exporter domain ipfix off tc = Some tc' \<Longrightarrow> tc_bounded tc \<Longrightarrow> tc_bounded tc'"
proof (induction b exporter domain ipfix off tc rule: parseTemplates.induct)
  case (1 b exporter domain ipfix off tc)
  from "1.prems" show ?case
    by (subst (asm) parseTemplates.simps)
      (auto simp: bind_eq_Some_conv split: if_splits option.splits prod.splits
        dest!: "1.IH" intro: tc_put_bounded)
qed

lemma decodeData_bounded:
  "decodeData b exporter domain tid now tc = Some (fs, tc') \<Longrightarrow> tc_bounded tc \<Longrightarrow> tc_bounded tc'"
  by (auto simp: decodeData_def tc_bounded_def bind_eq_Some_conv split: option.splits prod.splits)

lemma sets_loop_bounded:
  "sets_loop b limit tplSet ipfix exporter domain now off tc out = Some (fs, tc') \<Longrightarrow> tc_bounded tc \<Longrightarrow> tc_bounded tc'"
proof (induction b limit tplSet ipfix exporter domain now off tc out rule: sets_loop.induct)
  case (1 b limit tplSet ipfix exporter domain now off tc out)
  show ?case
  proof (cases "\<exists>n. off + 4 \<le> limit \<and> u16_at b (off + 2) = Some n \<and> \<not> (n < 4 \<or> off + n > limit)")
    case False
    with "1.prems" show ?thesis
      by (subst (asm) sets_loop.simps) (auto simp: bind_eq_Some_conv split: if_splits)
  next
    case True
    then obtain n where n: "off + 4 \<le> limit" "u16_at b (off + 2) = Some n" "\<not> (n < 4 \<or> off + n > limit)" by blast
    from "1.prems"(1) n obtain sid body fs1 tc1 where
      s: "u16_at b off = Some sid" "slice_of b (off + 4) (off + n) = Some body"
      "(if sid = tplSet then do { tc' \<leftarrow> parseTemplates body exporter domain ipfix 0 tc; Some ([], tc') }
           else if sid > 255 then decodeData body exporter domain sid now tc else Some ([], tc)) = Some (fs1, tc1)"
      "sets_loop b limit tplSet ipfix exporter domain now (off + n) tc1 (out @ fs1) = Some (fs, tc')"
      by (subst (asm) sets_loop.simps) (simp only: if_True if_False n Option.bind_lunit bind_eq_Some_conv, auto)
    have "tc_bounded tc1"
      using s(3) "1.prems"(2) parseTemplates_bounded decodeData_bounded
      by (auto simp: bind_eq_Some_conv split: if_splits)
    with "1.IH" [OF n(1) s(1) n(2,3) s(2,3) _ s(4)] show ?thesis by simp
  qed
qed

text \<open>A sequence of datagrams from anywhere, through one cache.\<close>

fun feed :: "TemplateCache \<Rightarrow> (u8 list \<times> string \<times> time) list \<Rightarrow> (Flow list \<times> TemplateCache) option" where
  "feed tc [] = Some ([], tc)"
| "feed tc ((b, exporter, now) # ds) = do {
     (fs, tc') \<leftarrow> ParseDatagram b exporter now (Some tc);
     (fs', tc'') \<leftarrow> feed (the tc') ds;
     Some (fs @ fs', tc'') }"

lemma ParseDatagram_bounded:
  "ParseDatagram b exporter now (Some tc) = Some (fs, tc') \<Longrightarrow> tc_bounded tc \<Longrightarrow> \<exists>c. tc' = Some c \<and> tc_bounded c"
  by (auto simp: ParseDatagram_def parseV9_def parseIPFIX_def bind_eq_Some_conv
      dest!: sets_loop_bounded split: if_splits)

text \<open>A hostile exporter cannot grow the template cache: whatever datagrams arrive, from
  whatever exporters, the cache never holds more than 4097 templates, one per key.\<close>

theorem template_cache_bounded:
  "\<exists>fs tc. feed NewTemplateCache ds = Some (fs, tc) \<and> distinct (map fst (tcTpls tc)) \<and> length (tcTpls tc) \<le> 4097"
proof -
  have "tc_bounded c \<Longrightarrow> \<exists>fs tc. feed c ds = Some (fs, tc) \<and> tc_bounded tc" for c
  proof (induction c ds rule: feed.induct)
    case (2 c b exporter now ds)
    obtain fs tc' where p: "ParseDatagram b exporter now (Some c) = Some (fs, tc')"
      using ParseDatagram_total by blast
    from ParseDatagram_bounded [OF p "2.prems"] obtain c' where c': "tc' = Some c'" "tc_bounded c'" by blast
    from "2.IH" [OF p refl] c' show ?case by (auto simp: p)
  qed simp
  from this [of NewTemplateCache] show ?thesis
    by (simp add: NewTemplateCache_def tc_bounded_def wf_map_def)
qed

lemma split_last_sep:
  assumes "x @ [c] @ a = y @ [c] @ b" and "c \<notin> set a" and "c \<notin> set b"
  shows "x = y \<and> a = b"
proof -
  have "rev a @ c # rev x = rev b @ c # rev y" using arg_cong [OF assms(1), of rev] by simp
  moreover have "takeWhile (\<lambda>z. z \<noteq> c) (rev a @ c # rev x) = rev a"
    "takeWhile (\<lambda>z. z \<noteq> c) (rev b @ c # rev y) = rev b"
    using assms(2,3) by (subst takeWhile_append2; auto)+
  ultimately show ?thesis using assms(1) by (metis append_same_eq rev_rev_ident)
qed

lemma tpl_key_inj:
  assumes "tpl_key e d t = tpl_key e' d' t'"
  shows "e = e' \<and> d = d' \<and> t = t'"
proof -
  have no: "CHR ''|'' \<notin> set (itoa (int n))" for n
    using digits_of_no_char [of "int n" "CHR ''|''"] by (simp add: itoa_def)
  from split_last_sep [of "e @ ''|'' @ itoa (int d)" "CHR ''|''" "itoa (int t)" "e' @ ''|'' @ itoa (int d')" "itoa (int t')"]
  have "e @ ''|'' @ itoa (int d) = e' @ ''|'' @ itoa (int d') \<and> itoa (int t) = itoa (int t')"
    using assms no by (simp add: tpl_key_def)
  with split_last_sep [of e "CHR ''|''" "itoa (int d)" e' "itoa (int d')"] no show ?thesis
    by (auto dest: itoa_inj)
qed

text \<open>Templates are kept apart: after a template is stored, its exporter, observation domain and
  number give exactly that template, and no other key sees a difference, unless the full cache was
  emptied first.\<close>

theorem template_lookup:
  "tc_get (tc_put c e d t fs) e' d' t' =
     (if (e', d', t') = (e, d, t) then Some fs
      else if length (tcTpls c) > 4096 then None else tc_get c e' d' t')"
  using tpl_key_inj [of e' d' t' e d t]
  by (auto simp: tc_get_def tc_put_def Let_def map_of_map_put)

subsection \<open>Events\<close>

text \<open>Egress is what leaves the network: the event made of a flow counts the flow's bytes when
  its source is internal and its destination is not, and no bytes otherwise; an event that counts
  bytes names the internal sender as its host and is one the beacon detector would look at; and the
  event never has a zero timestamp unless the wall clock reads zero.\<close>

theorem flow_event_egress:
  "evBytesOut (FlowEvent wall f sid) =
     (if isInternalIP (flSrcIP f) \<and> \<not> isInternalIP (flDstIP f) then flBytes f else 0) \<and>
   (evBytesOut (FlowEvent wall f sid) \<noteq> 0 \<longrightarrow> evHost (FlowEvent wall f sid) = flSrcIP f \<and>
      isInternalIP (evSrcIP (FlowEvent wall f sid)) \<and> \<not> isInternalIP (evDstIP (FlowEvent wall f sid))) \<and>
   (evTimestamp (FlowEvent wall f sid) = zero_time \<longrightarrow> wall = zero_time)"
proof -
  have p: "netflow_IsPrivate = isInternalIP"
    by (simp add: fun_eq_iff netflow_IsPrivate_def isInternalIP_def)
  show ?thesis by (simp add: FlowEvent_def Let_def p time_defs zero_event_def)
qed

theorem flow_event_egress_witness:
  "evBytesOut (FlowEvent 5 (v5_flow ''10.0.0.1'' 9 ex_v5) ''nf'') = 4200"
proof -
  have "isInternalIP (string4 [10, 0, 0, 5])" "\<not> isInternalIP (string4 [8, 8, 8, 8])"
    by (simp_all add: isInternalIP_def ParseAddr_string4 IsPrivate_def IsLoopback_def IsLinkLocalUnicast_def Unmap_def)
  then show ?thesis
    using conjunct1 [OF flow_event_egress [of 5 "v5_flow ''10.0.0.1'' 9 ex_v5" "''nf''"]]
    by (simp add: v5_flow_def ex_v5_def AddrString_def)
qed

end
