(* ===== verification/Traffic.thy ===== *)
theory Traffic
  imports Netflow "HOL-Library.Product_Lexorder"
begin

text \<open>
  traffic/graph.go: the flow aggregator behind the network map. The in-memory buffer and the table
  \<^verbatim>\<open>traffic_edges\<close> are association lists keyed by the edge; the table has the semantics of its SQL
  statements (insert or update on the primary key, delete and select by \<^verbatim>\<open>last_at\<close>, whose stored
  form is taken to keep the order of times). Whether a database call fails is a parameter: the
  first error of the transaction, if any. Column sums are exact integers; SQLite leaves integers
  beyond \<open>int64\<close>, which the properties exclude.
\<close>

record edgeKey =
  ekSrc :: string
  ekDst :: string
  ekPort :: int
  ekProto :: u8

record agg =
  agFlows :: int
  agBytes :: int
  agPackets :: int
  agFirst :: time
  agLast :: time

record Graph =
  gDb :: "(edgeKey, agg) gomap"
  gPend :: "(edgeKey, agg) gomap"

definition NewGraph :: "error option \<Rightarrow> (edgeKey, agg) gomap \<Rightarrow> error + Graph" where
  "NewGraph dberr db = (case dberr of Some err \<Rightarrow> Inl err | None \<Rightarrow> Inr \<lparr>gDb = db, gPend = []\<rparr>)"

text \<open>\<^verbatim>\<open>INSERT ... ON CONFLICT DO UPDATE\<close> for one buffered edge; \<^verbatim>\<open>first_at\<close> is kept.\<close>

definition upsert_edge :: "edgeKey \<times> agg \<Rightarrow> (edgeKey, agg) gomap \<Rightarrow> (edgeKey, agg) gomap" where
  "upsert_edge ka db =
     (case ka of (k, a) \<Rightarrow>
        (case map_of db k of
           None \<Rightarrow> map_put k a db
         | Some r \<Rightarrow> map_put k (r\<lparr>agFlows := agFlows r + agFlows a, agBytes := agBytes r + agBytes a,
                                 agPackets := agPackets r + agPackets a, agLast := max (agLast r) (agLast a)\<rparr>) db))"

type_synonym edge_order = "(edgeKey \<times> agg) list \<Rightarrow> (edgeKey \<times> agg) list"

definition Flush :: "edge_order \<Rightarrow> error option \<Rightarrow> Graph \<Rightarrow> error option \<times> Graph" where
  "Flush iter dberr g =
     (let pend = gPend g; g = g\<lparr>gPend := []\<rparr>
      in if pend = [] then (None, g)
         else case dberr of
                Some err \<Rightarrow> (Some err, g)
              | None \<Rightarrow> (None, g\<lparr>gDb := fold upsert_edge (iter pend) (gDb g)\<rparr>))"

definition bump_agg :: "time \<Rightarrow> Flow \<Rightarrow> agg \<Rightarrow> agg" where
  "bump_agg end' f a =
     (let a = a\<lparr>agFlows := wrap64 (agFlows a + 1), agBytes := wrap64 (agBytes a + flBytes f),
                agPackets := wrap64 (agPackets a + flPackets f)\<rparr>;
          a = (if After end' (agLast a) then a\<lparr>agLast := end'\<rparr> else a)
      in if Before end' (agFirst a) then a\<lparr>agFirst := end'\<rparr> else a)"

definition flow_key :: "Flow \<Rightarrow> edgeKey" where
  "flow_key f = \<lparr>ekSrc = flSrcIP f, ekDst = flDstIP f, ekPort = flDstPort f, ekProto = flProto f\<rparr>"

definition Graph_Observe :: "edge_order \<Rightarrow> error option \<Rightarrow> time \<Rightarrow> Graph \<Rightarrow> Flow \<Rightarrow> Graph" where
  "Graph_Observe iter dberr now g f =
     (if flSrcIP f = [] \<or> flDstIP f = [] then g
      else let end' = (if IsZero (flEnd f) then now else flEnd f);
               k = flow_key f
           in case map_of (gPend g) k of
                Some a \<Rightarrow> g\<lparr>gPend := map_put k (bump_agg end' f a) (gPend g)\<rparr>
              | None \<Rightarrow>
                  let g = (if length (gPend g) > 50000 then snd (Flush iter dberr g) else g);
                      a = \<lparr>agFlows = 0, agBytes = 0, agPackets = 0, agFirst = end', agLast = zero_time\<rparr>
                  in g\<lparr>gPend := map_put k (bump_agg end' f a) (gPend g)\<rparr>)"

definition Graph_Prune :: "error option \<Rightarrow> time \<Rightarrow> Graph \<Rightarrow> error option \<times> Graph" where
  "Graph_Prune dberr before g =
     (case dberr of
        Some err \<Rightarrow> (Some err, g)
      | None \<Rightarrow> (None, g\<lparr>gDb := filter (\<lambda>(_, a). \<not> agLast a < before) (gDb g)\<rparr>))"

subsection \<open>Snapshots\<close>

record Node =
  ndID :: string
  ndKind :: string
  ndBytes :: int
  ndFlows :: int
  ndSeverity :: string
  ndMembers :: nat

record Link =
  lkSource :: string
  lkTarget :: string
  lkBytes :: int
  lkFlows :: int
  lkTopPort :: int

record MapData =
  mdNodes :: "Node list"
  mdLinks :: "Link list"
  mdGeneratedAt :: time
  mdWindowFrom :: time
  mdCollapsed :: bool

record rawEdge =
  reSrc :: string
  reDst :: string
  rePort :: int
  reFlows :: int
  reBytes :: int

definition maxExternals :: nat where
  "maxExternals = 150"

definition cidr24 :: "string \<Rightarrow> string" where
  "cidr24 ip =
     (case ParseAddr ip of
        None \<Rightarrow> ip
      | Some (V4 bs) \<Rightarrow> AddrString (V4 (take 3 bs @ [0])) @ ''/24''
      | Some (V6 bs _) \<Rightarrow> AddrString (V6 (take 6 bs @ replicate 10 0) []) @ ''/48'')"

definition node_name :: "bool \<Rightarrow> string \<Rightarrow> string \<times> string" where
  "node_name collapse ip =
     (if netflow_IsPrivate ip then (ip, ''internal'')
      else if collapse then (cidr24 ip, ''group'')
      else (ip, ''external''))"

definition bump_node :: "rawEdge \<Rightarrow> string \<times> string \<Rightarrow> (string, Node) gomap \<Rightarrow> (string, Node) gomap" where
  "bump_node e nk nodes =
     (let n = (case map_of nodes (fst nk) of
                 None \<Rightarrow> \<lparr>ndID = fst nk, ndKind = snd nk, ndBytes = 0, ndFlows = 0, ndSeverity = [], ndMembers = 0\<rparr>
               | Some n \<Rightarrow> n)
      in map_put (fst nk) (n\<lparr>ndBytes := wrap64 (ndBytes n + reBytes e), ndFlows := wrap64 (ndFlows n + reFlows e)\<rparr>) nodes)"

definition addMember :: "string \<Rightarrow> string \<Rightarrow> (string \<rightharpoonup> string list) \<Rightarrow> (string \<rightharpoonup> string list)" where
  "addMember grp ip m =
     (let ips = (case m grp of None \<Rightarrow> [] | Some ips \<Rightarrow> ips)
      in m(grp \<mapsto> (if ip \<in> set ips then ips else ips @ [ip])))"

record snap_state =
  ssNodes :: "(string, Node) gomap"
  ssLinks :: "(string \<times> string, Link) gomap"
  ssPorts :: "string \<times> string \<rightharpoonup> (int, int) gomap"
  ssMembers :: "string \<rightharpoonup> string list"

definition snap_edge :: "bool \<Rightarrow> rawEdge \<Rightarrow> snap_state \<Rightarrow> snap_state" where
  "snap_edge collapse e st =
     (let (sid, skind) = node_name collapse (reSrc e);
          (did, dkind) = node_name collapse (reDst e);
          st = st\<lparr>ssNodes := bump_node e (did, dkind) (bump_node e (sid, skind) (ssNodes st))\<rparr>;
          st = (if skind = ''group'' then st\<lparr>ssMembers := addMember sid (reSrc e) (ssMembers st)\<rparr> else st);
          st = (if dkind = ''group'' then st\<lparr>ssMembers := addMember did (reDst e) (ssMembers st)\<rparr> else st)
      in if sid = did then st
         else let lk = (sid, did);
                  l = (case map_of (ssLinks st) lk of
                         None \<Rightarrow> \<lparr>lkSource = sid, lkTarget = did, lkBytes = 0, lkFlows = 0, lkTopPort = 0\<rparr>
                       | Some l \<Rightarrow> l);
                  ports = (case ssPorts st lk of None \<Rightarrow> [] | Some p \<Rightarrow> p);
                  pb = (case map_of ports (rePort e) of None \<Rightarrow> 0 | Some b \<Rightarrow> b)
              in st\<lparr>ssLinks := map_put lk (l\<lparr>lkBytes := wrap64 (lkBytes l + reBytes e), lkFlows := wrap64 (lkFlows l + reFlows e)\<rparr>) (ssLinks st),
                    ssPorts := (ssPorts st)(lk \<mapsto> map_put (rePort e) (wrap64 (pb + reBytes e)) ports)\<rparr>)"

definition top_port :: "(int, int) gomap \<Rightarrow> int" where
  "top_port ports = fst (foldl (\<lambda>(p, b) (p', b'). if b' > b then (p', b') else (p, b)) (0, - 1) ports)"

definition finish_node :: "(string \<Rightarrow> string) option \<Rightarrow> (string \<rightharpoonup> string list) \<Rightarrow> Node \<Rightarrow> Node" where
  "finish_node severityOf members n =
     (let n = (case severityOf of
                 Some f \<Rightarrow> if ndKind n \<noteq> ''group'' then n\<lparr>ndSeverity := f (ndID n)\<rparr> else n
               | None \<Rightarrow> n)
      in case members (ndID n) of None \<Rightarrow> n | Some m \<Rightarrow> n\<lparr>ndMembers := length m\<rparr>)"

text \<open>The iteration orders of the maps ranged over and the row order of the query.\<close>

record snap_orders =
  soPend :: edge_order
  soRows :: edge_order
  soPorts :: "(int \<times> int) list \<Rightarrow> (int \<times> int) list"

definition raw_of :: "edgeKey \<times> agg \<Rightarrow> rawEdge" where
  "raw_of ka = (case ka of (k, a) \<Rightarrow>
     \<lparr>reSrc = ekSrc k, reDst = ekDst k, rePort = ekPort k, reFlows = agFlows a, reBytes = agBytes a\<rparr>)"

definition externals_of :: "rawEdge list \<Rightarrow> string list" where
  "externals_of es = remdups (filter (\<lambda>ip. \<not> netflow_IsPrivate ip) (concat (map (\<lambda>e. [reSrc e, reDst e]) es)))"

definition build_map :: "((int \<times> int) list \<Rightarrow> (int \<times> int) list) \<Rightarrow> (string \<Rightarrow> string) option \<Rightarrow> time \<Rightarrow> time \<Rightarrow> rawEdge list \<Rightarrow> MapData" where
  "build_map portOrder severityOf now since es =
     (let collapse = length (externals_of es) > maxExternals;
          st = fold (snap_edge collapse) es \<lparr>ssNodes = [], ssLinks = [], ssPorts = Map.empty, ssMembers = Map.empty\<rparr>
      in \<lparr>mdNodes = sort_key ndID (map (finish_node severityOf (ssMembers st)) (map snd (ssNodes st))),
          mdLinks = sort_key (\<lambda>l. (lkSource l, lkTarget l))
            (map (\<lambda>(lk, l). l\<lparr>lkTopPort := top_port (portOrder (case ssPorts st lk of None \<Rightarrow> [] | Some p \<Rightarrow> p))\<rparr>) (ssLinks st)),
          mdGeneratedAt = now, mdWindowFrom = since, mdCollapsed = collapse\<rparr>)"

definition Snapshot ::
    "snap_orders \<Rightarrow> error option \<Rightarrow> error option \<Rightarrow> (string \<Rightarrow> string) option \<Rightarrow> time \<Rightarrow> time \<Rightarrow> Graph
      \<Rightarrow> (error + MapData) \<times> Graph" where
  "Snapshot ord flusherr queryerr severityOf now since g =
     (case Flush (soPend ord) flusherr g of
        (Some err, g) \<Rightarrow> (Inl err, g)
      | (None, g) \<Rightarrow>
          (case queryerr of
             Some err \<Rightarrow> (Inl err, g)
           | None \<Rightarrow>
               (Inr (build_map (soPorts ord) severityOf now since
                  (map raw_of (soRows ord (filter (\<lambda>(_, a). \<not> agLast a < since) (gDb g))))), g)))"

subsection \<open>Conservation\<close>

text \<open>What the buffer and the table say together about one edge.\<close>

definition col :: "(agg \<Rightarrow> int) \<Rightarrow> (edgeKey, agg) gomap \<Rightarrow> edgeKey \<Rightarrow> int" where
  "col f m k = (case map_of m k of None \<Rightarrow> 0 | Some a \<Rightarrow> f a)"

datatype gop = GObserve Flow | GFlush

fun run_graph :: "edge_order \<Rightarrow> time \<Rightarrow> Graph \<Rightarrow> gop list \<Rightarrow> Graph" where
  "run_graph iter now g [] = g"
| "run_graph iter now g (GObserve f # ops) = run_graph iter now (Graph_Observe iter None now g f) ops"
| "run_graph iter now g (GFlush # ops) = run_graph iter now (snd (Flush iter None g)) ops"

fun flows_of :: "gop list \<Rightarrow> Flow list" where
  "flows_of [] = []"
| "flows_of (GObserve f # ops) = (if flSrcIP f = [] \<or> flDstIP f = [] then flows_of ops else f # flows_of ops)"
| "flows_of (GFlush # ops) = flows_of ops"

text \<open>A column of the graph and the amount of a flow it sums.\<close>

definition sums :: "(agg \<Rightarrow> int) \<Rightarrow> (Flow \<Rightarrow> int) \<Rightarrow> bool" where
  "sums cl amt \<longleftrightarrow> (cl, amt) \<in> {(agFlows, \<lambda>_. 1), (agBytes, flBytes), (agPackets, flPackets)}"

lemma sums_bump: "sums cl amt \<Longrightarrow> cl (bump_agg e f a) = wrap64 (cl a + amt f)"
  by (auto simp: sums_def bump_agg_def Let_def)

lemma col_upsert:
  assumes "sums cl amt"
  shows "col cl (upsert_edge (k', a) db) k = col cl db k + (if k = k' then cl a else 0)"
  using assms by (auto simp: col_def upsert_edge_def sums_def map_of_map_put split: option.split)

lemma col_fold_upsert:
  assumes "sums cl amt"
  shows "wf_map m \<Longrightarrow> col cl (fold upsert_edge m db) k = col cl db k + col cl m k"
proof (induction m arbitrary: db)
  case (Cons ka m)
  obtain k' a where ka: "ka = (k', a)" by fastforce
  have wf: "wf_map m" and notin: "map_of m k' = None"
    using Cons.prems ka by (auto simp: wf_map_def map_of_eq_None_iff)
  have "col cl m k = 0" if "k = k'" using notin that by (simp add: col_def)
  then show ?case
    using Cons.IH [OF wf, of "upsert_edge ka db"] col_upsert [OF assms, of k' a db k] ka
    by (auto simp: col_def)
qed (simp add: col_def)

lemma wf_iter: "iteration_order iter \<Longrightarrow> wf_map m \<Longrightarrow> wf_map (iter m)"
  by (metis iteration_order_def mset_map mset_eq_imp_distinct_iff wf_map_def)

lemma map_of_iter: "iteration_order iter \<Longrightarrow> wf_map m \<Longrightarrow> map_of (iter m) = map_of m"
  using wf_iter [of iter m] map_of_inject_set [of "iter m" m]
  by (simp add: iteration_order_set wf_map_def)

lemma Flush_ok:
  assumes "iteration_order iter" and "wf_map (gPend g)" and "sums cl amt"
  shows "col cl (gDb (snd (Flush iter None g))) k = col cl (gDb g) k + col cl (gPend g) k"
    and "gPend (snd (Flush iter None g)) = []"
proof -
  have "col cl (iter (gPend g)) k = col cl (gPend g) k"
    using map_of_iter [OF assms(1,2)] by (simp add: col_def)
  then show "col cl (gDb (snd (Flush iter None g))) k = col cl (gDb g) k + col cl (gPend g) k"
    using col_fold_upsert [OF assms(3) wf_iter [OF assms(1,2)], of "gDb g" k]
    by (auto simp: Flush_def Let_def col_def)
  show "gPend (snd (Flush iter None g)) = []" by (simp add: Flush_def Let_def)
qed

text \<open>One observation adds the flow to its edge, flushed or not, as long as nothing overflows.\<close>

lemma Observe_ok:
  fixes now :: time and f :: Flow
  assumes "iteration_order iter" and "wf_map (gPend g)" and "sums cl amt"
    and "flSrcIP f \<noteq> []" and "flDstIP f \<noteq> []"
    and "\<bar>col cl (gPend g) (flow_key f) + amt f\<bar> \<le> maxInt64"
  defines "g' \<equiv> Graph_Observe iter None now g f"
  shows "wf_map (gPend g')"
    and "col cl (gDb g') k + col cl (gPend g') k =
      col cl (gDb g) k + col cl (gPend g) k + (if k = flow_key f then amt f else 0)"
    and "\<bar>col cl (gDb g') k\<bar> + \<bar>col cl (gPend g') k\<bar> \<le>
      \<bar>col cl (gDb g) k\<bar> + \<bar>col cl (gPend g) k\<bar> + (if k = flow_key f then \<bar>amt f\<bar> else 0)"
proof -
  let ?k = "flow_key f"
  define g1 where "g1 = (if map_of (gPend g) ?k = None \<and> length (gPend g) > 50000 then snd (Flush iter None g) else g)"
  have g1: "wf_map (gPend g1)" "col cl (gDb g1) k + col cl (gPend g1) k = col cl (gDb g) k + col cl (gPend g) k"
    "\<bar>col cl (gDb g1) k\<bar> + \<bar>col cl (gPend g1) k\<bar> \<le> \<bar>col cl (gDb g) k\<bar> + \<bar>col cl (gPend g) k\<bar>"
    "col cl (gPend g1) ?k = col cl (gPend g) ?k"
  proof -
    note F = Flush_ok [OF assms(1-3)]
    show "wf_map (gPend g1)" using F(2) assms(2) by (simp add: g1_def)
    show "col cl (gDb g1) k + col cl (gPend g1) k = col cl (gDb g) k + col cl (gPend g) k"
      using F(1) [of k] F(2) by (simp add: g1_def col_def [of cl "[]"])
    show "\<bar>col cl (gDb g1) k\<bar> + \<bar>col cl (gPend g1) k\<bar> \<le> \<bar>col cl (gDb g) k\<bar> + \<bar>col cl (gPend g) k\<bar>"
      using F(1) [of k] F(2) abs_triangle_ineq [of "col cl (gDb g) k" "col cl (gPend g) k"]
      by (simp add: g1_def col_def [of cl "[]"])
    show "col cl (gPend g1) ?k = col cl (gPend g) ?k"
      using F(2) by (simp add: g1_def col_def)
  qed
  have w: "wrap64 (col cl (gPend g) ?k + amt f) = col cl (gPend g) ?k + amt f"
    using assms(6) by (intro wrap64_id) (auto simp: minInt64_def maxInt64_def)
  have "\<exists>a. g' = g1\<lparr>gPend := map_put ?k a (gPend g1)\<rparr> \<and> cl a = wrap64 (col cl (gPend g) ?k + amt f)"
  proof (cases "map_of (gPend g) ?k")
    case None
    let ?a = "\<lparr>agFlows = 0, agBytes = 0, agPackets = 0, agFirst = if IsZero (flEnd f) then now else flEnd f, agLast = zero_time\<rparr>"
    have "cl ?a = 0" using assms(3) by (auto simp: sums_def)
    with None assms(4,5) sums_bump [OF assms(3), of _ f ?a] show ?thesis
      by (auto simp: g'_def g1_def Graph_Observe_def col_def Let_def)
  next
    case (Some a)
    with assms(4,5) sums_bump [OF assms(3), of _ f a] show ?thesis
      by (auto simp: g'_def g1_def Graph_Observe_def col_def Let_def)
  qed
  then obtain a where a: "g' = g1\<lparr>gPend := map_put ?k a (gPend g1)\<rparr>" "cl a = col cl (gPend g1) ?k + amt f"
    using w g1(4) by auto
  then have c: "col cl (gPend g') k = col cl (gPend g1) k + (if k = ?k then amt f else 0)" "gDb g' = gDb g1"
    by (auto simp: col_def map_of_map_put)
  show "wf_map (gPend g')" using a(1) g1(1) by auto
  show "col cl (gDb g') k + col cl (gPend g') k =
      col cl (gDb g) k + col cl (gPend g) k + (if k = ?k then amt f else 0)"
    using c g1(2) by simp
  show "\<bar>col cl (gDb g') k\<bar> + \<bar>col cl (gPend g') k\<bar> \<le>
      \<bar>col cl (gDb g) k\<bar> + \<bar>col cl (gPend g) k\<bar> + (if k = ?k then \<bar>amt f\<bar> else 0)"
    using c g1(3) by auto
qed

lemma run_graph_sums:
  assumes "iteration_order iter" and "sums cl amt"
  shows "wf_map (gPend g) \<Longrightarrow>
     \<forall>k. \<bar>col cl (gDb g) k\<bar> + \<bar>col cl (gPend g) k\<bar> + sum_list (map (\<lambda>f. \<bar>amt f\<bar>) (flows_of ops)) \<le> maxInt64 \<Longrightarrow>
     col cl (gDb (run_graph iter now g ops)) k + col cl (gPend (run_graph iter now g ops)) k =
       col cl (gDb g) k + col cl (gPend g) k + sum_list (map amt (filter (\<lambda>f. flow_key f = k) (flows_of ops)))"
proof (induction ops arbitrary: g rule: flows_of.induct)
  case (2 f ops)
  show ?case
  proof (cases "flSrcIP f = [] \<or> flDstIP f = []")
    case True
    with 2 show ?thesis by (simp add: Graph_Observe_def)
  next
    case False
    let ?g = "Graph_Observe iter None now g f"
    have "0 \<le> sum_list (map (\<lambda>f. \<bar>amt f\<bar>) (flows_of ops))" by (rule sum_list_nonneg) auto
    then have b: "\<bar>col cl (gPend g) (flow_key f) + amt f\<bar> \<le> maxInt64"
      using spec [OF "2.prems"(2), of "flow_key f"] False by simp
    have ips: "flSrcIP f \<noteq> []" "flDstIP f \<noteq> []" using False by auto
    note O = Observe_ok [OF assms(1) "2.prems"(1) assms(2) ips b, of now]
    have "\<forall>k. \<bar>col cl (gDb ?g) k\<bar> + \<bar>col cl (gPend ?g) k\<bar> + sum_list (map (\<lambda>f. \<bar>amt f\<bar>) (flows_of ops)) \<le> maxInt64"
    proof
      fix k
      show "\<bar>col cl (gDb ?g) k\<bar> + \<bar>col cl (gPend ?g) k\<bar> + sum_list (map (\<lambda>f. \<bar>amt f\<bar>) (flows_of ops)) \<le> maxInt64"
      proof -
        have arith: "x \<le> y + a \<Longrightarrow> y + (a + s) \<le> m \<Longrightarrow> x + s \<le> m" for x y a s m :: int by linarith
        have "(if k = flow_key f then \<bar>amt f\<bar> else 0) \<le> \<bar>amt f\<bar>" by simp
        from order_trans [OF O(3) [of k] add_left_mono [OF this]]
        have le: "\<bar>col cl (gDb ?g) k\<bar> + \<bar>col cl (gPend ?g) k\<bar> \<le>
            (\<bar>col cl (gDb g) k\<bar> + \<bar>col cl (gPend g) k\<bar>) + \<bar>amt f\<bar>" .
        show ?thesis by (rule arith [OF le]) (use spec [OF "2.prems"(2), of k] False in simp)
      qed
    qed
    from "2.IH"(2) [OF False O(1) this] O(2) False show ?thesis by simp
  qed
next
  case (3 ops)
  note F = Flush_ok [OF assms(1) "3.prems"(1) assms(2)]
  have "\<bar>col cl (gDb (snd (Flush iter None g))) k\<bar> + \<bar>col cl (gPend (snd (Flush iter None g))) k\<bar> \<le>
      \<bar>col cl (gDb g) k\<bar> + \<bar>col cl (gPend g) k\<bar>" for k
    using F(1) [of k] F(2) by (simp add: col_def [of cl "[]"])
  with "3.prems"(2) have "\<forall>k. \<bar>col cl (gDb (snd (Flush iter None g))) k\<bar> + \<bar>col cl (gPend (snd (Flush iter None g))) k\<bar> +
      sum_list (map (\<lambda>f. \<bar>amt f\<bar>) (flows_of ops)) \<le> maxInt64"
    by (metis (no_types, lifting) add_right_mono flows_of.simps(3) order_trans)
  with "3.IH" F show ?case by (simp add: col_def [of cl "[]"])
qed simp


definition ex_flow :: Flow where
  "ex_flow = \<lparr>flExporter = ''10.0.0.1'', flSrcIP = ''10.0.0.5'', flDstIP = ''8.8.8.8'', flSrcPort = 51000,
     flDstPort = 443, flProto = 6, flBytes = 4200, flPackets = 3, flStart = 10, flEnd = 20\<rparr>"


text \<open>A failed flush does lose flows: the buffer is emptied before the transaction.\<close>

lemma failed_flush_loses_buffer:
  "gPend g \<noteq> [] \<Longrightarrow> Flush iter (Some err) g = (Some err, g\<lparr>gPend := []\<rparr>)"
  by (simp add: Flush_def Let_def)

text \<open>The first sighting of an edge is never corrected by a later flush.\<close>

lemma first_at_not_lowered:
  "map_of db k = Some r \<Longrightarrow> \<exists>r'. map_of (upsert_edge (k, a) db) k = Some r' \<and> agFirst r' = agFirst r"
  by (simp add: upsert_edge_def map_of_map_put)

subsection \<open>The map\<close>

definition src_id :: "bool \<Rightarrow> rawEdge \<Rightarrow> string" where
  "src_id c e = fst (node_name c (reSrc e))"

definition dst_id :: "bool \<Rightarrow> rawEdge \<Rightarrow> string" where
  "dst_id c e = fst (node_name c (reDst e))"

text \<open>The bytes incident to a node, and those of a link.\<close>

definition node_sum :: "bool \<Rightarrow> rawEdge list \<Rightarrow> string \<Rightarrow> int" where
  "node_sum c es x = sum_list (map (\<lambda>e. (if src_id c e = x then reBytes e else 0) + (if dst_id c e = x then reBytes e else 0)) es)"

definition link_sum :: "bool \<Rightarrow> rawEdge list \<Rightarrow> string \<times> string \<Rightarrow> int" where
  "link_sum c es lk = sum_list (map reBytes (filter (\<lambda>e. (src_id c e, dst_id c e) = lk) es))"

definition node_bytes :: "(string, Node) gomap \<Rightarrow> string \<Rightarrow> int" where
  "node_bytes m x = (case map_of m x of None \<Rightarrow> 0 | Some n \<Rightarrow> ndBytes n)"

definition link_bytes :: "(string \<times> string, Link) gomap \<Rightarrow> string \<times> string \<Rightarrow> int" where
  "link_bytes m lk = (case map_of m lk of None \<Rightarrow> 0 | Some l \<Rightarrow> lkBytes l)"

definition snap_inv :: "bool \<Rightarrow> rawEdge list \<Rightarrow> snap_state \<Rightarrow> bool" where
  "snap_inv c es st \<longleftrightarrow>
     wf_map (ssNodes st) \<and> wf_map (ssLinks st) \<and>
     fst ` set (ssNodes st) = src_id c ` set es \<union> dst_id c ` set es \<and>
     (\<forall>(x, n)\<in>set (ssNodes st). ndID n = x) \<and>
     (\<forall>x. node_bytes (ssNodes st) x = wrap64 (node_sum c es x)) \<and>
     (\<forall>(lk, l)\<in>set (ssLinks st). (lkSource l, lkTarget l) = lk \<and> fst lk \<noteq> snd lk) \<and>
     (\<forall>lk. fst lk \<noteq> snd lk \<longrightarrow> link_bytes (ssLinks st) lk = wrap64 (link_sum c es lk))"

lemma set_map_put: "set (map_put k v m) \<subseteq> insert (k, v) (set m)"
  by (induction k v m rule: map_put.induct) auto

lemma bump_node_bytes:
  "node_bytes (bump_node e nk m) x = (if x = fst nk then wrap64 (node_bytes m x + reBytes e) else node_bytes m x)"
  by (auto simp: node_bytes_def bump_node_def map_of_map_put Let_def split: option.split)

lemma bump_node_wf: "wf_map m \<Longrightarrow> wf_map (bump_node e nk m)"
  by (auto simp: bump_node_def Let_def)

lemma bump_node_keys: "fst ` set (bump_node e nk m) = insert (fst nk) (fst ` set m)"
  by (simp add: bump_node_def set_keys_map_put Let_def)

lemma bump_node_ids: "\<forall>(x, n)\<in>set m. ndID n = x \<Longrightarrow> \<forall>(x, n)\<in>set (bump_node e nk m). ndID n = x"
  using set_map_put by (fastforce simp: bump_node_def Let_def dest: map_of_SomeD split: option.splits)

text \<open>The parts of the state one edge leaves behind.\<close>

lemma snap_edge_nodes:
  "ssNodes (snap_edge c e st) =
     bump_node e (node_name c (reDst e)) (bump_node e (node_name c (reSrc e)) (ssNodes st))"
  by (cases "node_name c (reSrc e)"; cases "node_name c (reDst e)") (simp add: snap_edge_def Let_def)

lemma snap_edge_links:
  "ssLinks (snap_edge c e st) =
     (if src_id c e = dst_id c e then ssLinks st
      else let lk = (src_id c e, dst_id c e);
               l = (case map_of (ssLinks st) lk of
                      None \<Rightarrow> \<lparr>lkSource = src_id c e, lkTarget = dst_id c e, lkBytes = 0, lkFlows = 0, lkTopPort = 0\<rparr>
                    | Some l \<Rightarrow> l)
           in map_put lk (l\<lparr>lkBytes := wrap64 (lkBytes l + reBytes e), lkFlows := wrap64 (lkFlows l + reFlows e)\<rparr>) (ssLinks st))"
  by (cases "node_name c (reSrc e)"; cases "node_name c (reDst e)")
    (simp add: snap_edge_def src_id_def dst_id_def Let_def split: option.split)

lemma snap_edge_links_wf: "wf_map (ssLinks st) \<Longrightarrow> wf_map (ssLinks (snap_edge c e st))"
  by (auto simp: snap_edge_links Let_def)

lemma snap_edge_links_ids:
  "\<forall>(lk, l)\<in>set (ssLinks st). (lkSource l, lkTarget l) = lk \<and> fst lk \<noteq> snd lk \<Longrightarrow>
     \<forall>(lk, l)\<in>set (ssLinks (snap_edge c e st)). (lkSource l, lkTarget l) = lk \<and> fst lk \<noteq> snd lk"
  using set_map_put by (fastforce simp: snap_edge_links Let_def dest: map_of_SomeD split: option.splits if_splits)

lemma snap_edge_link_bytes:
  "fst lk \<noteq> snd lk \<Longrightarrow> link_bytes (ssLinks (snap_edge c e st)) lk =
     (if (src_id c e, dst_id c e) = lk then wrap64 (link_bytes (ssLinks st) lk + reBytes e)
      else link_bytes (ssLinks st) lk)"
  by (auto simp: link_bytes_def snap_edge_links map_of_map_put Let_def split: option.split)

lemma node_sum_snoc:
  "node_sum c (es @ [e]) x =
     node_sum c es x + (if x = src_id c e then reBytes e else 0) + (if x = dst_id c e then reBytes e else 0)"
  by (simp add: node_sum_def)

lemma link_sum_snoc:
  "link_sum c (es @ [e]) lk = link_sum c es lk + (if (src_id c e, dst_id c e) = lk then reBytes e else 0)"
  by (simp add: link_sum_def)

lemma snap_fold: "snap_inv c es (fold (snap_edge c) es \<lparr>ssNodes = [], ssLinks = [], ssPorts = Map.empty, ssMembers = Map.empty\<rparr>)"
proof (induction es rule: rev_induct)
  case Nil
  have "wrap64 0 = 0" by (simp add: wrap64_def)
  then show ?case by (simp add: snap_inv_def node_bytes_def link_bytes_def node_sum_def link_sum_def)
next
  case (snoc e es)
  let ?st = "fold (snap_edge c) es \<lparr>ssNodes = [], ssLinks = [], ssPorts = Map.empty, ssMembers = Map.empty\<rparr>"
  let ?st' = "snap_edge c e ?st"
  note I = snoc [unfolded snap_inv_def]
  have nb: "node_bytes (ssNodes ?st) x = wrap64 (node_sum c es x)" for x using I by blast
  have lb: "link_bytes (ssLinks ?st) lk = wrap64 (link_sum c es lk)" if "fst lk \<noteq> snd lk" for lk using I that by blast
  have "wf_map (ssNodes ?st')" "wf_map (ssLinks ?st')"
    using I by (auto simp: snap_edge_nodes intro: bump_node_wf snap_edge_links_wf)
  moreover have "fst ` set (ssNodes ?st') = src_id c ` set (es @ [e]) \<union> dst_id c ` set (es @ [e])"
    using I by (auto simp: snap_edge_nodes bump_node_keys src_id_def dst_id_def)
  moreover have "\<forall>(x, n)\<in>set (ssNodes ?st'). ndID n = x"
    using I unfolding snap_edge_nodes by (intro bump_node_ids) blast
  moreover have "node_bytes (ssNodes ?st') x = wrap64 (node_sum c (es @ [e]) x)" for x
    by (simp add: snap_edge_nodes bump_node_bytes nb node_sum_snoc wrap64_add src_id_def dst_id_def)
  moreover have "\<forall>(lk, l)\<in>set (ssLinks ?st'). (lkSource l, lkTarget l) = lk \<and> fst lk \<noteq> snd lk"
    using I by (intro snap_edge_links_ids) blast
  moreover have "link_bytes (ssLinks ?st') lk = wrap64 (link_sum c (es @ [e]) lk)" if "fst lk \<noteq> snd lk" for lk
    using that by (simp add: snap_edge_link_bytes lb link_sum_snoc wrap64_add)
  ultimately show ?case unfolding snap_inv_def by simp
qed

lemma finish_node_fields [simp]:
  "ndID (finish_node sv ms n) = ndID n" "ndBytes (finish_node sv ms n) = ndBytes n"
  by (auto simp: finish_node_def Let_def split: option.split)

lemma sort_key_strict:
  assumes "distinct (map f xs)"
  shows "sorted_wrt (<) (map f (sort_key f xs))"
proof -
  have "distinct (map f (sort_key f xs))"
    using assms by (metis mset_map mset_sort mset_eq_imp_distinct_iff)
  then show ?thesis by (simp add: strict_sorted_iff)
qed

lemma node_entry: "wf_map ns \<Longrightarrow> (x, n) \<in> set ns \<Longrightarrow> node_bytes ns x = ndBytes n"
  by (simp add: node_bytes_def in_set_map_of)

lemma link_entry: "wf_map ls \<Longrightarrow> (lk, l) \<in> set ls \<Longrightarrow> link_bytes ls lk = lkBytes l"
  by (simp add: link_bytes_def in_set_map_of)


definition ex_edges :: "rawEdge list" where
  "ex_edges = [\<lparr>reSrc = ''10.0.0.5'', reDst = ''8.8.8.8'', rePort = 443, reFlows = 1, reBytes = 100\<rparr>,
     \<lparr>reSrc = ''8.8.8.8'', reDst = ''10.0.0.5'', rePort = 53, reFlows = 2, reBytes = 250\<rparr>]"

lemma ex_edges_private: "netflow_IsPrivate ''10.0.0.5'' = True" "netflow_IsPrivate ''8.8.8.8'' = False"
  by code_simp+


end
