(* ===== verification/License.thy ===== *)
theory License
  imports Go_Base
begin

text \<open>
  license/license.go: signed license keys and what a tier allows. Base64 (\<^verbatim>\<open>RawURLEncoding\<close>) is
  modelled bit by bit; Ed25519, the JSON encoding of a license, the layout of a date and the
  calendar step of \<^verbatim>\<open>AddDate\<close> are arguments.
\<close>

subsection \<open>Base64\<close>

definition b64_alphabet :: string where
  "b64_alphabet = ''ABCDEFGHIJKLMNOPQRSTUVWXYZabcdefghijklmnopqrstuvwxyz0123456789-_''"

definition b64_char :: "nat \<Rightarrow> char" where
  "b64_char n = b64_alphabet ! n"

definition b64_val :: "char \<Rightarrow> nat option" where
  "b64_val c = map_of (zip b64_alphabet [0..<64]) c"

text \<open>The 6-bit groups of a byte string; the last one is filled up with zero bits.\<close>

fun b64_digits :: "nat list \<Rightarrow> nat list" where
  "b64_digits [] = []"
| "b64_digits [a] = [a div 4, a mod 4 * 16]"
| "b64_digits [a, b] = [a div 4, a mod 4 * 16 + b div 16, b mod 16 * 4]"
| "b64_digits (a # b # c # bs) = (a div 4) # (a mod 4 * 16 + b div 16) # (b mod 16 * 4 + c div 64) # (c mod 64) # b64_digits bs"

definition EncodeBase64 :: "string \<Rightarrow> string" where
  "EncodeBase64 s = map b64_char (b64_digits (map of_char s))"

text \<open>Decoding: the bits left over in the last group are ignored; a single left-over symbol is an
  error, as is any byte outside the alphabet except carriage returns and line feeds.\<close>

fun b64_bytes :: "nat list \<Rightarrow> nat list option" where
  "b64_bytes [] = Some []"
| "b64_bytes [a] = None"
| "b64_bytes [a, b] = Some [a * 4 + b div 16]"
| "b64_bytes [a, b, c] = Some [a * 4 + b div 16, b mod 16 * 16 + c div 4]"
| "b64_bytes (a # b # c # d # ds) =
     map_option (\<lambda>bs. (a * 4 + b div 16) # (b mod 16 * 16 + c div 4) # (c mod 4 * 64 + d) # bs) (b64_bytes ds)"

definition DecodeBase64 :: "string \<Rightarrow> string option" where
  "DecodeBase64 s =
     (case those (map b64_val (filter (\<lambda>c. c \<noteq> CHR 0x0A \<and> c \<noteq> CHR 0x0D) s)) of
        None \<Rightarrow> None
      | Some ds \<Rightarrow> map_option (map char_of) (b64_bytes ds))"

subsection \<open>Tiers\<close>

type_synonym Tier = string

definition TierFree :: Tier where "TierFree = ''free''"
definition TierPro :: Tier where "TierPro = ''pro''"
definition TierTeam :: Tier where "TierTeam = ''team''"

record Limits =
  lmMaxTargets :: int
  lmRetentionDays :: int
  lmChannels :: "string list"
  lmMultiUser :: bool
  lmCustomInterval :: bool
  lmScanNow :: bool

definition free_limits :: Limits where
  "free_limits = \<lparr>lmMaxTargets = 10, lmRetentionDays = 7, lmChannels = [''webhook''],
     lmMultiUser = False, lmCustomInterval = False, lmScanNow = False\<rparr>"

definition TierLimits :: "Tier \<rightharpoonup> Limits" where
  "TierLimits =
     [TierFree \<mapsto> free_limits,
      TierPro \<mapsto> \<lparr>lmMaxTargets = 100, lmRetentionDays = 365,
        lmChannels = [''webhook'', ''email'', ''slack'', ''telegram''],
        lmMultiUser = False, lmCustomInterval = True, lmScanNow = True\<rparr>,
      TierTeam \<mapsto> \<lparr>lmMaxTargets = 0, lmRetentionDays = 0,
        lmChannels = [''webhook'', ''email'', ''slack'', ''telegram'', ''pagerduty'', ''teams''],
        lmMultiUser = True, lmCustomInterval = True, lmScanNow = True\<rparr>]"

definition limitsFor :: "Tier \<Rightarrow> Limits" where
  "limitsFor t = (case TierLimits t of Some l \<Rightarrow> l | None \<Rightarrow> the (TierLimits TierFree))"

record License =
  lcProduct :: string
  lcTier :: Tier
  lcEmail :: string
  lcIssuedAt :: time
  lcExpiresAt :: time
  lcKeyID :: string

definition zero_license :: License where
  "zero_license = \<lparr>lcProduct = [], lcTier = [], lcEmail = [], lcIssuedAt = zero_time, lcExpiresAt = zero_time, lcKeyID = []\<rparr>"

datatype lic_error = ErrMalformed | ErrBadSignature | ErrWrongProduct string | ErrExpired

definition key_prefix :: string where
  "key_prefix = ''SNTL1-''"

subsection \<open>Signing and verifying\<close>

text \<open>The cryptography and the JSON codec a key goes through.\<close>

record ('pub, 'priv) crypto =
  cyKeyLen :: "'pub \<Rightarrow> nat"
  cySign :: "'priv \<Rightarrow> string \<Rightarrow> string"
  cyVerify :: "'pub \<Rightarrow> string \<Rightarrow> string \<Rightarrow> bool"
  cyMarshal :: "License \<Rightarrow> error + string"
  cyUnmarshal :: "string \<Rightarrow> error + License"

definition Sign :: "('pub, 'priv) crypto \<Rightarrow> 'priv \<Rightarrow> License \<Rightarrow> error + string" where
  "Sign cy priv lic =
     (if lcProduct lic = [] \<or> lcTier lic = [] then Inl (Errorf ''license needs product and tier'')
      else case cyMarshal cy lic of
             Inl err \<Rightarrow> Inl err
           | Inr payload \<Rightarrow> Inr (key_prefix @ EncodeBase64 payload @ ''.'' @ EncodeBase64 (cySign cy priv payload)))"

definition split_dot :: "string \<Rightarrow> (string \<times> string) option" where
  "split_dot s = (let a = takeWhile (\<lambda>c. c \<noteq> CHR ''.'') s
     in if length a < length s then Some (a, drop (Suc (length a)) s) else None)"

definition Verify :: "('pub, 'priv) crypto \<Rightarrow> 'pub \<Rightarrow> string \<Rightarrow> string \<Rightarrow> time \<Rightarrow> License \<times> lic_error option" where
  "Verify cy pub product key now =
     (if \<not> HasPrefix key key_prefix then (zero_license, Some ErrMalformed)
      else let k = TrimSpace key;
               body = (if HasPrefix k key_prefix then drop (length key_prefix) k else k)
           in case split_dot body of
                None \<Rightarrow> (zero_license, Some ErrMalformed)
              | Some (p, s) \<Rightarrow>
                  (case DecodeBase64 p of
                     None \<Rightarrow> (zero_license, Some ErrMalformed)
                   | Some payload \<Rightarrow>
                       (case DecodeBase64 s of
                          None \<Rightarrow> (zero_license, Some ErrMalformed)
                        | Some sig \<Rightarrow>
                            if cyKeyLen cy pub \<noteq> 32 then (zero_license, Some ErrBadSignature)
                            else if \<not> cyVerify cy pub payload sig then (zero_license, Some ErrBadSignature)
                            else case cyUnmarshal cy payload of
                                   Inl _ \<Rightarrow> (zero_license, Some ErrMalformed)
                                 | Inr lic \<Rightarrow>
                                     if lcProduct lic \<noteq> product then (zero_license, Some (ErrWrongProduct (lcProduct lic)))
                                     else if After now (lcExpiresAt lic) then (lic, Some ErrExpired)
                                     else (lic, None))))"

record Activation =
  acTier :: Tier
  acLimits :: Limits
  acLicense :: "License option"
  acNotice :: string

definition free_activation :: "string \<Rightarrow> Activation" where
  "free_activation notice = \<lparr>acTier = TierFree, acLimits = the (TierLimits TierFree), acLicense = None, acNotice = notice\<rparr>"

definition lic_dash :: string where "lic_dash = [CHR 0xE2, CHR 0x80, CHR 0x94]"

definition Activate ::
    "('pub, 'priv) crypto \<Rightarrow> (time \<Rightarrow> string) \<Rightarrow> 'pub \<Rightarrow> string \<Rightarrow> string \<Rightarrow> time \<Rightarrow> Activation" where
  "Activate cy fmtDate pub product key now =
     (if cyKeyLen cy pub \<noteq> 32 then
        free_activation (if TrimSpace key \<noteq> []
          then ''This is the free edition, which cannot activate license keys. Download the licensed build to use your key '' @
            lic_dash @ '' your key is fine.'' else [])
      else if TrimSpace key = [] then free_activation []
      else case Verify cy pub product key now of
             (lic, None) \<Rightarrow> \<lparr>acTier = lcTier lic, acLimits = limitsFor (lcTier lic), acLicense = Some lic, acNotice = []\<rparr>
           | (lic, Some ErrExpired) \<Rightarrow>
               free_activation (''License expired on '' @ fmtDate (lcExpiresAt lic) @ '' '' @ lic_dash @
                 '' running on free limits. Renew to restore your tier.'')
           | (lic, Some _) \<Rightarrow>
               free_activation (''License key is not valid for this product '' @ lic_dash @ '' running on free limits.''))"

definition CanAddTarget :: "Activation \<Rightarrow> int \<Rightarrow> bool" where
  "CanAddTarget a current \<longleftrightarrow> lmMaxTargets (acLimits a) = 0 \<or> current < lmMaxTargets (acLimits a)"

definition AllowsChannel :: "Activation \<Rightarrow> string \<Rightarrow> bool" where
  "AllowsChannel a nm \<longleftrightarrow> list_ex (\<lambda>c. c = nm) (lmChannels (acLimits a))"

definition RetentionCutoff :: "(time \<Rightarrow> int \<Rightarrow> time) \<Rightarrow> Activation \<Rightarrow> time \<Rightarrow> time" where
  "RetentionCutoff addDays a now =
     (if lmRetentionDays (acLimits a) = 0 then zero_time else addDays now (- lmRetentionDays (acLimits a)))"

subsection \<open>Base64 round trip\<close>

lemma b64_val_char_all: "\<forall>n\<in>set [0..<64]. b64_val (b64_char n) = Some n"
  by code_simp

lemma b64_val_char: "n < 64 \<Longrightarrow> b64_val (b64_char n) = Some n"
  using b64_val_char_all by auto

lemma b64_digits_less: "\<forall>b\<in>set bs. b < 256 \<Longrightarrow> d \<in> set (b64_digits bs) \<Longrightarrow> d < 64"
proof (induction bs rule: b64_digits.induct)
  case (4 a b c bs)
  have "a div 4 < 64" "b div 16 < 16" "c div 64 < 4" using "4.prems"(1) by (auto simp: div_less_iff_less_mult)
  moreover have "a mod 4 < 4" "b mod 16 < 16" "c mod 64 < 64" by simp_all
  ultimately have "a div 4 < 64" "a mod 4 * 16 + b div 16 < 64" "b mod 16 * 4 + c div 64 < 64" "c mod 64 < 64" by linarith+
  with 4 show ?case by auto
next
  case (3 a b)
  have "a div 4 < 64" "b div 16 < 16" using "3.prems"(1) by (auto simp: div_less_iff_less_mult)
  moreover have "a mod 4 < 4" "b mod 16 < 16" by simp_all
  ultimately have "a div 4 < 64" "a mod 4 * 16 + b div 16 < 64" "b mod 16 * 4 < 64" by linarith+
  with 3 show ?case by auto
next
  case (2 a)
  have "a div 4 < 64" "a mod 4 * 16 < 64" using "2.prems"(1) by (auto simp: div_less_iff_less_mult)
  with 2 show ?case by auto
qed simp

lemma b64_bytes_digits: "\<forall>b\<in>set bs. b < 256 \<Longrightarrow> b64_bytes (b64_digits bs) = Some bs"
proof (induction bs rule: b64_digits.induct)
  case (4 a b c bs)
  have "a div 4 * 4 + (a mod 4 * 16 + b div 16) div 16 = a" "(a mod 4 * 16 + b div 16) mod 16 * 16 + (b mod 16 * 4 + c div 64) div 4 = b"
    "(b mod 16 * 4 + c div 64) mod 4 * 64 + c mod 64 = c"
  proof -
    have "b div 16 < 16" "c div 64 < 4" using "4.prems" by (auto simp: div_less_iff_less_mult)
    then have "(a mod 4 * 16 + b div 16) div 16 = a mod 4" "(a mod 4 * 16 + b div 16) mod 16 = b div 16"
      "(b mod 16 * 4 + c div 64) div 4 = b mod 16" "(b mod 16 * 4 + c div 64) mod 4 = c div 64" by simp_all
    then show "a div 4 * 4 + (a mod 4 * 16 + b div 16) div 16 = a" "(a mod 4 * 16 + b div 16) mod 16 * 16 + (b mod 16 * 4 + c div 64) div 4 = b"
      "(b mod 16 * 4 + c div 64) mod 4 * 64 + c mod 64 = c" by simp_all
  qed
  with 4 show ?case by simp
next
  case (3 a b)
  have "b div 16 < 16" using "3.prems" by (auto simp: div_less_iff_less_mult)
  then have "(a mod 4 * 16 + b div 16) div 16 = a mod 4" "(a mod 4 * 16 + b div 16) mod 16 = b div 16" by simp_all
  then show ?case by simp
qed simp_all

lemma those_map_Some: "(\<And>x. x \<in> set xs \<Longrightarrow> f x = Some (g x)) \<Longrightarrow> those (map f xs) = Some (map g xs)"
  by (induction xs) auto

lemma b64_chars_plain_all: "\<forall>n\<in>set [0..<64]. b64_char n \<notin> {CHR 0x0A, CHR 0x0D, CHR ''.''} \<and> 32 < (of_char (b64_char n) :: nat) \<and> (of_char (b64_char n) :: nat) < 128"
  by code_simp

lemma EncodeBase64_chars:
  assumes "c \<in> set (EncodeBase64 s)"
  shows "c \<notin> {CHR 0x0A, CHR 0x0D, CHR ''.''} \<and> 32 < (of_char c :: nat) \<and> (of_char c :: nat) < 128"
proof -
  obtain n where "c = b64_char n" "n \<in> set (b64_digits (map of_char s))" using assms by (auto simp: EncodeBase64_def)
  moreover have "n < 64" by (rule b64_digits_less [OF _ calculation(2)]) auto
  ultimately show ?thesis using b64_chars_plain_all by simp
qed

lemma Decode_Encode: "DecodeBase64 (EncodeBase64 s) = Some s"
proof -
  let ?ds = "b64_digits (map of_char s) :: nat list"
  have lt: "\<forall>b\<in>set (map of_char s). (b :: nat) < 256" by auto
  have "filter (\<lambda>c. c \<noteq> CHR 0x0A \<and> c \<noteq> CHR 0x0D) (EncodeBase64 s) = EncodeBase64 s"
    using EncodeBase64_chars by (intro filter_True) auto
  moreover have "those (map b64_val (EncodeBase64 s)) = Some ?ds"
    using those_map_Some [of ?ds "\<lambda>n. b64_val (b64_char n)" "\<lambda>n. n"] b64_val_char b64_digits_less [OF lt]
    by (simp add: EncodeBase64_def comp_def)
  ultimately show ?thesis using b64_bytes_digits [OF lt] by (simp add: DecodeBase64_def comp_def)
qed

subsection \<open>Keys\<close>

lemma space_seqs_ends:
  "\<forall>p\<in>set space_seqs. p \<noteq> [] \<and> ((of_char (hd p) :: nat) \<le> 32 \<or> 128 \<le> (of_char (hd p) :: nat)) \<and>
     ((of_char (last p) :: nat) \<le> 32 \<or> 128 \<le> (of_char (last p) :: nat))"
  by code_simp

lemma strip_seqs_id: "\<forall>p\<in>set ps. p \<noteq> [] \<and> hd p \<noteq> hd s \<Longrightarrow> strip_seqs ps n s = s"
proof (cases n)
  case (Suc m)
  assume "\<forall>p\<in>set ps. p \<noteq> [] \<and> hd p \<noteq> hd s"
  moreover have "HasPrefix s p \<Longrightarrow> p \<noteq> [] \<Longrightarrow> hd p = hd s" for p
    by (cases p; cases s) (auto simp: HasPrefix_def)
  ultimately have "find (HasPrefix s) ps = None" by (auto simp: find_None_iff)
  then show ?thesis using Suc by simp
qed simp

lemma TrimSpace_compact:
  assumes "s \<noteq> []" and "32 < (of_char (hd s) :: nat)" and "(of_char (hd s) :: nat) < 128"
    and "32 < (of_char (last s) :: nat)" and "(of_char (last s) :: nat) < 128"
  shows "TrimSpace s = s"
proof -
  have "p \<noteq> [] \<and> hd p \<noteq> hd s \<and> last p \<noteq> last s" if "p \<in> set space_seqs" for p
    using bspec [OF space_seqs_ends that] assms(2-5) by auto
  then have "\<forall>p\<in>set space_seqs. p \<noteq> [] \<and> hd p \<noteq> hd s" "\<forall>p\<in>set (map rev space_seqs). p \<noteq> [] \<and> hd p \<noteq> hd (rev s)"
    using assms(1) by (auto simp: hd_rev)
  then show ?thesis by (simp add: TrimSpace_def TrimLeftSpace_def TrimRightSpace_def strip_seqs_id)
qed

lemma split_dot_append: "CHR ''.'' \<notin> set a \<Longrightarrow> split_dot (a @ CHR ''.'' # b) = Some (a, b)"
proof -
  assume "CHR ''.'' \<notin> set a"
  then have "takeWhile (\<lambda>c. c \<noteq> CHR ''.'') (a @ CHR ''.'' # b) = a" by (subst takeWhile_append2) auto
  then show ?thesis by (simp add: split_dot_def Let_def)
qed

lemma key_trimmed:
  "TrimSpace (key_prefix @ EncodeBase64 p @ CHR ''.'' # EncodeBase64 q) = key_prefix @ EncodeBase64 p @ CHR ''.'' # EncodeBase64 q"
proof -
  have ok: "32 < (of_char c :: nat) \<and> (of_char c :: nat) < 128" if "c = CHR ''.'' \<or> c \<in> set (EncodeBase64 q)" for c
    using that EncodeBase64_chars [of c q] by auto
  define k where "k = key_prefix @ EncodeBase64 p @ CHR ''.'' # EncodeBase64 q"
  have "last k = CHR ''.'' \<or> last k \<in> set (EncodeBase64 q)"
    unfolding k_def by (cases "EncodeBase64 q = []") simp_all
  from ok [OF this] have l: "32 < (of_char (last k) :: nat)" "(of_char (last k) :: nat) < 128" by auto
  have h: "k \<noteq> []" "hd k = CHR ''S''" by (simp_all add: k_def key_prefix_def)
  have "TrimSpace k = k" by (rule TrimSpace_compact) (use h l in simp_all)
  then show ?thesis by (simp only: k_def)
qed

lemma Verify_signed:
  assumes "Sign cy priv lic = Inr key" and "cyKeyLen cy pub = 32"
    and "\<forall>m. cyVerify cy pub m (cySign cy priv m)"
    and "\<forall>l p. cyMarshal cy l = Inr p \<longrightarrow> cyUnmarshal cy p = Inr l"
  shows "Verify cy pub product key now =
     (if product \<noteq> lcProduct lic then (zero_license, Some (ErrWrongProduct (lcProduct lic)))
      else (lic, if After now (lcExpiresAt lic) then Some ErrExpired else None))" and "TrimSpace key \<noteq> []"
proof -
  obtain payload where p: "cyMarshal cy lic = Inr payload"
    "key = key_prefix @ EncodeBase64 payload @ CHR ''.'' # EncodeBase64 (cySign cy priv payload)"
    using assms(1) by (auto simp: Sign_def split: if_splits sum.splits)
  have "CHR ''.'' \<notin> set (EncodeBase64 payload)" using EncodeBase64_chars by blast
  then show "Verify cy pub product key now =
     (if product \<noteq> lcProduct lic then (zero_license, Some (ErrWrongProduct (lcProduct lic)))
      else (lic, if After now (lcExpiresAt lic) then Some ErrExpired else None))"
    using assms(2-4) p by (auto simp: Verify_def Let_def key_trimmed split_dot_append Decode_Encode)
  show "TrimSpace key \<noteq> []" using p(2) key_trimmed [of payload "cySign cy priv payload"] by (simp add: key_prefix_def)
qed


text \<open>A toy signature scheme for the witness: the signature of a message is the message, and a
  license is coded by its product and tier.\<close>

definition ex_crypto :: "(unit, unit) crypto" where
  "ex_crypto = \<lparr>cyKeyLen = (\<lambda>_. 32), cySign = (\<lambda>_ m. m), cyVerify = (\<lambda>_ m s. s = m),
     cyMarshal = (\<lambda>l. if l = zero_license\<lparr>lcProduct := ''loglight'', lcTier := ''pro'', lcExpiresAt := 50\<rparr> then Inr ''p'' else Inl (Errorf [])),
     cyUnmarshal = (\<lambda>s. if s = ''p'' then Inr (zero_license\<lparr>lcProduct := ''loglight'', lcTier := ''pro'', lcExpiresAt := 50\<rparr>) else Inl (Errorf []))\<rparr>"


text \<open>C39. Licensing never bricks the product and never gives more than was signed: whatever the key
  bytes, the public key and the time, the product runs with at least the free tier's targets,
  retention and webhook; and it runs on another tier only with a correctly signed, unexpired
  license for this very product, of exactly that tier.\<close>

theorem activation_safe:
  "(let a = Activate cy fmt pub product key now in
     (0 \<le> n \<and> n < 10 \<longrightarrow> CanAddTarget a n) \<and> AllowsChannel a ''webhook'' \<and>
     (lmRetentionDays (acLimits a) = 0 \<or> 7 \<le> lmRetentionDays (acLimits a)) \<and>
     (acTier a \<noteq> TierFree \<or> acLimits a \<noteq> the (TierLimits TierFree) \<longrightarrow>
        (\<exists>payload sig lic. cyKeyLen cy pub = 32 \<and> cyVerify cy pub payload sig \<and> cyUnmarshal cy payload = Inr lic \<and>
           lcProduct lic = product \<and> now \<le> lcExpiresAt lic \<and> acTier a = lcTier lic \<and>
           acLimits a = limitsFor (lcTier lic) \<and> acLicense a = Some lic)))"
proof -
  have V: "\<exists>payload sig. cyVerify cy pub payload sig \<and> cyUnmarshal cy payload = Inr lic \<and> lcProduct lic = product \<and> now \<le> lcExpiresAt lic"
    if "Verify cy pub product key now = (lic, None)" for lic
    using that by (auto simp: Verify_def Let_def After_def split: if_splits option.splits sum.splits) blast+
  have L: "''webhook'' \<in> set (lmChannels (limitsFor t)) \<and>
      (lmRetentionDays (limitsFor t) = 0 \<or> 7 \<le> lmRetentionDays (limitsFor t)) \<and>
      (lmMaxTargets (limitsFor t) = 0 \<or> 10 \<le> lmMaxTargets (limitsFor t))" for t
    by (auto simp: limitsFor_def TierLimits_def TierFree_def TierPro_def TierTeam_def free_limits_def)
  have free: "the (TierLimits TierFree) = limitsFor TierFree" by (simp add: limitsFor_def TierLimits_def)
  define a where "a = Activate cy fmt pub product key now"
  have "\<exists>t. acLimits a = limitsFor t"
    by (auto simp: a_def Activate_def free_activation_def free split: if_splits prod.splits option.splits lic_error.splits)
  then obtain t where t: "acLimits a = limitsFor t" by blast
  have T: "\<exists>payload sig lic. cyKeyLen cy pub = 32 \<and> cyVerify cy pub payload sig \<and> cyUnmarshal cy payload = Inr lic \<and>
           lcProduct lic = product \<and> now \<le> lcExpiresAt lic \<and> acTier a = lcTier lic \<and>
           acLimits a = limitsFor (lcTier lic) \<and> acLicense a = Some lic"
    if "acTier a \<noteq> TierFree \<or> acLimits a \<noteq> the (TierLimits TierFree)"
    using that V by (auto simp: a_def Activate_def free_activation_def split: if_splits prod.splits option.splits lic_error.splits)
  show ?thesis
    unfolding Let_def a_def [symmetric] using L [of t] T t
    by (auto simp: CanAddTarget_def AllowsChannel_def list_ex_iff)
qed

theorem activation_safe_witness:
  "AllowsChannel (Activate ex_crypto (\<lambda>_. []) () ''loglight'' ''not a key'' 40) ''webhook'' \<and>
   CanAddTarget (Activate ex_crypto (\<lambda>_. []) () ''loglight'' ''not a key'' 40) 9"
  using activation_safe [of ex_crypto "\<lambda>_. []" "()" "''loglight''" "''not a key''" 40 9] by (simp add: Let_def)

end
