(* ===== verification/Core_Finding.thy ===== *)
theory Core_Finding
  imports Float64 Sha256
begin

text \<open>
  The package \<^verbatim>\<open>core\<close>: severities and their rank, the \<open>Finding\<close> record with its
  collector-owned and core-owned fields, the ingest guard \<open>ValidateForIngest\<close>, the
  fingerprint, and the module and target metadata of the \<open>Collector\<close> contract.
  Severities and statuses are strings in the sources, so unknown values exist in the model too.
  Evidence values (\<^verbatim>\<open>map[string]any\<close>) are the type \<open>any\<close>.
\<close>

subsection \<open>Severity (core/finding.go)\<close>

type_synonym Severity = string

definition SeverityCritical :: Severity where "SeverityCritical = ''critical''"

definition SeverityHigh :: Severity where "SeverityHigh = ''high''"

definition SeverityMedium :: Severity where "SeverityMedium = ''medium''"

definition SeverityLow :: Severity where "SeverityLow = ''low''"

definition SeverityInfo :: Severity where "SeverityInfo = ''info''"

lemmas severity_consts =
  SeverityCritical_def SeverityHigh_def SeverityMedium_def SeverityLow_def SeverityInfo_def

declare severity_consts [go_defs]

definition rank :: "Severity \<Rightarrow> int" where
  "rank s =
     (if s = SeverityCritical then 4
      else if s = SeverityHigh then 3
      else if s = SeverityMedium then 2
      else if s = SeverityLow then 1
      else if s = SeverityInfo then 0
      else -1)"

definition Valid :: "Severity \<Rightarrow> bool" where
  "Valid s \<longleftrightarrow> rank s \<ge> 0"

subsection \<open>Status\<close>

type_synonym FindingStatus = string

definition StatusOpen :: FindingStatus where "StatusOpen = ''open''"

definition StatusResolved :: FindingStatus where "StatusResolved = ''resolved''"

definition StatusAcknowledged :: FindingStatus where "StatusAcknowledged = ''acknowledged''"

definition StatusSuppressed :: FindingStatus where "StatusSuppressed = ''suppressed''"

lemmas status_consts =
  StatusOpen_def StatusResolved_def StatusAcknowledged_def StatusSuppressed_def

lemma status_distinct [simp]:
  "StatusOpen \<noteq> StatusResolved" "StatusResolved \<noteq> StatusOpen"
  "StatusOpen \<noteq> StatusAcknowledged" "StatusAcknowledged \<noteq> StatusOpen"
  "StatusOpen \<noteq> StatusSuppressed" "StatusSuppressed \<noteq> StatusOpen"
  "StatusResolved \<noteq> StatusAcknowledged" "StatusAcknowledged \<noteq> StatusResolved"
  "StatusResolved \<noteq> StatusSuppressed" "StatusSuppressed \<noteq> StatusResolved"
  "StatusAcknowledged \<noteq> StatusSuppressed" "StatusSuppressed \<noteq> StatusAcknowledged"
  by (simp_all add: status_consts)

subsection \<open>Findings\<close>

text \<open>The dynamic values an evidence map holds. \<open>AOther\<close> is a value of any other Go type,
  given by what \<^verbatim>\<open>json.Marshal\<close> followed by \<^verbatim>\<open>json.Unmarshal\<close> makes of it
  (\<open>None\<close> when that fails).\<close>

datatype any =
    ANil
  | ABool bool
  | AInt int
  | AFloat f64
  | AStr string
  | AList "any list"
  | AStrs "string list"
  | AMap "(string \<times> any) list"
  | AOther "any option"

type_synonym evidence = "(string \<times> any) list"

definition MaxEvidenceBytes :: nat where
  "MaxEvidenceBytes = 64 * 1024"

text \<open>\<open>fEvidence\<close> and \<open>fGroupID\<close> and \<open>fResolvedAt\<close> are nilable in the sources: \<open>None\<close> is nil.\<close>

record Finding =
  fFingerprint :: string
  fTarget :: string
  fCheck :: string
  fTitle :: string
  fSeverity :: Severity
  fRemediation :: string
  fEvidence :: "evidence option"
  fID :: string
  fModule :: string
  fStatus :: FindingStatus
  fGroupID :: "string option"
  fFirstSeen :: time
  fLastSeen :: time
  fResolvedAt :: "time option"

definition ValidateForIngest :: "Finding \<Rightarrow> error option" where
  "ValidateForIngest f =
     (if fFingerprint f = '''' then Some (IngestError ''fingerprint'' ''empty'')
      else if fTarget f = '''' then Some (IngestError ''target'' ''empty'')
      else if fCheck f = '''' then Some (IngestError ''check'' ''empty'')
      else if fTitle f = '''' then Some (IngestError ''title'' ''empty'')
      else if fRemediation f = '''' then
        Some (IngestError ''remediation'' ''empty (every finding must tell the user what to do)'')
      else if \<not> Valid (fSeverity f) then
        Some (IngestError ''severity'' (''unknown value: '' @ fSeverity f))
      else None)"

definition IngestErrorString :: "error \<Rightarrow> string" where
  "IngestErrorString e = ''invalid finding: '' @ errField e @ '': '' @ errReason e"

definition Fingerprint :: "string \<Rightarrow> string \<Rightarrow> string \<Rightarrow> string \<Rightarrow> string" where
  "Fingerprint modl target check discriminator =
     EncodeToString (take 16 (Sum256 (bytes_of
       (modl @ ''|'' @ target @ ''|'' @ check @ ''|'' @ discriminator))))"

subsection \<open>Module metadata (core/collector.go)\<close>

record ModuleInfo =
  mID :: string
  mName :: string
  mVersion :: string
  mTargetKind :: string
  mDefaultInterval :: duration
  mResolveAfter :: int

definition ResolveAfterOrDefault :: "ModuleInfo \<Rightarrow> int" where
  "ResolveAfterOrDefault m = (if mResolveAfter m < 1 then 1 else mResolveAfter m)"

record Target =
  tRaw :: string
  tCanonical :: string
  tMeta :: "string \<rightharpoonup> string"

subsection \<open>Laws\<close>

lemma ValidateForIngest_None_iff:
  "ValidateForIngest f = None \<longleftrightarrow>
     fFingerprint f \<noteq> '''' \<and> fTarget f \<noteq> '''' \<and> fCheck f \<noteq> '''' \<and> fTitle f \<noteq> '''' \<and>
     fRemediation f \<noteq> '''' \<and> Valid (fSeverity f)"
  by (simp add: ValidateForIngest_def)

lemma Valid_iff:
  "Valid s \<longleftrightarrow> s \<in> {SeverityCritical, SeverityHigh, SeverityMedium, SeverityLow, SeverityInfo}"
  by (auto simp: Valid_def rank_def)

lemma ResolveAfterOrDefault_ge_1 [simp]: "1 \<le> ResolveAfterOrDefault m"
  by (simp add: ResolveAfterOrDefault_def)

lemma length_Fingerprint [simp]: "length (Fingerprint m t c d) = 32"
  by (simp add: Fingerprint_def)

lemma Fingerprint_nonempty [simp]: "Fingerprint m t c d \<noteq> []"
  by (metis length_Fingerprint list.size(3) zero_neq_numeral)

text \<open>The rank orders the known severities strictly and puts every unknown one below them.\<close>

lemma rank_order:
  "rank SeverityCritical > rank SeverityHigh" "rank SeverityHigh > rank SeverityMedium"
  "rank SeverityMedium > rank SeverityLow" "rank SeverityLow > rank SeverityInfo"
  "\<not> Valid s \<Longrightarrow> rank s < rank SeverityInfo"
  by (simp_all add: rank_def severity_consts Valid_def)

lemma rank_inj_on_valid: "Valid s \<Longrightarrow> Valid t \<Longrightarrow> rank s = rank t \<Longrightarrow> s = t"
  by (auto simp: Valid_iff rank_def severity_consts)

end
