(* ===== verification/Finding_Store.thy ===== *)
theory Finding_Store
  imports Core_Finding
begin

text \<open>
  The package \<^verbatim>\<open>store\<close> without the reconcile engine: the persisted \<open>Record\<close>, the
  \<open>Store\<close> interface (a record of operations, as a Go interface value is), the in-memory
  implementation \<open>MemStore\<close> of store/memory.go and the saved-target lists. The SQL implementation is in
  theory \<open>Sqlite_Store\<close>.

  The locale \<open>finding_store\<close> is the contract the reconcile engine relies on; it is stated over
  an abstraction \<open>look\<close> from (module, fingerprint) to the stored record and says what a call
  that returned without an error did. Both implementations are interpreted.
\<close>

subsection \<open>Records and the interface (store/store.go)\<close>

text \<open>Go embeds \<open>core.Finding\<close> in \<open>Record\<close>: record extension.\<close>

record Record = Finding +
  rAbsentStreak :: int

abbreviation finding_of :: "Record \<Rightarrow> Finding" where
  "finding_of r \<equiv> Finding.truncate r"

record 's Store =
  opListByTarget :: "'s \<Rightarrow> string \<Rightarrow> string \<Rightarrow> error + Record list"
  opUpsert :: "'s \<Rightarrow> Record \<Rightarrow> error option \<times> 's"
  opGet :: "'s \<Rightarrow> string \<Rightarrow> string \<Rightarrow> error + Record option"
  opListOpen :: "'s \<Rightarrow> string \<Rightarrow> error + Record list"
  opListAll :: "'s \<Rightarrow> string \<Rightarrow> error + Record list"

text \<open>The fields an update in place may not change: SQL's \<^verbatim>\<open>ON CONFLICT DO UPDATE\<close> leaves
  them alone, and the reconcile engine carries them over from the previous record.\<close>

definition same_identity :: "Record \<Rightarrow> Record \<Rightarrow> bool" where
  "same_identity old r \<longleftrightarrow>
     fID r = fID old \<and> fTarget r = fTarget old \<and> fCheck r = fCheck old \<and>
     fFirstSeen r = fFirstSeen old"

locale finding_store =
  fixes ops :: "'s Store"
    and invar :: "'s \<Rightarrow> bool"
    and okmod :: "string \<Rightarrow> bool"
    and look :: "'s \<Rightarrow> string \<Rightarrow> string \<Rightarrow> Record option"
    and canon :: "evidence option \<Rightarrow> evidence option"
  assumes look_key:
      "invar s \<Longrightarrow> okmod m \<Longrightarrow> look s m fp = Some r \<Longrightarrow> fModule r = m \<and> fFingerprint r = fp"
    and list_by_target:
      "invar s \<Longrightarrow> okmod m \<Longrightarrow> opListByTarget ops s m t = Inr rs \<Longrightarrow>
         distinct (map fFingerprint rs) \<and>
         (\<forall>r. r \<in> set rs \<longleftrightarrow> look s m (fFingerprint r) = Some r \<and> fTarget r = t)"
    and upsert_invar:
      "invar s \<Longrightarrow> okmod (fModule r) \<Longrightarrow> opUpsert ops s r = (None, s') \<Longrightarrow> invar s'"
    and upsert_other:
      "invar s \<Longrightarrow> okmod m \<Longrightarrow> okmod (fModule r) \<Longrightarrow> opUpsert ops s r = (None, s') \<Longrightarrow>
         (m, fp) \<noteq> (fModule r, fFingerprint r) \<Longrightarrow> look s' m fp = look s m fp"
    and upsert_same:
      "invar s \<Longrightarrow> okmod (fModule r) \<Longrightarrow> opUpsert ops s r = (None, s') \<Longrightarrow>
         (\<forall>old. look s (fModule r) (fFingerprint r) = Some old \<longrightarrow> same_identity old r) \<Longrightarrow>
         look s' (fModule r) (fFingerprint r) = Some (r\<lparr>fEvidence := canon (fEvidence r)\<rparr>)"

subsection \<open>The in-memory store (store/memory.go)\<close>

record memTarget =
  mtRaw :: string
  mtCanonical :: string

record MemStore =
  recs :: "(string, Record) gomap"
  targets :: "string \<rightharpoonup> memTarget list"

definition NewMemStore :: MemStore where
  "NewMemStore = \<lparr>recs = [], targets = Map.empty\<rparr>"

definition key :: "string \<Rightarrow> string \<Rightarrow> string" where
  "key modl fingerprint = modl @ [CHR 0x00] @ fingerprint"

type_synonym rec_order = "(string \<times> Record) list \<Rightarrow> (string \<times> Record) list"

definition MemStore_ListByTarget ::
    "rec_order \<Rightarrow> MemStore \<Rightarrow> string \<Rightarrow> string \<Rightarrow> error + Record list" where
  "MemStore_ListByTarget iter m modl target =
     Inr (filter (\<lambda>r. fModule r = modl \<and> fTarget r = target) (map snd (iter (recs m))))"

definition MemStore_Upsert :: "MemStore \<Rightarrow> Record \<Rightarrow> error option \<times> MemStore" where
  "MemStore_Upsert m r = (None, m\<lparr>recs := map_put (key (fModule r) (fFingerprint r)) r (recs m)\<rparr>)"

definition MemStore_Get :: "MemStore \<Rightarrow> string \<Rightarrow> string \<Rightarrow> error + Record option" where
  "MemStore_Get m modl fingerprint = Inr (map_of (recs m) (key modl fingerprint))"

definition MemStore_ListOpen :: "rec_order \<Rightarrow> MemStore \<Rightarrow> string \<Rightarrow> error + Record list" where
  "MemStore_ListOpen iter m modl =
     Inr (filter (\<lambda>r. fModule r = modl \<and> fStatus r = ''open'') (map snd (iter (recs m))))"

definition MemStore_ListAll :: "rec_order \<Rightarrow> MemStore \<Rightarrow> string \<Rightarrow> error + Record list" where
  "MemStore_ListAll iter m modl =
     Inr (filter (\<lambda>r. fModule r = modl) (map snd (iter (recs m))))"

definition MemStore_ops :: "rec_order \<Rightarrow> MemStore Store" where
  "MemStore_ops iter =
     \<lparr>opListByTarget = MemStore_ListByTarget iter, opUpsert = MemStore_Upsert,
      opGet = MemStore_Get, opListOpen = MemStore_ListOpen iter, opListAll = MemStore_ListAll iter\<rparr>"

definition SaveTarget :: "MemStore \<Rightarrow> string \<Rightarrow> string \<Rightarrow> string \<Rightarrow> MemStore" where
  "SaveTarget m modl raw canonical =
     (let ts = (case targets m modl of None \<Rightarrow> [] | Some ts \<Rightarrow> ts)
      in if \<exists>t\<in>set ts. mtCanonical t = canonical then m
         else m\<lparr>targets := (targets m)(modl \<mapsto> ts @ [\<lparr>mtRaw = raw, mtCanonical = canonical\<rparr>])\<rparr>)"

definition DeleteTarget :: "MemStore \<Rightarrow> string \<Rightarrow> string \<Rightarrow> MemStore" where
  "DeleteTarget m modl canonical =
     (let ts = (case targets m modl of None \<Rightarrow> [] | Some ts \<Rightarrow> ts)
      in m\<lparr>targets := (targets m)(modl \<mapsto> filter (\<lambda>t. mtCanonical t \<noteq> canonical) ts)\<rparr>)"

definition ListSavedTargets :: "MemStore \<Rightarrow> string \<Rightarrow> string list" where
  "ListSavedTargets m modl =
     map mtRaw (case targets m modl of None \<Rightarrow> [] | Some ts \<Rightarrow> ts)"

subsubsection \<open>The invariant of the in-memory store\<close>

definition nul_free :: "string \<Rightarrow> bool" where
  "nul_free s \<longleftrightarrow> CHR 0x00 \<notin> set s"

definition mem_invar :: "MemStore \<Rightarrow> bool" where
  "mem_invar m \<longleftrightarrow> wf_map (recs m) \<and>
     (\<forall>(k, r)\<in>set (recs m). k = key (fModule r) (fFingerprint r) \<and> nul_free (fModule r))"

definition mem_look :: "MemStore \<Rightarrow> string \<Rightarrow> string \<Rightarrow> Record option" where
  "mem_look m modl fp = map_of (recs m) (key modl fp)"

lemma key_inj:
  "nul_free m \<Longrightarrow> nul_free m' \<Longrightarrow> key m fp = key m' fp' \<longleftrightarrow> m = m' \<and> fp = fp'"
proof (induction m arbitrary: m')
  case Nil
  then show ?case by (cases m') (auto simp: key_def nul_free_def)
next
  case (Cons c m)
  then show ?case by (cases m') (auto simp: key_def nul_free_def)
qed

lemma mem_invar_entry:
  "mem_invar m \<Longrightarrow> map_of (recs m) k = Some r \<Longrightarrow> k = key (fModule r) (fFingerprint r) \<and> nul_free (fModule r)"
  by (auto simp: mem_invar_def dest!: map_of_SomeD)

lemma mem_invar_put:
  assumes "mem_invar m" and "nul_free (fModule r)"
  shows "mem_invar (m\<lparr>recs := map_put (key (fModule r) (fFingerprint r)) r (recs m)\<rparr>)"
proof -
  let ?k = "key (fModule r) (fFingerprint r)"
  have wf: "wf_map (recs m)" using assms by (simp add: mem_invar_def)
  have "\<And>k r'. (k, r') \<in> set (map_put ?k r (recs m)) \<Longrightarrow> (k, r') = (?k, r) \<or> (k, r') \<in> set (recs m)"
    using in_set_map_of [OF wf_map_put [OF wf]] in_set_map_of [OF wf]
    by (simp add: gomap_simps split: if_splits)
  with assms wf show ?thesis
    by (fastforce simp: mem_invar_def)
qed

lemma mem_look_key:
  "mem_invar s \<Longrightarrow> nul_free m \<Longrightarrow> mem_look s m fp = Some r \<Longrightarrow> fModule r = m \<and> fFingerprint r = fp"
  unfolding mem_look_def by (metis key_inj mem_invar_entry)

lemma mem_list_distinct:
  assumes iter: "iteration_order iter" and inv: "mem_invar s"
  shows "distinct (map fFingerprint (filter (\<lambda>r. fModule r = m \<and> Q r) (map snd (iter (recs s)))))"
proof -
  let ?ys = "filter (\<lambda>(k, r). fModule r = m \<and> Q r) (iter (recs s))"
  have "mset (map fst (iter (recs s))) = mset (map fst (recs s))"
    using iter by (simp add: iteration_order_def)
  then have "distinct (map fst (iter (recs s)))"
    using inv by (metis mem_invar_def mset_eq_imp_distinct_iff wf_map_def)
  then have d: "distinct (map fst ?ys)"
    by (rule distinct_map_filter)
  have eq: "map fst ?ys = map (key m) (map (\<lambda>(k, r). fFingerprint r) ?ys)"
    using inv iteration_order_set [OF iter] by (auto simp: mem_invar_def)
  have "distinct (map (\<lambda>(k, r). fFingerprint r) ?ys)"
    using d unfolding eq by (simp only: distinct_map)
  moreover have "map fFingerprint (filter (\<lambda>r. fModule r = m \<and> Q r) (map snd (iter (recs s)))) =
      map (\<lambda>(k, r). fFingerprint r) ?ys"
    by (simp add: filter_map comp_def case_prod_unfold)
  ultimately show ?thesis by simp
qed

lemma mem_list_member:
  assumes "iteration_order iter" and "mem_invar s" and "nul_free m"
  shows "r \<in> set (filter (\<lambda>r. fModule r = m \<and> Q r) (map snd (iter (recs s)))) \<longleftrightarrow>
    mem_look s m (fFingerprint r) = Some r \<and> Q r"
proof -
  have "r \<in> snd ` set (recs s) \<longleftrightarrow> (\<exists>k. map_of (recs s) k = Some r)"
    using assms(2) values_of_wf_map [of "recs s"] by (simp add: mem_invar_def)
  moreover have "(\<exists>k. map_of (recs s) k = Some r) \<and> fModule r = m \<longleftrightarrow> mem_look s m (fFingerprint r) = Some r"
    using mem_invar_entry [OF assms(2)] mem_look_key [OF assms(2,3)] by (auto simp: mem_look_def)
  ultimately show ?thesis
    using iteration_order_set [OF assms(1), of "recs s"] by auto
qed

text \<open>The in-memory store keeps the contract, whatever the iteration order.\<close>

lemma MemStore_finding_store:
  assumes "iteration_order iter"
  shows "finding_store (MemStore_ops iter) mem_invar nul_free mem_look (\<lambda>e. e)"
proof (unfold_locales, goal_cases)
  case (1 s m fp r)
  then show ?case by (rule mem_look_key)
next
  case (2 s m t rs)
  then have "rs = filter (\<lambda>r. fModule r = m \<and> fTarget r = t) (map snd (iter (recs s)))"
    by (simp add: MemStore_ops_def MemStore_ListByTarget_def)
  then show ?case
    using mem_list_distinct [OF assms 2(1), of m "\<lambda>r. fTarget r = t"]
      mem_list_member [OF assms 2(1,2), of _ "\<lambda>r. fTarget r = t"] by simp
next
  case (3 s r s')
  then show ?case by (auto simp: MemStore_ops_def MemStore_Upsert_def mem_invar_put)
next
  case (4 s m r s' fp)
  then show ?case
    by (auto simp: MemStore_ops_def MemStore_Upsert_def mem_look_def gomap_simps key_inj)
next
  case (5 s r s')
  then show ?case
    by (auto simp: MemStore_ops_def MemStore_Upsert_def mem_look_def gomap_simps)
qed

interpretation mem: finding_store "MemStore_ops (\<lambda>xs. xs)" mem_invar nul_free mem_look "\<lambda>e. e"
  by (rule MemStore_finding_store) simp

end
