(* ===== verification/Reconcile.thy ===== *)
theory Reconcile
  imports Finding_Store
begin

text \<open>
  The reconcile engine (store/reconcile.go): \<open>Reconcile\<close> upserts the fresh findings of one scan
  by fingerprint, then ages and auto-resolves the ones the scan did not report. The clock value,
  the id generator and \<^verbatim>\<open>json.Marshal\<close> are arguments: \<open>newID n\<close> is the outcome of the
  \<open>n\<close>-th call of the generator, \<open>marshal\<close> gives the serialised evidence or an error.

  The specification is per fingerprint: \<open>refreshed\<close>, \<open>new_record\<close> and \<open>absent\<close> say what one scan
  makes of a stored record. Over the contract \<open>finding_store\<close> the engine implements it
  (\<open>reconcile_lookup\<close> and its companions inside the locale).
\<close>

subsection \<open>Results\<close>

record RejectedFinding =
  rjFinding :: Finding
  rjErr :: error

record ReconcileResult =
  NewlyOpen :: "Finding list"
  Resolved :: "Finding list"
  Rejected :: "RejectedFinding list"

definition no_result :: ReconcileResult where
  "no_result = \<lparr>NewlyOpen = [], Resolved = [], Rejected = []\<rparr>"

subsection \<open>The engine\<close>

definition capEvidence :: "(evidence \<Rightarrow> error + string) \<Rightarrow> Finding \<Rightarrow> Finding" where
  "capEvidence marshal f =
     (case fEvidence f of
        None \<Rightarrow> f
      | Some ev \<Rightarrow>
          (case marshal ev of
             Inl _ \<Rightarrow> f\<lparr>fEvidence := Some [(''_error'', AStr ''evidence not serialisable; dropped'')]\<rparr>
           | Inr b \<Rightarrow>
               if length b > MaxEvidenceBytes then
                 f\<lparr>fEvidence := Some
                    [(''_truncated'', ABool True),
                     (''_original_bytes'', AInt (int (length b))),
                     (''_note'', AStr ''evidence exceeded MaxEvidenceBytes and was dropped'')]\<rparr>
               else f))"

text \<open>The record of a brand-new finding.\<close>

definition new_record :: "string \<Rightarrow> time \<Rightarrow> string \<Rightarrow> Finding \<Rightarrow> Record" where
  "new_record modl now fid f =
     \<lparr>fFingerprint = fFingerprint f, fTarget = fTarget f, fCheck = fCheck f, fTitle = fTitle f,
      fSeverity = fSeverity f, fRemediation = fRemediation f, fEvidence = fEvidence f,
      fID = fid, fModule = modl, fStatus = StatusOpen, fGroupID = fGroupID f,
      fFirstSeen = now, fLastSeen = now, fResolvedAt = fResolvedAt f, rAbsentStreak = 0\<rparr>"

text \<open>A known finding reported again: mutable fields from the scan, reopened if it was resolved.\<close>

definition refreshed :: "time \<Rightarrow> Finding \<Rightarrow> Record \<Rightarrow> Record" where
  "refreshed now f prev =
     (let merged = prev\<lparr>fTitle := fTitle f, fSeverity := fSeverity f,
                        fRemediation := fRemediation f, fEvidence := fEvidence f,
                        fLastSeen := now, rAbsentStreak := 0\<rparr>
      in if fStatus prev = StatusResolved
         then merged\<lparr>fStatus := StatusOpen, fResolvedAt := None\<rparr> else merged)"

record 's engine_state =
  esStore :: 's
  esSeen :: "string list"
  esIDs :: nat
  esRes :: ReconcileResult

text \<open>The body of the first loop: one fresh finding. An error ends the loop.\<close>

definition fresh_step ::
    "'s Store \<Rightarrow> (evidence \<Rightarrow> error + string) \<Rightarrow> (nat \<Rightarrow> error + string) \<Rightarrow> time \<Rightarrow> ModuleInfo
      \<Rightarrow> (string \<rightharpoonup> Record) \<Rightarrow> Finding \<Rightarrow> 's engine_state \<Rightarrow> error option \<times> 's engine_state" where
  "fresh_step ops marshal newID now mi byFP f0 st =
     (case ValidateForIngest f0 of
        Some e \<Rightarrow>
          (None, st\<lparr>esRes := (esRes st)\<lparr>Rejected := Rejected (esRes st) @ [\<lparr>rjFinding = f0, rjErr = e\<rparr>]\<rparr>\<rparr>)
      | None \<Rightarrow>
          let f = capEvidence marshal f0;
              st = st\<lparr>esSeen := fFingerprint f # esSeen st\<rparr>
          in case byFP (fFingerprint f) of
               None \<Rightarrow>
                 (case newID (esIDs st) of
                    Inl e \<Rightarrow> (Some e, st\<lparr>esIDs := Suc (esIDs st)\<rparr>)
                  | Inr fid \<Rightarrow>
                      let rec = new_record (mID mi) now fid f;
                          (err, s') = opUpsert ops (esStore st) rec;
                          st = st\<lparr>esIDs := Suc (esIDs st), esStore := s'\<rparr>
                      in case err of
                           Some e \<Rightarrow> (Some e, st)
                         | None \<Rightarrow>
                             (None, st\<lparr>esRes := (esRes st)\<lparr>NewlyOpen := NewlyOpen (esRes st) @ [finding_of rec]\<rparr>\<rparr>))
             | Some prev \<Rightarrow>
                 let reopened = (fStatus prev = StatusResolved);
                     merged = refreshed now f prev;
                     (err, s') = opUpsert ops (esStore st) merged;
                     st = st\<lparr>esStore := s'\<rparr>
                 in case err of
                      Some e \<Rightarrow> (Some e, st)
                    | None \<Rightarrow>
                        (None,
                         if reopened
                         then st\<lparr>esRes := (esRes st)\<lparr>NewlyOpen := NewlyOpen (esRes st) @ [finding_of merged]\<rparr>\<rparr>
                         else st))"

text \<open>A stored finding the scan did not report: nothing if it is resolved or suppressed, else one
  more absence, resolved once the streak reaches the threshold.\<close>

definition ages :: "Record \<Rightarrow> bool" where
  "ages r \<longleftrightarrow> fStatus r \<noteq> StatusResolved \<and> fStatus r \<noteq> StatusSuppressed"

definition times_out :: "ModuleInfo \<Rightarrow> Record \<Rightarrow> bool" where
  "times_out mi r \<longleftrightarrow> rAbsentStreak r + 1 \<ge> ResolveAfterOrDefault mi"

definition aged :: "ModuleInfo \<Rightarrow> time \<Rightarrow> Record \<Rightarrow> Record" where
  "aged mi now r =
     (let r = r\<lparr>rAbsentStreak := rAbsentStreak r + 1\<rparr>
      in if rAbsentStreak r \<ge> ResolveAfterOrDefault mi
         then r\<lparr>fStatus := StatusResolved, fResolvedAt := Some now\<rparr> else r)"

definition absent_step ::
    "'s Store \<Rightarrow> time \<Rightarrow> ModuleInfo \<Rightarrow> string list \<Rightarrow> Record \<Rightarrow> 's engine_state
      \<Rightarrow> error option \<times> 's engine_state" where
  "absent_step ops now mi seen r st =
     (if fFingerprint r \<in> set seen then (None, st)
      else if \<not> ages r then (None, st)
      else let r' = aged mi now r;
               st = (if times_out mi r
                     then st\<lparr>esRes := (esRes st)\<lparr>Resolved := Resolved (esRes st) @ [finding_of r']\<rparr>\<rparr>
                     else st);
               (err, s') = opUpsert ops (esStore st) r'
           in (err, st\<lparr>esStore := s'\<rparr>))"

definition Reconcile ::
    "'s Store \<Rightarrow> (evidence \<Rightarrow> error + string) \<Rightarrow> (nat \<Rightarrow> error + string) \<Rightarrow> time \<Rightarrow> ModuleInfo
      \<Rightarrow> string \<Rightarrow> Finding list \<Rightarrow> 's \<Rightarrow> ReconcileResult \<times> error option \<times> 's" where
  "Reconcile ops marshal newID now mi target fresh s =
     (case opListByTarget ops s (mID mi) target of
        Inl e \<Rightarrow> (no_result, Some e, s)
      | Inr existing \<Rightarrow>
          let byFP = map_of (map (\<lambda>r. (fFingerprint r, r)) (rev existing));
              (err, st) = for_each (fresh_step ops marshal newID now mi byFP) fresh
                            \<lparr>esStore = s, esSeen = [], esIDs = 0, esRes = no_result\<rparr>
          in case err of
               Some e \<Rightarrow> (esRes st, Some e, esStore st)
             | None \<Rightarrow>
                 let (err, st) = for_each (absent_step ops now mi (esSeen st)) existing st
                 in (esRes st, err, esStore st))"

subsection \<open>Laws of the record updates\<close>

lemma capEvidence_keeps [simp]:
  "fFingerprint (capEvidence marshal f) = fFingerprint f"
  "fTarget (capEvidence marshal f) = fTarget f"
  "fTitle (capEvidence marshal f) = fTitle f"
  "fSeverity (capEvidence marshal f) = fSeverity f"
  "fStatus (capEvidence marshal f) = fStatus f"
  by (simp_all add: capEvidence_def split: option.splits sum.splits)

lemma new_record_simps [simp]:
  "fFingerprint (new_record m now fid f) = fFingerprint f"
  "fModule (new_record m now fid f) = m"
  "fTarget (new_record m now fid f) = fTarget f"
  "fStatus (new_record m now fid f) = StatusOpen"
  "rAbsentStreak (new_record m now fid f) = 0"
  by (simp_all add: new_record_def)

lemma refreshed_simps [simp]:
  "fFingerprint (refreshed now f r) = fFingerprint r"
  "fModule (refreshed now f r) = fModule r"
  "fTarget (refreshed now f r) = fTarget r"
  "fID (refreshed now f r) = fID r"
  "fFirstSeen (refreshed now f r) = fFirstSeen r"
  "rAbsentStreak (refreshed now f r) = 0"
  "fStatus (refreshed now f r) = (if fStatus r = StatusResolved then StatusOpen else fStatus r)"
  by (simp_all add: refreshed_def Let_def)

lemma aged_simps [simp]:
  "fFingerprint (aged mi now r) = fFingerprint r"
  "fModule (aged mi now r) = fModule r"
  "fTarget (aged mi now r) = fTarget r"
  "fID (aged mi now r) = fID r"
  "rAbsentStreak (aged mi now r) = rAbsentStreak r + 1"
  "fStatus (aged mi now r) = (if times_out mi r then StatusResolved else fStatus r)"
  by (simp_all add: aged_def Let_def times_out_def)

lemma same_identity_refreshed [simp]: "same_identity r (refreshed now f r)"
  by (simp add: same_identity_def refreshed_def Let_def)

lemma same_identity_aged [simp]: "same_identity r (aged mi now r)"
  by (simp add: same_identity_def aged_def Let_def)

lemma fTruncate [simp]:
  "fFingerprint (finding_of r) = fFingerprint r" "fStatus (finding_of r) = fStatus r"
  by (simp_all add: Finding.truncate_def)

subsection \<open>The engine over the store contract\<close>

text \<open>What one scan makes of a fingerprint it reported.\<close>

definition scan_result ::
    "(nat \<Rightarrow> error + string) \<Rightarrow> time \<Rightarrow> string \<Rightarrow> Record option \<Rightarrow> Finding \<Rightarrow> Record \<Rightarrow> bool" where
  "scan_result newID now m prev f r \<longleftrightarrow>
     (case prev of
        None \<Rightarrow> \<exists>k fid. newID k = Inr fid \<and> r = new_record m now fid f
      | Some p \<Rightarrow> r = refreshed now f p)"

text \<open>The findings a scan must announce: unknown before, or resolved before.\<close>

definition announced :: "(string \<rightharpoonup> Record) \<Rightarrow> Finding \<Rightarrow> bool" where
  "announced byFP f \<longleftrightarrow> ValidateForIngest f = None \<and>
     (case byFP (fFingerprint f) of None \<Rightarrow> True | Some p \<Rightarrow> fStatus p = StatusResolved)"

definition valid_fps :: "Finding list \<Rightarrow> string list" where
  "valid_fps fs = map fFingerprint (filter (\<lambda>f. ValidateForIngest f = None) fs)"

lemma valid_fps_Cons [simp]:
  "valid_fps (f # fs) = (if ValidateForIngest f = None then fFingerprint f # valid_fps fs else valid_fps fs)"
  "valid_fps [] = []"
  by (simp_all add: valid_fps_def)

lemma fresh_step_results:
  assumes "fresh_step ops marshal newID now mi byFP f st = (None, st')"
  shows "esSeen st' = (if ValidateForIngest f = None then fFingerprint f # esSeen st else esSeen st)"
    and "map fFingerprint (NewlyOpen (esRes st')) =
         map fFingerprint (NewlyOpen (esRes st)) @ (if announced byFP f then
           [case byFP (fFingerprint f) of None \<Rightarrow> fFingerprint f | Some p \<Rightarrow> fFingerprint p] else [])"
    and "Resolved (esRes st') = Resolved (esRes st)"
    and "map rjFinding (Rejected (esRes st')) =
         map rjFinding (Rejected (esRes st)) @ (if ValidateForIngest f = None then [] else [f])"
  using assms
  by (auto simp: fresh_step_def announced_def Let_def split: option.splits sum.splits prod.splits if_splits)

lemma absent_step_results:
  assumes "absent_step ops now mi seen r st = (None, st')"
  shows "NewlyOpen (esRes st') = NewlyOpen (esRes st)"
    and "Rejected (esRes st') = Rejected (esRes st)"
    and "Resolved (esRes st') = Resolved (esRes st) @
          (if fFingerprint r \<notin> set seen \<and> ages r \<and> times_out mi r then [finding_of (aged mi now r)] else [])"
  using assms by (auto simp: absent_step_def Let_def split: prod.splits if_splits)

lemma fresh_loop_results:
  assumes "for_each (fresh_step ops marshal newID now mi byFP) fs st = (None, st')"
    and keyed: "\<And>fp p. byFP fp = Some p \<Longrightarrow> fFingerprint p = fp"
  shows "esSeen st' = rev (valid_fps fs) @ esSeen st"
    and "map fFingerprint (NewlyOpen (esRes st')) =
         map fFingerprint (NewlyOpen (esRes st)) @ map fFingerprint (filter (announced byFP) fs)"
    and "Resolved (esRes st') = Resolved (esRes st)"
    and "map rjFinding (Rejected (esRes st')) =
         map rjFinding (Rejected (esRes st)) @ filter (\<lambda>f. ValidateForIngest f \<noteq> None) fs"
  using assms(1)
proof (induction fs arbitrary: st)
  case (Cons f fs)
  {
    case 1
    then obtain st1 where st1: "fresh_step ops marshal newID now mi byFP f st = (None, st1)"
      "for_each (fresh_step ops marshal newID now mi byFP) fs st1 = (None, st')"
      by (auto simp only: for_each_None_Cons)
    show ?case using Cons(1) [OF st1(2)] fresh_step_results(1) [OF st1(1)] by simp
  next
    case 2
    then obtain st1 where st1: "fresh_step ops marshal newID now mi byFP f st = (None, st1)"
      "for_each (fresh_step ops marshal newID now mi byFP) fs st1 = (None, st')"
      by (auto simp only: for_each_None_Cons)
    show ?case using Cons(2) [OF st1(2)] fresh_step_results(2) [OF st1(1)]
      by (auto dest: keyed split: option.splits)
  next
    case 3
    then obtain st1 where st1: "fresh_step ops marshal newID now mi byFP f st = (None, st1)"
      "for_each (fresh_step ops marshal newID now mi byFP) fs st1 = (None, st')"
      by (auto simp only: for_each_None_Cons)
    show ?case using Cons(3) [OF st1(2)] fresh_step_results(3) [OF st1(1)] by simp
  next
    case 4
    then obtain st1 where st1: "fresh_step ops marshal newID now mi byFP f st = (None, st1)"
      "for_each (fresh_step ops marshal newID now mi byFP) fs st1 = (None, st')"
      by (auto simp only: for_each_None_Cons)
    show ?case using Cons(4) [OF st1(2)] fresh_step_results(4) [OF st1(1)] by simp
  }
qed simp_all

lemma absent_loop_results:
  assumes "for_each (absent_step ops now mi seen) rs st = (None, st')"
  shows "NewlyOpen (esRes st') = NewlyOpen (esRes st)"
    and "Rejected (esRes st') = Rejected (esRes st)"
    and "Resolved (esRes st') = Resolved (esRes st) @ map (\<lambda>r. finding_of (aged mi now r))
          (filter (\<lambda>r. fFingerprint r \<notin> set seen \<and> ages r \<and> times_out mi r) rs)"
proof -
  have "NewlyOpen (esRes st') = NewlyOpen (esRes st) \<and> Rejected (esRes st') = Rejected (esRes st) \<and>
    Resolved (esRes st') = Resolved (esRes st) @ map (\<lambda>r. finding_of (aged mi now r))
          (filter (\<lambda>r. fFingerprint r \<notin> set seen \<and> ages r \<and> times_out mi r) rs)"
    using assms
  proof (induction rs arbitrary: st)
    case (Cons r rs)
    then obtain st1 where "absent_step ops now mi seen r st = (None, st1)"
      "for_each (absent_step ops now mi seen) rs st1 = (None, st')"
      by (auto simp only: for_each_None_Cons)
    with Cons.IH absent_step_results show ?case by fastforce
  qed simp
  then show "NewlyOpen (esRes st') = NewlyOpen (esRes st)"
    and "Rejected (esRes st') = Rejected (esRes st)"
    and "Resolved (esRes st') = Resolved (esRes st) @ map (\<lambda>r. finding_of (aged mi now r))
          (filter (\<lambda>r. fFingerprint r \<notin> set seen \<and> ages r \<and> times_out mi r) rs)"
    by auto
qed

context finding_store
begin

lemma fresh_step_store:
  assumes step: "fresh_step ops marshal newID now mi byFP f st = (None, st')"
    and valid: "ValidateForIngest f = None"
    and inv: "invar (esStore st)" and ok: "okmod (mID mi)"
    and known: "byFP (fFingerprint f) = look (esStore st) (mID mi) (fFingerprint f)"
  shows "invar (esStore st')"
    and "fp \<noteq> fFingerprint f \<Longrightarrow> look (esStore st') (mID mi) fp = look (esStore st) (mID mi) fp"
    and "\<exists>r. scan_result newID now (mID mi) (byFP (fFingerprint f)) (capEvidence marshal f) r \<and>
             look (esStore st') (mID mi) (fFingerprint f) = Some (r\<lparr>fEvidence := canon (fEvidence r)\<rparr>)"
proof -
  let ?m = "mID mi" and ?f = "capEvidence marshal f" and ?fp = "fFingerprint f"
  obtain r where r: "scan_result newID now ?m (byFP ?fp) ?f r"
      "opUpsert ops (esStore st) r = (None, esStore st')" "fModule r = ?m" "fFingerprint r = ?fp"
      "\<forall>old. look (esStore st) ?m ?fp = Some old \<longrightarrow> same_identity old r"
  proof (cases "byFP ?fp")
    case None
    with step valid obtain fid where "newID (esIDs st) = Inr fid"
      and "opUpsert ops (esStore st) (new_record ?m now fid ?f) = (None, esStore st')"
      by (auto simp: fresh_step_def Let_def split: sum.splits prod.splits option.splits)
    with None known show ?thesis
      by (intro that [of "new_record ?m now fid ?f"]) (auto simp: scan_result_def)
  next
    case (Some prev)
    with known look_key [OF inv ok] have prev: "fModule prev = ?m" "fFingerprint prev = ?fp"
      by auto
    from Some step valid have "opUpsert ops (esStore st) (refreshed now ?f prev) = (None, esStore st')"
      by (auto simp: fresh_step_def Let_def split: prod.splits option.splits if_splits)
    with Some known prev show ?thesis
      by (intro that [of "refreshed now ?f prev"]) (auto simp: scan_result_def)
  qed
  show "invar (esStore st')"
    using upsert_invar [OF inv _ r(2)] r(3) ok by simp
  show "look (esStore st') ?m fp = look (esStore st) ?m fp" if "fp \<noteq> ?fp"
    using upsert_other [OF inv ok _ r(2)] r(3,4) ok that by simp
  show "\<exists>r. scan_result newID now ?m (byFP ?fp) ?f r \<and>
      look (esStore st') ?m ?fp = Some (r\<lparr>fEvidence := canon (fEvidence r)\<rparr>)"
    using upsert_same [OF inv _ r(2)] r ok by auto
qed

lemma fresh_loop_store:
  assumes "for_each (fresh_step ops marshal newID now mi byFP) fs st = (None, st')"
    and "invar (esStore st)" and ok: "okmod (mID mi)" and "distinct (valid_fps fs)"
    and "\<And>fp. fp \<in> set (valid_fps fs) \<Longrightarrow> byFP fp = look (esStore st) (mID mi) fp"
  shows "invar (esStore st') \<and>
    (\<forall>fp. fp \<notin> set (valid_fps fs) \<longrightarrow> look (esStore st') (mID mi) fp = look (esStore st) (mID mi) fp) \<and>
    (\<forall>f\<in>set fs. ValidateForIngest f = None \<longrightarrow>
      (\<exists>r. scan_result newID now (mID mi) (byFP (fFingerprint f)) (capEvidence marshal f) r \<and>
           look (esStore st') (mID mi) (fFingerprint f) = Some (r\<lparr>fEvidence := canon (fEvidence r)\<rparr>)))"
  using assms
proof (induction fs arbitrary: st)
  case Nil
  then show ?case by simp
next
  case (Cons f fs)
  then obtain st1 where step: "fresh_step ops marshal newID now mi byFP f st = (None, st1)"
    and rest: "for_each (fresh_step ops marshal newID now mi byFP) fs st1 = (None, st')"
    by (auto simp only: for_each_None_Cons)
  show ?case
  proof (cases "ValidateForIngest f")
    case (Some e)
    with step have "esStore st1 = esStore st" by (auto simp: fresh_step_def)
    with Cons.IH [OF rest] Cons.prems Some show ?thesis by simp
  next
    case None
    have known: "byFP (fFingerprint f) = look (esStore st) (mID mi) (fFingerprint f)"
      using Cons.prems(5) None by simp
    note S = fresh_step_store [OF step None Cons.prems(2) ok known]
    have notin: "fFingerprint f \<notin> set (valid_fps fs)" and dist: "distinct (valid_fps fs)"
      using Cons.prems(4) None by simp_all
    have "byFP fp = look (esStore st1) (mID mi) fp" if "fp \<in> set (valid_fps fs)" for fp
    proof -
      from that notin have "fp \<noteq> fFingerprint f" by auto
      with S(2) Cons.prems(5) None that show ?thesis by simp
    qed
    note IH = Cons.IH [OF rest S(1) ok dist this]
    from IH notin have "look (esStore st') (mID mi) (fFingerprint f) = look (esStore st1) (mID mi) (fFingerprint f)"
      by simp
    with IH S(2,3) None show ?thesis by auto
  qed
qed

lemma absent_step_store:
  assumes step: "absent_step ops now mi seen r st = (None, st')"
    and inv: "invar (esStore st)" and ok: "okmod (mID mi)"
    and here: "look (esStore st) (mID mi) (fFingerprint r) = Some r \<or> fFingerprint r \<in> set seen"
  shows "invar (esStore st')"
    and "fp \<noteq> fFingerprint r \<or> fp \<in> set seen \<Longrightarrow> look (esStore st') (mID mi) fp = look (esStore st) (mID mi) fp"
    and "fFingerprint r \<notin> set seen \<Longrightarrow> look (esStore st') (mID mi) (fFingerprint r) =
      Some (if ages r then (aged mi now r)\<lparr>fEvidence := canon (fEvidence r)\<rparr> else r)"
proof -
  let ?m = "mID mi" and ?fp = "fFingerprint r" and ?r = "aged mi now r"
  consider (skip) "?fp \<in> set seen \<or> \<not> ages r"
    | (age) "?fp \<notin> set seen" "ages r" by auto
  then have "invar (esStore st') \<and>
    (fp \<noteq> ?fp \<or> fp \<in> set seen \<longrightarrow> look (esStore st') ?m fp = look (esStore st) ?m fp) \<and>
    (?fp \<notin> set seen \<longrightarrow> look (esStore st') ?m ?fp =
      Some (if ages r then ?r\<lparr>fEvidence := canon (fEvidence r)\<rparr> else r))"
  proof cases
    case skip
    with step have "esStore st' = esStore st" by (auto simp: absent_step_def split: if_splits)
    with skip inv here show ?thesis by auto
  next
    case age
    with step have up: "opUpsert ops (esStore st) ?r = (None, esStore st')"
      by (auto simp: absent_step_def Let_def split: prod.splits if_splits)
    from age here have look: "look (esStore st) ?m ?fp = Some r" by simp
    with look_key [OF inv ok] have m: "fModule r = ?m" by blast
    have ev: "fEvidence ?r = fEvidence r" by (simp add: aged_def Let_def)
    have "look (esStore st') ?m ?fp = Some (?r\<lparr>fEvidence := canon (fEvidence r)\<rparr>)"
      using upsert_same [OF inv _ up] m ok look ev by simp
    moreover have "look (esStore st') ?m fp = look (esStore st) ?m fp" if "fp \<noteq> ?fp \<or> fp \<in> set seen"
      using upsert_other [OF inv ok _ up] m ok that age(1) by auto
    ultimately show ?thesis
      using upsert_invar [OF inv _ up] m ok age by simp
  qed
  then show "invar (esStore st')"
    and "fp \<noteq> ?fp \<or> fp \<in> set seen \<Longrightarrow> look (esStore st') ?m fp = look (esStore st) ?m fp"
    and "?fp \<notin> set seen \<Longrightarrow> look (esStore st') ?m ?fp =
      Some (if ages r then ?r\<lparr>fEvidence := canon (fEvidence r)\<rparr> else r)"
    by auto
qed

lemma absent_loop_store:
  assumes "for_each (absent_step ops now mi seen) rs st = (None, st')"
    and "invar (esStore st)" and ok: "okmod (mID mi)" and "distinct (map fFingerprint rs)"
    and "\<And>r. r \<in> set rs \<Longrightarrow> look (esStore st) (mID mi) (fFingerprint r) = Some r \<or> fFingerprint r \<in> set seen"
  shows "invar (esStore st') \<and>
    (\<forall>fp. fp \<in> set seen \<or> fp \<notin> fFingerprint ` set rs \<longrightarrow>
       look (esStore st') (mID mi) fp = look (esStore st) (mID mi) fp) \<and>
    (\<forall>r\<in>set rs. fFingerprint r \<notin> set seen \<longrightarrow>
       look (esStore st') (mID mi) (fFingerprint r) =
         Some (if ages r then (aged mi now r)\<lparr>fEvidence := canon (fEvidence r)\<rparr> else r))"
  using assms
proof (induction rs arbitrary: st)
  case Nil
  then show ?case by simp
next
  case (Cons r rs)
  then obtain st1 where step: "absent_step ops now mi seen r st = (None, st1)"
    and rest: "for_each (absent_step ops now mi seen) rs st1 = (None, st')"
    by (auto simp only: for_each_None_Cons)
  note S = absent_step_store [OF step Cons.prems(2) ok Cons.prems(5)]
  have "look (esStore st1) (mID mi) (fFingerprint r') = Some r' \<or> fFingerprint r' \<in> set seen"
    if "r' \<in> set rs" for r'
  proof -
    have "fFingerprint r' \<noteq> fFingerprint r" using that Cons.prems(4) by (force simp: image_iff)
    then show ?thesis using S(2) Cons.prems(5) [of r'] that by simp
  qed
  note IH = Cons.IH [OF rest _ ok _ this]
  have "fFingerprint r \<notin> fFingerprint ` set rs" using Cons.prems(4) by auto
  with IH S Cons.prems(4) show ?case by simp
qed

lemma byFP_look:
  assumes "invar s" and "okmod m" and "opListByTarget ops s m t = Inr rs"
    and "\<And>r. look s m fp = Some r \<Longrightarrow> fTarget r = t"
  shows "map_of (map (\<lambda>r. (fFingerprint r, r)) (rev rs)) fp = look s m fp"
proof -
  let ?l = "map (\<lambda>r. (fFingerprint r, r)) (rev rs)"
  note L = list_by_target [OF assms(1-3)]
  have dist: "distinct (map fst ?l)" using L by (simp add: rev_map [symmetric] comp_def)
  have "map_of ?l fp = Some r \<longleftrightarrow> look s m fp = Some r" for r
    unfolding map_of_eq_Some_iff [OF dist]
    using L assms(4) look_key [OF assms(1,2), of fp r] by (auto simp: image_iff)
  then show ?thesis by (metis not_Some_eq)
qed

lemma reconcile_phases:
  assumes R: "Reconcile ops marshal newID now mi target fresh s = (res, None, s')"
    and inv: "invar s" and ok: "okmod (mID mi)"
    and own: "\<forall>fp\<in>set (valid_fps fresh). \<forall>r. look s (mID mi) fp = Some r \<longrightarrow> fTarget r = target"
  obtains rs byFP st1 st2 where "opListByTarget ops s (mID mi) target = Inr rs"
    and "\<And>fp. fp \<in> set (valid_fps fresh) \<Longrightarrow> byFP fp = look s (mID mi) fp"
    and "\<And>fp p. byFP fp = Some p \<Longrightarrow> fFingerprint p = fp"
    and "for_each (fresh_step ops marshal newID now mi byFP) fresh
           \<lparr>esStore = s, esSeen = [], esIDs = 0, esRes = no_result\<rparr> = (None, st1)"
    and "for_each (absent_step ops now mi (esSeen st1)) rs st1 = (None, st2)"
    and "res = esRes st2" and "s' = esStore st2"
proof -
  let ?st0 = "\<lparr>esStore = s, esSeen = [], esIDs = 0, esRes = no_result\<rparr>"
  obtain rs where L: "opListByTarget ops s (mID mi) target = Inr rs"
    using R by (auto simp: Reconcile_def split: sum.splits)
  define byFP where "byFP = map_of (map (\<lambda>r. (fFingerprint r, r)) (rev rs))"
  from R L obtain st1 st2
    where "for_each (fresh_step ops marshal newID now mi byFP) fresh ?st0 = (None, st1)"
      and "for_each (absent_step ops now mi (esSeen st1)) rs st1 = (None, st2)"
      and "res = esRes st2" "s' = esStore st2"
    by (auto simp: Reconcile_def byFP_def Let_def split: prod.splits option.splits)
  moreover have "byFP fp = look s (mID mi) fp" if "fp \<in> set (valid_fps fresh)" for fp
    unfolding byFP_def by (rule byFP_look [OF inv ok L]) (use own that in blast)
  moreover have "fFingerprint p = fp" if "byFP fp = Some p" for fp p
    using that by (auto simp: byFP_def dest: map_of_SomeD)
  ultimately show ?thesis using L that by blast
qed

text \<open>The stored record of every fingerprint after a scan that returned no error.\<close>

lemma reconcile_store:
  assumes R: "Reconcile ops marshal newID now mi target fresh s = (res, None, s')"
    and inv: "invar s" and ok: "okmod (mID mi)" and dist: "distinct (valid_fps fresh)"
    and own: "\<forall>fp\<in>set (valid_fps fresh). \<forall>r. look s (mID mi) fp = Some r \<longrightarrow> fTarget r = target"
  shows "invar s'"
    and "f \<in> set fresh \<Longrightarrow> ValidateForIngest f = None \<Longrightarrow>
      \<exists>r. scan_result newID now (mID mi) (look s (mID mi) (fFingerprint f)) (capEvidence marshal f) r \<and>
          look s' (mID mi) (fFingerprint f) = Some (r\<lparr>fEvidence := canon (fEvidence r)\<rparr>)"
    and "fp \<notin> set (valid_fps fresh) \<Longrightarrow> look s' (mID mi) fp =
      map_option (\<lambda>r. if fTarget r = target \<and> ages r
                       then (aged mi now r)\<lparr>fEvidence := canon (fEvidence r)\<rparr> else r) (look s (mID mi) fp)"
proof -
  let ?m = "mID mi"
  obtain rs byFP st1 st2 where L: "opListByTarget ops s ?m target = Inr rs"
    and known: "\<And>fp. fp \<in> set (valid_fps fresh) \<Longrightarrow> byFP fp = look s ?m fp"
    and keyed: "\<And>fp p. byFP fp = Some p \<Longrightarrow> fFingerprint p = fp"
    and F: "for_each (fresh_step ops marshal newID now mi byFP) fresh
           \<lparr>esStore = s, esSeen = [], esIDs = 0, esRes = no_result\<rparr> = (None, st1)"
    and A: "for_each (absent_step ops now mi (esSeen st1)) rs st1 = (None, st2)"
    and "res = esRes st2" and fin: "s' = esStore st2"
    by (rule reconcile_phases [OF R inv ok own]) blast
  have seen: "set (esSeen st1) = set (valid_fps fresh)"
    using fresh_loop_results(1) [OF F keyed] by simp
  note L' = list_by_target [OF inv ok L]
  note FS = fresh_loop_store [OF F, simplified, OF inv ok dist known]
  have "look (esStore st1) ?m (fFingerprint r) = Some r \<or> fFingerprint r \<in> set (esSeen st1)"
    if "r \<in> set rs" for r
    using that L' FS seen by auto
  note AS = absent_loop_store [OF A conjunct1 [OF FS] ok conjunct1 [OF L'] this]
  show "invar s'" using AS fin by simp
  show "\<exists>r. scan_result newID now ?m (look s ?m (fFingerprint f)) (capEvidence marshal f) r \<and>
      look s' ?m (fFingerprint f) = Some (r\<lparr>fEvidence := canon (fEvidence r)\<rparr>)"
    if f: "f \<in> set fresh" "ValidateForIngest f = None"
  proof -
    have fp: "fFingerprint f \<in> set (valid_fps fresh)" using f by (auto simp: valid_fps_def)
    then have "look s' ?m (fFingerprint f) = look (esStore st1) ?m (fFingerprint f)"
      using AS fin seen by simp
    moreover have "\<exists>r. scan_result newID now ?m (byFP (fFingerprint f)) (capEvidence marshal f) r \<and>
        look (esStore st1) ?m (fFingerprint f) = Some (r\<lparr>fEvidence := canon (fEvidence r)\<rparr>)"
      using FS f by blast
    ultimately show ?thesis by (simp only: known [OF fp])
  qed
  show "look s' ?m fp = map_option (\<lambda>r. if fTarget r = target \<and> ages r
      then (aged mi now r)\<lparr>fEvidence := canon (fEvidence r)\<rparr> else r) (look s ?m fp)"
    if fp: "fp \<notin> set (valid_fps fresh)"
  proof (cases "\<exists>r\<in>set rs. fFingerprint r = fp")
    case True
    with L' AS fp seen fin show ?thesis by auto
  next
    case False
    then have "fp \<notin> fFingerprint ` set rs" by auto
    with AS FS fp fin have "look s' ?m fp = look s ?m fp" by simp
    moreover have "fTarget r \<noteq> target" if "look s ?m fp = Some r" for r
      using False L' look_key [OF inv ok that] that by auto
    ultimately show ?thesis by (cases "look s ?m fp") auto
  qed
qed

text \<open>What the scan reports to its caller.\<close>

lemma reconcile_results:
  assumes R: "Reconcile ops marshal newID now mi target fresh s = (res, None, s')"
    and inv: "invar s" and ok: "okmod (mID mi)"
    and own: "\<forall>fp\<in>set (valid_fps fresh). \<forall>r. look s (mID mi) fp = Some r \<longrightarrow> fTarget r = target"
  shows "map fFingerprint (NewlyOpen res) = map fFingerprint (filter (announced (look s (mID mi))) fresh)"
    and "map rjFinding (Rejected res) = filter (\<lambda>f. ValidateForIngest f \<noteq> None) fresh"
    and "set (Resolved res) = {finding_of (aged mi now r) | r. look s (mID mi) (fFingerprint r) = Some r \<and>
      fTarget r = target \<and> fFingerprint r \<notin> set (valid_fps fresh) \<and> ages r \<and> times_out mi r}"
proof -
  let ?m = "mID mi"
  obtain rs byFP st1 st2 where L: "opListByTarget ops s ?m target = Inr rs"
    and known: "\<And>fp. fp \<in> set (valid_fps fresh) \<Longrightarrow> byFP fp = look s ?m fp"
    and keyed: "\<And>fp p. byFP fp = Some p \<Longrightarrow> fFingerprint p = fp"
    and F: "for_each (fresh_step ops marshal newID now mi byFP) fresh
           \<lparr>esStore = s, esSeen = [], esIDs = 0, esRes = no_result\<rparr> = (None, st1)"
    and A: "for_each (absent_step ops now mi (esSeen st1)) rs st1 = (None, st2)"
    and fin: "res = esRes st2" and "s' = esStore st2"
    by (rule reconcile_phases [OF R inv ok own]) blast
  note FR = fresh_loop_results [OF F keyed] and AR = absent_loop_results [OF A]
  have "announced byFP f = announced (look s ?m) f" if "f \<in> set fresh" for f
    using known [of "fFingerprint f"] that by (auto simp: announced_def valid_fps_def)
  then have "filter (announced byFP) fresh = filter (announced (look s ?m)) fresh"
    by (rule filter_cong [OF refl])
  then show "map fFingerprint (NewlyOpen res) = map fFingerprint (filter (announced (look s ?m)) fresh)"
    using FR(2) AR(1) fin by (simp add: no_result_def)
  show "map rjFinding (Rejected res) = filter (\<lambda>f. ValidateForIngest f \<noteq> None) fresh"
    using FR(4) AR(2) fin by (simp add: no_result_def)
  show "set (Resolved res) = {finding_of (aged mi now r) | r. look s ?m (fFingerprint r) = Some r \<and>
      fTarget r = target \<and> fFingerprint r \<notin> set (valid_fps fresh) \<and> ages r \<and> times_out mi r}"
    using FR(1,3) AR(3) fin list_by_target [OF inv ok L] by (auto simp: no_result_def)
qed

end

subsection \<open>Totality on the in-memory store\<close>

lemma MemStore_Upsert_ok: "opUpsert (MemStore_ops iter) s r = (None, snd (MemStore_Upsert s r))"
  by (simp add: MemStore_ops_def MemStore_Upsert_def)

lemma fresh_step_ok:
  assumes "\<And>k. \<exists>fid. newID k = Inr fid"
  shows "fst (fresh_step (MemStore_ops iter) marshal newID now mi byFP f st) = None"
proof -
  obtain fid where "newID (esIDs st) = Inr fid" using assms by blast
  then show ?thesis
    by (auto simp: fresh_step_def Let_def MemStore_Upsert_ok split: option.splits)
qed

lemma absent_step_ok: "fst (absent_step (MemStore_ops iter) now mi seen r st) = None"
  by (simp add: absent_step_def Let_def MemStore_Upsert_ok)

lemma Reconcile_ok:
  assumes "\<And>k. \<exists>fid. newID k = Inr fid"
  shows "\<exists>res s'. Reconcile (MemStore_ops iter) marshal newID now mi target fresh s = (res, None, s')"
proof -
  let ?rs = "filter (\<lambda>r. fModule r = mID mi \<and> fTarget r = target) (map snd (iter (recs s)))"
  let ?byFP = "map_of (map (\<lambda>r. (fFingerprint r, r)) (rev ?rs))"
  let ?F = "for_each (fresh_step (MemStore_ops iter) marshal newID now mi ?byFP) fresh
              \<lparr>esStore = s, esSeen = [], esIDs = 0, esRes = no_result\<rparr>"
  have "fst ?F = None"
    by (rule for_each_total) (rule fresh_step_ok [OF assms])
  then obtain st1 where F: "?F = (None, st1)" by (cases ?F) simp
  let ?A = "for_each (absent_step (MemStore_ops iter) now mi (esSeen st1)) ?rs st1"
  have "fst ?A = None" by (rule for_each_total) (rule absent_step_ok)
  then obtain st2 where "?A = (None, st2)" by (cases ?A) simp
  with F have "Reconcile (MemStore_ops iter) marshal newID now mi target fresh s = (esRes st2, None, esStore st2)"
    by (simp add: Reconcile_def MemStore_ops_def MemStore_ListByTarget_def)
  then show ?thesis by blast
qed

subsection \<open>A run of scans that report nothing\<close>

fun quiet_scans ::
    "'s Store \<Rightarrow> (evidence \<Rightarrow> error + string) \<Rightarrow> (nat \<Rightarrow> error + string) \<Rightarrow> ModuleInfo \<Rightarrow> string
      \<Rightarrow> time list \<Rightarrow> 's \<Rightarrow> 's" where
  "quiet_scans ops marshal newID mi target [] s = s"
| "quiet_scans ops marshal newID mi target (now # nows) s =
     quiet_scans ops marshal newID mi target nows
       (snd (snd (Reconcile ops marshal newID now mi target [] s)))"

lemma quiet_scan_mem:
  assumes "iteration_order iter" and "mem_invar s" and "nul_free (mID mi)"
    and s'_def: "s' = snd (snd (Reconcile (MemStore_ops iter) marshal newID now mi target [] s))"
  shows "mem_invar s'"
    and "mem_look s' (mID mi) fp =
      map_option (\<lambda>r. if fTarget r = target \<and> ages r then aged mi now r else r) (mem_look s (mID mi) fp)"
proof -
  have "Reconcile (MemStore_ops iter) marshal newID now mi target [] s =
      Reconcile (MemStore_ops iter) marshal (\<lambda>_. Inr []) now mi target [] s"
    by (simp add: Reconcile_def Let_def split: sum.split)
  then obtain res where R: "Reconcile (MemStore_ops iter) marshal newID now mi target [] s = (res, None, s')"
    using Reconcile_ok [of "\<lambda>_. Inr []"] by (metis s'_def snd_conv)
  note S = finding_store.reconcile_store [OF MemStore_finding_store [OF assms(1)] R assms(2,3)]
  show "mem_invar s'" using S(1) by simp
  have ev: "(aged mi now r)\<lparr>fEvidence := fEvidence r\<rparr> = aged mi now r" for r
    by (simp add: aged_def Let_def)
  show "mem_look s' (mID mi) fp =
      map_option (\<lambda>r. if fTarget r = target \<and> ages r then aged mi now r else r) (mem_look s (mID mi) fp)"
    using S(3) [of fp] unfolding ev by simp
qed

lemma quiet_scans_streak:
  assumes iter: "iteration_order iter" and m: "nul_free (mID mi)"
    and "mem_invar s" and "mem_look s (mID mi) fp = Some r" and "fTarget r = target" and "ages r"
    and "rAbsentStreak r + int (length nows) < ResolveAfterOrDefault mi"
  shows "mem_invar (quiet_scans (MemStore_ops iter) marshal newID mi target nows s) \<and>
    mem_look (quiet_scans (MemStore_ops iter) marshal newID mi target nows s) (mID mi) fp =
      Some (r\<lparr>rAbsentStreak := rAbsentStreak r + int (length nows)\<rparr>)"
  using assms(3-)
proof (induction nows arbitrary: s r)
  case Nil
  then show ?case by simp
next
  case (Cons now nows)
  note Q = quiet_scan_mem [OF iter Cons.prems(1) m refl, of marshal newID now target]
  have aged: "aged mi now r = r\<lparr>rAbsentStreak := rAbsentStreak r + 1\<rparr>"
    using Cons.prems(5) by (simp add: aged_def Let_def)
  show ?case
    using Cons.IH [OF Q(1), of "r\<lparr>rAbsentStreak := rAbsentStreak r + 1\<rparr>"] Q(2) [of fp] Cons.prems
    by (simp add: aged ages_def algebra_simps)
qed

subsection \<open>Properties\<close>

text \<open>A concrete module, finding and id generator for the witnesses.\<close>

definition ex_module :: ModuleInfo where
  "ex_module = \<lparr>mID = ''loglight'', mName = ''Loglight'', mVersion = ''0.2.4'', mTargetKind = ''source'',
     mDefaultInterval = 5 * minute, mResolveAfter = 1\<rparr>"

definition ex_finding :: Finding where
  "ex_finding = \<lparr>fFingerprint = ''a1'', fTarget = ''auth'', fCheck = ''detect.scan'', fTitle = ''Port scan'',
     fSeverity = ''medium'', fRemediation = ''Block it'', fEvidence = None, fID = [], fModule = [],
     fStatus = [], fGroupID = None, fFirstSeen = 0, fLastSeen = 0, fResolvedAt = None\<rparr>"

definition ex_ids :: "nat \<Rightarrow> error + string" where
  "ex_ids k = Inr (''id'' @ replicate k CHR ''x'')"

definition ex_marshal :: "evidence \<Rightarrow> error + string" where
  "ex_marshal ev = Inr ''{}''"

definition ex_store :: MemStore where
  "ex_store = snd (MemStore_Upsert NewMemStore (new_record ''loglight'' 7 ''id'' ex_finding))"

lemmas ex_defs = ex_module_def ex_finding_def ex_ids_def ex_marshal_def

lemma ex_finding_valid: "ValidateForIngest ex_finding = None"
  by (simp add: ValidateForIngest_def ex_finding_def Valid_def rank_def severity_consts)

lemma ex_ids_ok: "\<exists>fid. ex_ids k = Inr fid"
  by (simp add: ex_ids_def)

lemma ex_nul_free: "nul_free (mID ex_module)"
  by (simp add: nul_free_def ex_module_def)

lemma ex_store_invar: "mem_invar ex_store" "mem_invar NewMemStore"
  by (simp_all add: ex_store_def mem_invar_def MemStore_Upsert_def NewMemStore_def ex_finding_def
      new_record_def wf_map_def nul_free_def)

lemma ex_store_look: "mem_look ex_store (mID ex_module) ''a1'' = Some (new_record ''loglight'' 7 ''id'' ex_finding)"
  by (simp add: ex_store_def mem_look_def MemStore_Upsert_def NewMemStore_def ex_defs new_record_def key_def)



text \<open>C29. Reconcile reports exactly what changed: the newly-open findings are, in scan order, the
  valid ones whose fingerprint was unknown or resolved; the rejected ones are exactly the malformed
  ones; the resolved ones are exactly the unreported records of the target, neither resolved nor
  suppressed, whose absence streak reaches the threshold with this scan.\<close>

theorem reconcile_reports:
  assumes "iteration_order iter" and "mem_invar s" and "nul_free (mID mi)"
    and "\<forall>fp\<in>set (valid_fps fresh). \<forall>r. mem_look s (mID mi) fp = Some r \<longrightarrow> fTarget r = target"
    and "Reconcile (MemStore_ops iter) marshal newID now mi target fresh s = (res, None, s')"
  shows "map fFingerprint (NewlyOpen res) =
      map fFingerprint (filter (\<lambda>f. ValidateForIngest f = None \<and>
        (case mem_look s (mID mi) (fFingerprint f) of None \<Rightarrow> True | Some p \<Rightarrow> fStatus p = StatusResolved)) fresh) \<and>
    map rjFinding (Rejected res) = filter (\<lambda>f. ValidateForIngest f \<noteq> None) fresh \<and>
    set (Resolved res) = {finding_of (aged mi now r) | r. mem_look s (mID mi) (fFingerprint r) = Some r \<and>
      fTarget r = target \<and> fFingerprint r \<notin> set (valid_fps fresh) \<and>
      fStatus r \<noteq> StatusResolved \<and> fStatus r \<noteq> StatusSuppressed \<and>
      rAbsentStreak r + 1 \<ge> ResolveAfterOrDefault mi}"
  using finding_store.reconcile_results [OF MemStore_finding_store [OF assms(1)] assms(5,2,3,4)]
  by (simp add: announced_def [abs_def] ages_def times_out_def conj_assoc)

theorem reconcile_reports_witness:
  "\<exists>res s'. Reconcile (MemStore_ops rev) ex_marshal ex_ids 9 ex_module ''auth'' [ex_finding] NewMemStore = (res, None, s') \<and>
     map fFingerprint (NewlyOpen res) = [''a1''] \<and> Resolved res = []"
proof -
  obtain res s' where R: "Reconcile (MemStore_ops rev) ex_marshal ex_ids 9 ex_module ''auth'' [ex_finding] NewMemStore
      = (res, None, s')"
    using Reconcile_ok [where newID = ex_ids, OF ex_ids_ok] by blast
  have "mem_look NewMemStore m fp = None" for m fp by (simp add: mem_look_def NewMemStore_def)
  with reconcile_reports [OF iteration_order_rev ex_store_invar(2) ex_nul_free _ R] R ex_finding_valid show ?thesis
    by (auto simp: ex_finding_def)
qed



text \<open>C30. Auto-resolve takes exactly the module's number of consecutive absent scans: a record that
  is neither resolved nor suppressed and has been absent \<open>rAbsentStreak r\<close> times keeps its status
  through every run of quiet scans short of the threshold, and the scan that reaches the threshold
  marks it resolved at its own time.\<close>

theorem quiet_scans_resolve:
  assumes "iteration_order iter" and "nul_free (mID mi)" and "mem_invar s"
    and "mem_look s (mID mi) fp = Some r" and "fTarget r = target"
    and "fStatus r \<noteq> StatusResolved" and "fStatus r \<noteq> StatusSuppressed"
    and "rAbsentStreak r + int (length nows) + 1 = ResolveAfterOrDefault mi"
  shows "map_option fStatus (mem_look (quiet_scans (MemStore_ops iter) marshal newID mi target nows s) (mID mi) fp) =
           Some (fStatus r) \<and>
         mem_look (quiet_scans (MemStore_ops iter) marshal newID mi target (nows @ [now]) s) (mID mi) fp =
           Some (r\<lparr>fStatus := StatusResolved, fResolvedAt := Some now,
                    rAbsentStreak := ResolveAfterOrDefault mi\<rparr>)"
proof -
  let ?q = "quiet_scans (MemStore_ops iter) marshal newID mi target"
  have app: "?q (nows @ [now]) s = ?q [now] (?q nows s)" for s
    by (induction nows arbitrary: s) simp_all
  have ages: "ages r" using assms(6,7) by (simp add: ages_def)
  have S: "mem_invar (?q nows s) \<and> mem_look (?q nows s) (mID mi) fp =
      Some (r\<lparr>rAbsentStreak := rAbsentStreak r + int (length nows)\<rparr>)"
    using quiet_scans_streak [OF assms(1,2,3,4,5) ages] assms(8) by simp
  show ?thesis
    using S quiet_scan_mem(2) [OF assms(1) conjunct1 [OF S] assms(2) refl, of marshal newID now target fp]
      assms(5-8) by (simp add: app aged_def Let_def ages_def)
qed

theorem quiet_scans_resolve_witness:
  "map_option fStatus (mem_look (quiet_scans (MemStore_ops rev) ex_marshal ex_ids ex_module ''auth'' [11] ex_store)
     ''loglight'' ''a1'') = Some StatusResolved"
proof -
  let ?r = "new_record ''loglight'' 7 ''id'' ex_finding"
  have "rAbsentStreak ?r + int (length []) + 1 = ResolveAfterOrDefault ex_module" "fTarget ?r = ''auth''"
    by (simp_all add: new_record_def ResolveAfterOrDefault_def ex_module_def ex_finding_def)
  from quiet_scans_resolve [OF iteration_order_rev ex_nul_free ex_store_invar(1) ex_store_look this(2) _ _ this(1)]
  show ?thesis by (simp add: ex_module_def)
qed

text \<open>C31. A suppressed finding stays the user's call: no scan announces it as newly open or as
  resolved, and its stored status stays suppressed.\<close>

theorem suppressed_stays_silent:
  assumes "iteration_order iter" and "mem_invar s" and "nul_free (mID mi)"
    and "distinct (valid_fps fresh)"
    and "\<forall>fp\<in>set (valid_fps fresh). \<forall>r. mem_look s (mID mi) fp = Some r \<longrightarrow> fTarget r = target"
    and "Reconcile (MemStore_ops iter) marshal newID now mi target fresh s = (res, None, s')"
    and "mem_look s (mID mi) fp = Some r" and "fStatus r = StatusSuppressed"
  shows "fp \<notin> set (map fFingerprint (NewlyOpen res)) \<and> fp \<notin> set (map fFingerprint (Resolved res)) \<and>
    (\<exists>r'. mem_look s' (mID mi) fp = Some r' \<and> fStatus r' = StatusSuppressed)"
proof -
  note C = MemStore_finding_store [OF assms(1)]
  note S = finding_store.reconcile_store [OF C assms(6,2,3,4,5)]
  note N = finding_store.reconcile_results [OF C assms(6,2,3,5)]
  have "fp \<notin> set (map fFingerprint (NewlyOpen res))"
    unfolding N(1) using assms(7,8) by (auto simp: announced_def)
  moreover have "fp \<notin> set (map fFingerprint (Resolved res))"
    using N(3) assms(7,8) by (auto simp: ages_def)
  moreover have "\<exists>r'. mem_look s' (mID mi) fp = Some r' \<and> fStatus r' = StatusSuppressed"
  proof (cases "fp \<in> set (valid_fps fresh)")
    case True
    then obtain f where "f \<in> set fresh" "ValidateForIngest f = None" "fp = fFingerprint f"
      by (auto simp: valid_fps_def)
    with S(2) [of f] assms(7,8) show ?thesis by (auto simp: scan_result_def)
  next
    case False
    with S(3) [OF False] assms(7,8) show ?thesis by (simp add: ages_def)
  qed
  ultimately show ?thesis by blast
qed

theorem suppressed_stays_silent_witness:
  "let s = snd (MemStore_Upsert NewMemStore ((new_record ''loglight'' 7 ''id'' ex_finding)\<lparr>fStatus := StatusSuppressed\<rparr>));
       (res, err, s') = Reconcile (MemStore_ops rev) ex_marshal ex_ids 9 ex_module ''auth'' [] s
   in ''a1'' \<notin> set (map fFingerprint (NewlyOpen res)) \<and> ''a1'' \<notin> set (map fFingerprint (Resolved res)) \<and>
      (\<exists>r'. mem_look s' ''loglight'' ''a1'' = Some r' \<and> fStatus r' = StatusSuppressed)"
proof -
  let ?r = "(new_record ''loglight'' 7 ''id'' ex_finding)\<lparr>fStatus := StatusSuppressed\<rparr>"
  let ?s = "snd (MemStore_Upsert NewMemStore ?r)"
  obtain res s' where R: "Reconcile (MemStore_ops rev) ex_marshal ex_ids 9 ex_module ''auth'' [] ?s = (res, None, s')"
    using Reconcile_ok [where newID = ex_ids, OF ex_ids_ok] by blast
  have inv: "mem_invar ?s" and look: "mem_look ?s (mID ex_module) ''a1'' = Some ?r"
    by (simp_all add: mem_invar_def mem_look_def MemStore_Upsert_def NewMemStore_def ex_finding_def ex_module_def
        new_record_def wf_map_def nul_free_def key_def)
  have "valid_fps [] = []" by simp
  with suppressed_stays_silent [OF iteration_order_rev inv ex_nul_free _ _ R look] show ?thesis
    by (simp add: R Let_def) (simp add: ex_module_def)
qed

text \<open>Stored evidence is bounded: after capEvidence a finding carries no evidence, its own
  evidence with a serialised form of at most MaxEvidenceBytes, or one of the two fixed markers; and
  nothing but the evidence is touched.\<close>

theorem capEvidence_bounded:
  "(fEvidence (capEvidence marshal f) = None \<or>
    (\<exists>ev b. fEvidence (capEvidence marshal f) = Some ev \<and> fEvidence f = Some ev \<and> marshal ev = Inr b \<and>
       length b \<le> MaxEvidenceBytes) \<or>
    (\<exists>ev e. fEvidence f = Some ev \<and> marshal ev = Inl e \<and>
       fEvidence (capEvidence marshal f) = Some [(''_error'', AStr ''evidence not serialisable; dropped'')]) \<or>
    (\<exists>ev b. fEvidence f = Some ev \<and> marshal ev = Inr b \<and> MaxEvidenceBytes < length b \<and>
       map fst (the (fEvidence (capEvidence marshal f))) = [''_truncated'', ''_original_bytes'', ''_note''])) \<and>
   (capEvidence marshal f)\<lparr>fEvidence := fEvidence f\<rparr> = f"
  by (cases "fEvidence f") (auto simp: capEvidence_def split: sum.splits)

end
