(* ===== verification/Sqlite_Store.thy ===== *)
theory Sqlite_Store
  imports Reconcile
begin

text \<open>
  store/sqlite.go: the production store. The tables \<^verbatim>\<open>findings\<close> and \<^verbatim>\<open>targets\<close> are lists of rows in
  rowid order, the SQL statements are functions on them (insert or update on the conflict target,
  which SQLite checks before the other constraints; the primary key refuses a duplicate id; a
  \<^verbatim>\<open>SELECT\<close> without \<^verbatim>\<open>ORDER BY\<close> returns its rows in any order). The JSON codec of evidence and whether a
  statement fails are arguments. Times are stored in UTC, so their stored forms keep their order.

  The store is an instance of the contract \<open>finding_store\<close>, so everything the reconcile engine
  guarantees over that contract holds in production.
\<close>

subsection \<open>Rows\<close>

record findings_row =
  colID :: string
  colFingerprint :: string
  colModule :: string
  colTarget :: string
  colCheck :: string
  colTitle :: string
  colSeverity :: string
  colStatus :: string
  colRemediation :: string
  colEvidence :: "string option"
  colGroupID :: "string option"
  colFirstSeen :: time
  colLastSeen :: time
  colResolvedAt :: "time option"
  colAbsentStreak :: int

record targets_row =
  colTModule :: string
  colTRaw :: string
  colTCanonical :: string

record SQLiteStore =
  tblFindings :: "findings_row list"
  tblTargets :: "targets_row list"

text \<open>The environment: the JSON codec, the outcome of a statement and the row order of a query.\<close>

record sql_env =
  seMarshal :: "evidence \<Rightarrow> error + string"
  seUnmarshal :: "string \<Rightarrow> error + evidence"
  seQuery :: "error option"
  seExec :: "error option"
  seOrder :: "findings_row list \<Rightarrow> findings_row list"

definition NewSQLiteStore :: "error option \<Rightarrow> SQLiteStore \<Rightarrow> error + SQLiteStore" where
  "NewSQLiteStore dberr db =
     (case dberr of Some (Errorf e) \<Rightarrow> Inl (Errorf (''sqlite migrate: '' @ e)) | Some e \<Rightarrow> Inl e | None \<Rightarrow> Inr db)"

definition marshalEvidence :: "sql_env \<Rightarrow> evidence option \<Rightarrow> error + string option" where
  "marshalEvidence env ev =
     (case ev of
        None \<Rightarrow> Inr None
      | Some e \<Rightarrow>
          (case seMarshal env e of
             Inl (Errorf m) \<Rightarrow> Inl (Errorf (''marshal evidence: '' @ m))
           | Inl err \<Rightarrow> Inl err
           | Inr b \<Rightarrow> Inr (Some b)))"

definition unmarshal_evidence :: "sql_env \<Rightarrow> string option \<Rightarrow> evidence option" where
  "unmarshal_evidence env txt =
     (case txt of
        None \<Rightarrow> None
      | Some b \<Rightarrow>
          if b = [] then None
          else (case seUnmarshal env b of
                  Inl _ \<Rightarrow> Some [(''_error'', AStr ''stored evidence unreadable'')]
                | Inr e \<Rightarrow> Some e))"

definition scanRecord :: "sql_env \<Rightarrow> findings_row \<Rightarrow> Record" where
  "scanRecord env w =
     \<lparr>fFingerprint = colFingerprint w, fTarget = colTarget w, fCheck = colCheck w, fTitle = colTitle w,
      fSeverity = colSeverity w, fRemediation = colRemediation w, fEvidence = unmarshal_evidence env (colEvidence w),
      fID = colID w, fModule = colModule w, fStatus = colStatus w, fGroupID = colGroupID w,
      fFirstSeen = colFirstSeen w, fLastSeen = colLastSeen w, fResolvedAt = colResolvedAt w,
      rAbsentStreak = colAbsentStreak w\<rparr>"

definition scanRecords :: "sql_env \<Rightarrow> findings_row list \<Rightarrow> Record list" where
  "scanRecords env ws = map (scanRecord env) ws"

definition row_of :: "Record \<Rightarrow> string option \<Rightarrow> findings_row" where
  "row_of r ev =
     \<lparr>colID = fID r, colFingerprint = fFingerprint r, colModule = fModule r, colTarget = fTarget r, colCheck = fCheck r,
      colTitle = fTitle r, colSeverity = fSeverity r, colStatus = fStatus r, colRemediation = fRemediation r,
      colEvidence = ev, colGroupID = fGroupID r, colFirstSeen = fFirstSeen r, colLastSeen = fLastSeen r,
      colResolvedAt = fResolvedAt r, colAbsentStreak = rAbsentStreak r\<rparr>"

subsection \<open>Findings\<close>

definition Sql_ListByTarget :: "sql_env \<Rightarrow> SQLiteStore \<Rightarrow> string \<Rightarrow> string \<Rightarrow> error + Record list" where
  "Sql_ListByTarget env s modl target =
     (case seQuery env of
        Some e \<Rightarrow> Inl e
      | None \<Rightarrow> Inr (scanRecords env (seOrder env (filter (\<lambda>w. colModule w = modl \<and> colTarget w = target) (tblFindings s)))))"

definition Sql_ListOpen :: "sql_env \<Rightarrow> SQLiteStore \<Rightarrow> string \<Rightarrow> error + Record list" where
  "Sql_ListOpen env s modl =
     (case seQuery env of
        Some e \<Rightarrow> Inl e
      | None \<Rightarrow> Inr (scanRecords env (seOrder env (filter (\<lambda>w. colModule w = modl \<and> colStatus w = StatusOpen) (tblFindings s)))))"

definition Sql_Get :: "sql_env \<Rightarrow> SQLiteStore \<Rightarrow> string \<Rightarrow> string \<Rightarrow> error + Record option" where
  "Sql_Get env s modl fingerprint =
     (case seQuery env of
        Some e \<Rightarrow> Inl e
      | None \<Rightarrow> Inr (map_option (scanRecord env) (find (\<lambda>w. colModule w = modl \<and> colFingerprint w = fingerprint) (tblFindings s))))"

definition same_key :: "findings_row \<Rightarrow> findings_row \<Rightarrow> bool" where
  "same_key v w \<longleftrightarrow> colModule v = colModule w \<and> colFingerprint v = colFingerprint w"

text \<open>The columns \<^verbatim>\<open>DO UPDATE SET\<close> lists; the others keep their stored values.\<close>

definition do_update :: "findings_row \<Rightarrow> findings_row \<Rightarrow> findings_row" where
  "do_update new w =
     w\<lparr>colTitle := colTitle new, colSeverity := colSeverity new, colStatus := colStatus new,
       colRemediation := colRemediation new, colEvidence := colEvidence new, colGroupID := colGroupID new,
       colLastSeen := colLastSeen new, colResolvedAt := colResolvedAt new, colAbsentStreak := colAbsentStreak new\<rparr>"

definition insert_or_update :: "findings_row \<Rightarrow> findings_row list \<Rightarrow> error + findings_row list" where
  "insert_or_update new ws =
     (if list_ex (same_key new) ws then Inr (map (\<lambda>w. if same_key new w then do_update new w else w) ws)
      else if list_ex (\<lambda>w. colID w = colID new) ws then Inl (Errorf ''UNIQUE constraint failed: findings.id'')
      else Inr (ws @ [new]))"

definition Sql_Upsert :: "sql_env \<Rightarrow> SQLiteStore \<Rightarrow> Record \<Rightarrow> error option \<times> SQLiteStore" where
  "Sql_Upsert env s r =
     (case marshalEvidence env (fEvidence r) of
        Inl e \<Rightarrow> (Some e, s)
      | Inr ev \<Rightarrow>
          (case seExec env of
             Some e \<Rightarrow> (Some e, s)
           | None \<Rightarrow>
               (case insert_or_update (row_of r ev) (tblFindings s) of
                  Inl e \<Rightarrow> (Some e, s)
                | Inr ws \<Rightarrow> (None, s\<lparr>tblFindings := ws\<rparr>))))"

definition PruneResolvedBefore :: "sql_env \<Rightarrow> SQLiteStore \<Rightarrow> time \<Rightarrow> (error + int) \<times> SQLiteStore" where
  "PruneResolvedBefore env s cutoff =
     (case seExec env of
        Some e \<Rightarrow> (Inl e, s)
      | None \<Rightarrow>
          let dead = (\<lambda>w. colStatus w = StatusResolved \<and> (case colResolvedAt w of None \<Rightarrow> False | Some t \<Rightarrow> t < cutoff))
          in (Inr (int (length (filter dead (tblFindings s)))), s\<lparr>tblFindings := filter (\<lambda>w. \<not> dead w) (tblFindings s)\<rparr>))"

definition Sql_ListAll :: "sql_env \<Rightarrow> SQLiteStore \<Rightarrow> string \<Rightarrow> error + Record list" where
  "Sql_ListAll env s modl =
     (case seQuery env of
        Some e \<Rightarrow> Inl e
      | None \<Rightarrow> Inr (scanRecords env (sort_key (\<lambda>w. - colLastSeen w)
                  (seOrder env (filter (\<lambda>w. colModule w = modl) (tblFindings s))))))"

definition Sql_ops :: "sql_env \<Rightarrow> SQLiteStore Store" where
  "Sql_ops env =
     \<lparr>opListByTarget = Sql_ListByTarget env, opUpsert = Sql_Upsert env, opGet = Sql_Get env,
      opListOpen = Sql_ListOpen env, opListAll = Sql_ListAll env\<rparr>"

subsection \<open>Targets\<close>

definition Sql_SaveTarget :: "sql_env \<Rightarrow> SQLiteStore \<Rightarrow> string \<Rightarrow> string \<Rightarrow> string \<Rightarrow> error option \<times> SQLiteStore" where
  "Sql_SaveTarget env s modl raw canonical =
     (case seExec env of
        Some e \<Rightarrow> (Some e, s)
      | None \<Rightarrow>
          (None,
           if list_ex (\<lambda>w. colTModule w = modl \<and> colTCanonical w = canonical) (tblTargets s) then s
           else s\<lparr>tblTargets := tblTargets s @ [\<lparr>colTModule = modl, colTRaw = raw, colTCanonical = canonical\<rparr>]\<rparr>))"

definition Sql_DeleteTarget :: "sql_env \<Rightarrow> SQLiteStore \<Rightarrow> string \<Rightarrow> string \<Rightarrow> error option \<times> SQLiteStore" where
  "Sql_DeleteTarget env s modl canonical =
     (case seExec env of
        Some e \<Rightarrow> (Some e, s)
      | None \<Rightarrow> (None, s\<lparr>tblTargets := filter (\<lambda>w. \<not> (colTModule w = modl \<and> colTCanonical w = canonical)) (tblTargets s)\<rparr>))"

definition Sql_ListSavedTargets :: "sql_env \<Rightarrow> SQLiteStore \<Rightarrow> string \<Rightarrow> error + string list" where
  "Sql_ListSavedTargets env s modl =
     (case seQuery env of
        Some e \<Rightarrow> Inl e
      | None \<Rightarrow> Inr (map colTRaw (filter (\<lambda>w. colTModule w = modl) (tblTargets s))))"

subsection \<open>The contract\<close>

definition sql_invar :: "SQLiteStore \<Rightarrow> bool" where
  "sql_invar s \<longleftrightarrow> distinct (map (\<lambda>w. (colModule w, colFingerprint w)) (tblFindings s)) \<and>
     distinct (map colID (tblFindings s))"

definition sql_look :: "sql_env \<Rightarrow> SQLiteStore \<Rightarrow> string \<Rightarrow> string \<Rightarrow> Record option" where
  "sql_look env s m fp =
     map_option (scanRecord env) (find (\<lambda>w. colModule w = m \<and> colFingerprint w = fp) (tblFindings s))"

text \<open>What evidence becomes by being stored and read back.\<close>

definition sql_canon :: "sql_env \<Rightarrow> evidence option \<Rightarrow> evidence option" where
  "sql_canon env ev = (case marshalEvidence env ev of Inl _ \<Rightarrow> None | Inr txt \<Rightarrow> unmarshal_evidence env txt)"

lemma sql_look_iff:
  assumes "sql_invar s"
  shows "sql_look env s m fp = Some r \<longleftrightarrow>
    (\<exists>w\<in>set (tblFindings s). colModule w = m \<and> colFingerprint w = fp \<and> r = scanRecord env w)"
  using find_unique_key [of "\<lambda>w. (colModule w, colFingerprint w)" "tblFindings s" "(m, fp)"] assms
  by (auto simp: sql_look_def sql_invar_def)

lemma scanRecord_simps [simp]:
  "fModule (scanRecord env w) = colModule w" "fFingerprint (scanRecord env w) = colFingerprint w"
  "fTarget (scanRecord env w) = colTarget w"
  by (simp_all add: scanRecord_def)

lemma do_update_simps [simp]:
  "colModule (do_update n w) = colModule w" "colFingerprint (do_update n w) = colFingerprint w" "colID (do_update n w) = colID w"
  by (simp_all add: do_update_def)

lemma insert_or_update_invar:
  assumes "sql_invar s" and "insert_or_update n (tblFindings s) = Inr ws"
  shows "sql_invar (s\<lparr>tblFindings := ws\<rparr>)"
proof (cases "list_ex (same_key n) (tblFindings s)")
  case True
  then have ws: "ws = map (\<lambda>w. if same_key n w then do_update n w else w) (tblFindings s)"
    using assms(2) by (simp add: insert_or_update_def)
  have "map (\<lambda>w. (colModule w, colFingerprint w)) ws = map (\<lambda>w. (colModule w, colFingerprint w)) (tblFindings s)"
    "map colID ws = map colID (tblFindings s)" unfolding ws by auto
  with assms(1) show ?thesis by (simp add: sql_invar_def)
next
  case False
  then have ws: "ws = tblFindings s @ [n]" "\<not> list_ex (\<lambda>w. colID w = colID n) (tblFindings s)"
    using assms(2) by (auto simp: insert_or_update_def split: if_splits)
  with assms(1) False show ?thesis by (auto simp: sql_invar_def list_ex_iff same_key_def)
qed

lemma insert_or_update_upsert:
  assumes "insert_or_update n ws = Inr ws'"
  shows "ws' = (if list_ex (\<lambda>w. (colModule w, colFingerprint w) = (colModule n, colFingerprint n)) ws
     then map (\<lambda>w. if (colModule w, colFingerprint w) = (colModule n, colFingerprint n) then do_update n w else w) ws else ws @ [n])"
proof -
  have "same_key n = (\<lambda>w. (colModule w, colFingerprint w) = (colModule n, colFingerprint n))"
    by (auto simp: same_key_def fun_eq_iff)
  with assms show ?thesis by (auto simp: insert_or_update_def split: if_splits)
qed

lemma insert_or_update_find:
  assumes "insert_or_update n ws = Inr ws'"
  shows "find (\<lambda>w. colModule w = m \<and> colFingerprint w = fp) ws' =
    (if m = colModule n \<and> fp = colFingerprint n
     then Some (case find (\<lambda>w. colModule w = m \<and> colFingerprint w = fp) ws of None \<Rightarrow> n | Some w \<Rightarrow> do_update n w)
     else find (\<lambda>w. colModule w = m \<and> colFingerprint w = fp) ws)"
  using find_upsert [of "\<lambda>w. (colModule w, colFingerprint w)" "do_update n" "(m, fp)" n ws]
  unfolding insert_or_update_upsert [OF assms] by simp

lemma Sql_Upsert_ok:
  assumes "Sql_Upsert env s r = (None, s')"
  obtains ev ws where "marshalEvidence env (fEvidence r) = Inr ev"
    and "insert_or_update (row_of r ev) (tblFindings s) = Inr ws" and "s' = s\<lparr>tblFindings := ws\<rparr>"
  using assms by (auto simp: Sql_Upsert_def split: sum.splits option.splits)

lemma row_of_key [simp]: "colModule (row_of r ev) = fModule r" "colFingerprint (row_of r ev) = fFingerprint r"
  by (simp_all add: row_of_def)

text \<open>The SQL store keeps the contract, whatever the row order and whether or not statements fail.\<close>

lemma Sql_finding_store:
  assumes "iteration_order (seOrder env)"
  shows "finding_store (Sql_ops env) sql_invar (\<lambda>_. True) (sql_look env) (sql_canon env)"
proof (unfold_locales, goal_cases)
  case (1 s m fp r)
  then show ?case by (auto simp: sql_look_iff)
next
  case (2 s m t rs)
  let ?ws = "filter (\<lambda>w. colModule w = m \<and> colTarget w = t) (tblFindings s)"
  have rs: "rs = map (scanRecord env) (seOrder env ?ws)"
    using 2(3) by (auto simp: Sql_ops_def Sql_ListByTarget_def scanRecords_def split: option.splits)
  have "distinct (map colFingerprint ?ws)"
  proof -
    have "distinct (map (\<lambda>w. (colModule w, colFingerprint w)) ?ws)"
      using 2(1) by (simp add: sql_invar_def distinct_map_filter)
    then show ?thesis by (auto simp: distinct_map inj_on_def)
  qed
  moreover have "mset (map colFingerprint (seOrder env ?ws)) = mset (map colFingerprint ?ws)"
    using assms by (simp add: iteration_order_def)
  ultimately have "distinct (map colFingerprint (seOrder env ?ws))"
    using mset_eq_imp_distinct_iff by blast
  then have "distinct (map fFingerprint rs)" unfolding rs by (simp add: comp_def)
  moreover have "r \<in> set rs \<longleftrightarrow> sql_look env s m (fFingerprint r) = Some r \<and> fTarget r = t" for r
  proof -
    have "r \<in> set rs \<longleftrightarrow> (\<exists>w\<in>set (tblFindings s). colModule w = m \<and> colTarget w = t \<and> r = scanRecord env w)"
      unfolding rs set_map iteration_order_set [OF assms] by auto
    also have "\<dots> \<longleftrightarrow> sql_look env s m (fFingerprint r) = Some r \<and> fTarget r = t"
      unfolding sql_look_iff [OF 2(1)] using scanRecord_simps by metis
    finally show ?thesis .
  qed
  ultimately show ?case by blast
next
  case (3 s r s')
  then show ?case by (auto simp: Sql_ops_def elim!: Sql_Upsert_ok intro: insert_or_update_invar)
next
  case (4 s m r s' fp)
  from 4(4) obtain ev ws where "insert_or_update (row_of r ev) (tblFindings s) = Inr ws" "s' = s\<lparr>tblFindings := ws\<rparr>"
    by (auto simp: Sql_ops_def elim: Sql_Upsert_ok)
  with 4(5) insert_or_update_find [of "row_of r ev" "tblFindings s" ws m fp] show ?case
    by (auto simp: sql_look_def)
next
  case (5 s r s')
  from 5(3) obtain ev ws where ev: "marshalEvidence env (fEvidence r) = Inr ev"
    and ws: "insert_or_update (row_of r ev) (tblFindings s) = Inr ws" "s' = s\<lparr>tblFindings := ws\<rparr>"
    by (auto simp: Sql_ops_def elim: Sql_Upsert_ok)
  have c: "sql_canon env (fEvidence r) = unmarshal_evidence env ev" using ev by (simp add: sql_canon_def)
  have new: "scanRecord env (row_of r ev) = r\<lparr>fEvidence := unmarshal_evidence env ev\<rparr>"
    by (simp add: scanRecord_def row_of_def)
  show ?case
  proof (cases "find (\<lambda>w. colModule w = fModule r \<and> colFingerprint w = fFingerprint r) (tblFindings s)")
    case None
    with insert_or_update_find [OF ws(1), of "fModule r" "fFingerprint r"] ws(2) new c show ?thesis
      by (simp add: sql_look_def)
  next
    case (Some w)
    then have key: "colModule w = fModule r" "colFingerprint w = fFingerprint r" by (auto simp: find_Some_iff)
    have "same_identity (scanRecord env w) r" using 5(4) Some by (simp add: sql_look_def)
    then have "scanRecord env (do_update (row_of r ev) w) = r\<lparr>fEvidence := unmarshal_evidence env ev\<rparr>"
      using key by (simp add: scanRecord_def do_update_def row_of_def same_identity_def)
    with Some insert_or_update_find [OF ws(1), of "fModule r" "fFingerprint r"] ws(2) c show ?thesis
      by (simp add: sql_look_def)
  qed
qed

definition sql_plain :: "sql_env" where
  "sql_plain = \<lparr>seMarshal = (\<lambda>_. Inr ''{}''), seUnmarshal = (\<lambda>_. Inr []), seQuery = None, seExec = None, seOrder = (\<lambda>ws. ws)\<rparr>"

interpretation sql: finding_store "Sql_ops sql_plain" sql_invar "\<lambda>_. True" "sql_look sql_plain" "sql_canon sql_plain"
  by (rule Sql_finding_store) (simp add: sql_plain_def)

subsection \<open>Properties\<close>

text \<open>C28. In production too, a scan does what the reconcile specification says: on the SQL store, for
  every row order, a scan that returned no error leaves every valid fresh finding stored as a new
  open record or as the refreshed previous one (id, first-seen, target and check of the stored row
  kept by \<^verbatim>\<open>ON CONFLICT\<close>), ages exactly the unreported, unsuppressed, unresolved records of the
  scanned target, and keeps both uniqueness constraints. Evidence is what the JSON codec makes of
  it.\<close>

theorem sqlite_reconcile_refines_spec:
  assumes "iteration_order (seOrder env)" and "sql_invar s" and "distinct (valid_fps fresh)"
    and "\<forall>fp\<in>set (valid_fps fresh). \<forall>r. sql_look env s (mID mi) fp = Some r \<longrightarrow> fTarget r = target"
    and "Reconcile (Sql_ops env) marshal newID now mi target fresh s = (res, None, s')"
  shows "sql_invar s' \<and>
    (\<forall>f\<in>set fresh. ValidateForIngest f = None \<longrightarrow>
      (\<exists>r. sql_look env s' (mID mi) (fFingerprint f) = Some (r\<lparr>fEvidence := sql_canon env (fEvidence r)\<rparr>) \<and>
        (case sql_look env s (mID mi) (fFingerprint f) of
           None \<Rightarrow> \<exists>k fid. newID k = Inr fid \<and> r = new_record (mID mi) now fid (capEvidence marshal f)
         | Some prev \<Rightarrow> r = refreshed now (capEvidence marshal f) prev))) \<and>
    (\<forall>fp. fp \<notin> set (valid_fps fresh) \<longrightarrow>
      sql_look env s' (mID mi) fp =
        map_option (\<lambda>r. if fTarget r = target \<and> ages r
                         then (aged mi now r)\<lparr>fEvidence := sql_canon env (fEvidence r)\<rparr> else r) (sql_look env s (mID mi) fp))"
proof -
  note S = finding_store.reconcile_store [OF Sql_finding_store [OF assms(1)] assms(5,2) TrueI assms(3,4)]
  have "\<exists>r. sql_look env s' (mID mi) (fFingerprint f) = Some (r\<lparr>fEvidence := sql_canon env (fEvidence r)\<rparr>) \<and>
        (case sql_look env s (mID mi) (fFingerprint f) of
           None \<Rightarrow> \<exists>k fid. newID k = Inr fid \<and> r = new_record (mID mi) now fid (capEvidence marshal f)
         | Some prev \<Rightarrow> r = refreshed now (capEvidence marshal f) prev)"
    if "f \<in> set fresh" "ValidateForIngest f = None" for f
    using S(2) [OF that] unfolding scan_result_def by blast
  then show ?thesis using S(1,3) by blast
qed

datatype top = TSave string string string | TDelete string string

fun run_mem_targets :: "top list \<Rightarrow> MemStore \<Rightarrow> MemStore" where
  "run_mem_targets [] s = s"
| "run_mem_targets (TSave m raw c # ops) s = run_mem_targets ops (SaveTarget s m raw c)"
| "run_mem_targets (TDelete m c # ops) s = run_mem_targets ops (DeleteTarget s m c)"

fun run_sql_targets :: "sql_env \<Rightarrow> top list \<Rightarrow> SQLiteStore \<Rightarrow> SQLiteStore" where
  "run_sql_targets env [] s = s"
| "run_sql_targets env (TSave m raw c # ops) s = run_sql_targets env ops (snd (Sql_SaveTarget env s m raw c))"
| "run_sql_targets env (TDelete m c # ops) s = run_sql_targets env ops (snd (Sql_DeleteTarget env s m c))"

definition mem_targets :: "MemStore \<Rightarrow> string \<Rightarrow> (string \<times> string) list" where
  "mem_targets s m = map (\<lambda>t. (mtRaw t, mtCanonical t)) (case targets s m of None \<Rightarrow> [] | Some ts \<Rightarrow> ts)"

definition sql_targets :: "SQLiteStore \<Rightarrow> string \<Rightarrow> (string \<times> string) list" where
  "sql_targets s m = map (\<lambda>w. (colTRaw w, colTCanonical w)) (filter (\<lambda>w. colTModule w = m) (tblTargets s))"

definition save_spec :: "string \<Rightarrow> string \<Rightarrow> (string \<times> string) list \<Rightarrow> (string \<times> string) list" where
  "save_spec raw c ts = (if c \<in> snd ` set ts then ts else ts @ [(raw, c)])"

definition delete_spec :: "string \<Rightarrow> (string \<times> string) list \<Rightarrow> (string \<times> string) list" where
  "delete_spec c ts = filter (\<lambda>t. snd t \<noteq> c) ts"

lemma mem_target_steps:
  "mem_targets (SaveTarget s m raw c) = (mem_targets s)(m := save_spec raw c (mem_targets s m))"
  "mem_targets (DeleteTarget s m c) = (mem_targets s)(m := delete_spec c (mem_targets s m))"
  by (auto simp: fun_eq_iff mem_targets_def SaveTarget_def DeleteTarget_def save_spec_def delete_spec_def Let_def
      filter_map comp_def image_image split: option.split)

lemma sql_target_steps:
  assumes "seExec env = None"
  shows "sql_targets (snd (Sql_SaveTarget env s m raw c)) = (sql_targets s)(m := save_spec raw c (sql_targets s m))"
    "sql_targets (snd (Sql_DeleteTarget env s m c)) = (sql_targets s)(m := delete_spec c (sql_targets s m))"
proof -
  show "sql_targets (snd (Sql_SaveTarget env s m raw c)) = (sql_targets s)(m := save_spec raw c (sql_targets s m))"
    using assms by (auto simp: fun_eq_iff sql_targets_def Sql_SaveTarget_def save_spec_def list_ex_iff image_image)
  have D: "filter (\<lambda>w. colTModule w = m') (filter (\<lambda>w. \<not> (colTModule w = m \<and> colTCanonical w = c)) ws) =
      (if m' = m then filter (\<lambda>w. colTCanonical w \<noteq> c) (filter (\<lambda>w. colTModule w = m) ws) else filter (\<lambda>w. colTModule w = m') ws)" for m' ws
    by (induction ws) auto
  show "sql_targets (snd (Sql_DeleteTarget env s m c)) = (sql_targets s)(m := delete_spec c (sql_targets s m))"
  proof
    fix m'
    have "sql_targets (snd (Sql_DeleteTarget env s m c)) m' =
        map (\<lambda>w. (colTRaw w, colTCanonical w)) (filter (\<lambda>w. colTModule w = m')
          (filter (\<lambda>w. \<not> (colTModule w = m \<and> colTCanonical w = c)) (tblTargets s)))"
      using assms by (simp add: sql_targets_def Sql_DeleteTarget_def)
    then show "sql_targets (snd (Sql_DeleteTarget env s m c)) m' = ((sql_targets s)(m := delete_spec c (sql_targets s m))) m'"
      unfolding D by (simp add: sql_targets_def delete_spec_def filter_map comp_def)
  qed
qed

lemma run_targets_agree:
  assumes "seExec env = None"
  shows "mem_targets ms = sql_targets ss \<Longrightarrow> mem_targets (run_mem_targets ops ms) = sql_targets (run_sql_targets env ops ss)"
  by (induction ops ms arbitrary: ss rule: run_mem_targets.induct)
    (simp_all add: mem_target_steps sql_target_steps [OF assms])

text \<open>C40. The two target stores agree: after any sequence of saved and deleted targets the SQL store
  lists for every module the same raw inputs, in the same order, as the in-memory store; saving a
  target twice (same canonical form) changes nothing.\<close>

theorem target_stores_agree:
  assumes "seExec env = None" and "seQuery env = None"
  shows "Sql_ListSavedTargets env (run_sql_targets env ops \<lparr>tblFindings = [], tblTargets = []\<rparr>) m =
    Inr (ListSavedTargets (run_mem_targets ops NewMemStore) m)"
proof -
  have "mem_targets NewMemStore = sql_targets \<lparr>tblFindings = [], tblTargets = []\<rparr>"
    by (simp add: fun_eq_iff mem_targets_def sql_targets_def NewMemStore_def)
  from fun_cong [OF run_targets_agree [OF assms(1) this, of ops], of m]
  have "map fst (mem_targets (run_mem_targets ops NewMemStore) m) =
      map fst (sql_targets (run_sql_targets env ops \<lparr>tblFindings = [], tblTargets = []\<rparr>) m)" by simp
  then show ?thesis
    using assms(2) by (simp add: Sql_ListSavedTargets_def ListSavedTargets_def mem_targets_def sql_targets_def comp_def)
qed

theorem target_stores_agree_witness:
  "Sql_ListSavedTargets sql_plain (run_sql_targets sql_plain
     [TSave ''m'' ''a '' ''a'', TSave ''m'' ''b'' ''b'', TSave ''m'' ''a'' ''a'', TDelete ''m'' ''b''] \<lparr>tblFindings = [], tblTargets = []\<rparr>) ''m'' = Inr [''a '']"
  using target_stores_agree [of sql_plain "[TSave ''m'' ''a '' ''a'', TSave ''m'' ''b'' ''b'', TSave ''m'' ''a'' ''a'', TDelete ''m'' ''b'']" "''m''"]
  by (simp add: sql_plain_def ListSavedTargets_def SaveTarget_def DeleteTarget_def NewMemStore_def)

definition ex_sql :: SQLiteStore where
  "ex_sql = \<lparr>tblFindings = [], tblTargets = []\<rparr>"

theorem sqlite_reconcile_refines_spec_witness:
  "\<exists>s' k. Reconcile (Sql_ops sql_plain) ex_marshal ex_ids 9 ex_module ''auth'' [ex_finding] ex_sql =
     (\<lparr>NewlyOpen = [finding_of (new_record ''loglight'' 9 ''id'' ex_finding)], Resolved = [], Rejected = []\<rparr>, None, s') \<and>
     sql_look sql_plain s' ''loglight'' ''a1'' = Some (new_record ''loglight'' 9 (''id'' @ replicate k CHR ''x'') ex_finding)"
proof -
  have fps: "valid_fps [ex_finding] = [''a1'']" by (simp add: ex_finding_valid) (simp add: ex_finding_def)
  have c: "capEvidence ex_marshal ex_finding = ex_finding" "fFingerprint ex_finding = ''a1''" "mID ex_module = ''loglight''"
    by (simp_all add: capEvidence_def ex_finding_def ex_module_def)
  let ?n = "new_record ''loglight'' 9 ''id'' ex_finding"
  have "fEvidence ?n = None" by (simp add: new_record_def ex_finding_def)
  then have U: "Sql_Upsert sql_plain ex_sql ?n = (None, ex_sql\<lparr>tblFindings := [row_of ?n None]\<rparr>)"
    by (simp add: Sql_Upsert_def marshalEvidence_def insert_or_update_def sql_plain_def ex_sql_def)
  have B: "opListByTarget (Sql_ops sql_plain) ex_sql ''loglight'' ''auth'' = Inr []"
    by (simp add: Sql_ops_def Sql_ListByTarget_def scanRecords_def sql_plain_def ex_sql_def)
  obtain s' where R: "Reconcile (Sql_ops sql_plain) ex_marshal ex_ids 9 ex_module ''auth'' [ex_finding] ex_sql =
     (\<lparr>NewlyOpen = [finding_of ?n], Resolved = [], Rejected = []\<rparr>, None, s')"
    using U by (simp add: Reconcile_def B c fresh_step_def ex_finding_valid ex_ids_def no_result_def Let_def)
      (simp add: Sql_ops_def)
  have i: "iteration_order (seOrder sql_plain)" "sql_invar ex_sql" by (simp_all add: sql_plain_def ex_sql_def sql_invar_def)
  have l: "sql_look sql_plain ex_sql ''loglight'' fp = None" for fp by (simp add: sql_look_def ex_sql_def)
  have "\<exists>r k. sql_look sql_plain s' ''loglight'' ''a1'' = Some (r\<lparr>fEvidence := sql_canon sql_plain (fEvidence r)\<rparr>) \<and>
      r = new_record ''loglight'' 9 (''id'' @ replicate k CHR ''x'') ex_finding"
    using sqlite_reconcile_refines_spec [OF i _ _ R] ex_finding_valid c l by (auto simp: fps ex_ids_def)
  then obtain r k where "sql_look sql_plain s' ''loglight'' ''a1'' = Some (r\<lparr>fEvidence := sql_canon sql_plain (fEvidence r)\<rparr>)"
    "r = new_record ''loglight'' 9 (''id'' @ replicate k CHR ''x'') ex_finding" by blast
  moreover have "(new_record m now fid ex_finding)\<lparr>fEvidence := sql_canon sql_plain (fEvidence (new_record m now fid ex_finding))\<rparr> =
      new_record m now fid ex_finding" for m now fid
    by (simp add: new_record_def ex_finding_def sql_canon_def marshalEvidence_def unmarshal_evidence_def)
  ultimately show ?thesis using R by metis
qed

text \<open>Retention deletes old news only: pruning removes exactly the findings that were resolved
  before the cutoff and reports how many; open, acknowledged and suppressed findings, and recently
  resolved ones, survive, and the uniqueness constraints still hold.\<close>

theorem prune_deletes_only_resolved:
  assumes "sql_invar s" and "PruneResolvedBefore env s cutoff = (Inr n, s')"
  shows "sql_invar s' \<and> n = int (length (tblFindings s)) - int (length (tblFindings s')) \<and>
    sql_look env s' m fp = (case sql_look env s m fp of
        None \<Rightarrow> None
      | Some r \<Rightarrow> if fStatus r = StatusResolved \<and> (\<exists>t. fResolvedAt r = Some t \<and> t < cutoff) then None else Some r)"
proof -
  define dead where "dead = (\<lambda>w :: findings_row. colStatus w = StatusResolved \<and> (case colResolvedAt w of None \<Rightarrow> False | Some t \<Rightarrow> t < cutoff))"
  have s': "s' = s\<lparr>tblFindings := filter (\<lambda>w. \<not> dead w) (tblFindings s)\<rparr>" "n = int (length (filter dead (tblFindings s)))"
    using assms(2) by (cases "seExec env"; simp add: PruneResolvedBefore_def dead_def Let_def; blast)+
  have inv: "sql_invar s'" using assms(1) s'(1) by (simp add: sql_invar_def distinct_map_filter)
  have d: "dead w \<longleftrightarrow> fStatus (scanRecord env w) = StatusResolved \<and> (\<exists>t. fResolvedAt (scanRecord env w) = Some t \<and> t < cutoff)" for w
    by (auto simp: dead_def scanRecord_def split: option.split)
  have look: "sql_look env s' m fp = Some r \<longleftrightarrow> sql_look env s m fp = Some r \<and>
      \<not> (fStatus r = StatusResolved \<and> (\<exists>t. fResolvedAt r = Some t \<and> t < cutoff))" for r
  proof -
    have "set (tblFindings s') = {w \<in> set (tblFindings s). \<not> dead w}" using s'(1) by simp
    then show ?thesis unfolding sql_look_iff [OF inv] sql_look_iff [OF assms(1)] using d by auto
  qed
  have "sql_look env s' m fp = (case sql_look env s m fp of
        None \<Rightarrow> None
      | Some r \<Rightarrow> if fStatus r = StatusResolved \<and> (\<exists>t. fResolvedAt r = Some t \<and> t < cutoff) then None else Some r)"
    by (rule option_filtered) (rule look)
  moreover have "length (filter dead (tblFindings s)) + length (filter (\<lambda>w. \<not> dead w) (tblFindings s)) = length (tblFindings s)"
    by (rule sum_length_filter_compl)
  ultimately show ?thesis using inv s' by simp
qed

definition ex_row :: findings_row where
  "ex_row = row_of ((new_record ''loglight'' 3 ''id'' ex_finding)\<lparr>fStatus := StatusResolved, fResolvedAt := Some 4\<rparr>) None"

theorem prune_deletes_only_resolved_witness:
  "sql_look sql_plain (snd (PruneResolvedBefore sql_plain \<lparr>tblFindings = [ex_row], tblTargets = []\<rparr> 9)) ''loglight'' ''a1'' = None"
  using prune_deletes_only_resolved [of "\<lparr>tblFindings = [ex_row], tblTargets = []\<rparr>" sql_plain 9 1 _ "''loglight''" "''a1''"]
  by (simp add: PruneResolvedBefore_def sql_plain_def sql_invar_def sql_look_def ex_row_def row_of_def new_record_def
      scanRecord_def ex_finding_def)

end
