(* ===== verification/Log_Store.thy ===== *)
theory Log_Store
  imports Finding_Store
begin

text \<open>
  The persistence of the Loglight product: the source and detection records of
  loglight/loglight.go, the in-memory store of loglight/memstore.go and the SQL store of
  loglight/sqlite.go. The SQL tables are lists of rows with the semantics of their statements, the
  JSON codecs and the outcome of a statement are arguments.

  The locale \<open>detection_store\<close> is what the collector relies on: a detection is found under its
  source and key with the values of its last upsert and the earliest first sighting, listing a
  source gives exactly its detections, newest first, and pruning drops exactly the quiet ones. Both
  stores are interpreted.
\<close>

subsection \<open>Records and the interface\<close>

record SourceConfig =
  scName :: string
  scType :: string
  scParams :: "string \<rightharpoonup> string"
  scEnabled :: bool
  scCreatedAt :: time

record DetectionRecord =
  drKey :: string
  drSourceID :: string
  drCheck :: string
  drSeverity :: string
  drActor :: string
  drTarget :: string
  drTitle :: string
  drDetail :: string
  drEvidence :: "string list"
  drFix :: string
  drCount :: int
  drFirstAt :: time
  drLastAt :: time

record 's LStore =
  lsPutSource :: "'s \<Rightarrow> SourceConfig \<Rightarrow> error option \<times> 's"
  lsGetSource :: "'s \<Rightarrow> string \<Rightarrow> error + SourceConfig option"
  lsListSources :: "'s \<Rightarrow> error + SourceConfig list"
  lsDeleteSource :: "'s \<Rightarrow> string \<Rightarrow> error option \<times> 's"
  lsUpsertDetection :: "'s \<Rightarrow> DetectionRecord \<Rightarrow> error option \<times> 's"
  lsListDetections :: "'s \<Rightarrow> string \<Rightarrow> error + DetectionRecord list"
  lsPruneDetections :: "'s \<Rightarrow> time \<Rightarrow> error option \<times> 's"

text \<open>What a stored detection shows after an upsert: the new values, and the earliest start.\<close>

definition carries :: "DetectionRecord \<Rightarrow> DetectionRecord option \<Rightarrow> DetectionRecord \<Rightarrow> bool" where
  "carries d old r \<longleftrightarrow>
     drKey r = drKey d \<and> drSourceID r = drSourceID d \<and> drSeverity r = drSeverity d \<and> drTitle r = drTitle d \<and>
     drDetail r = drDetail d \<and> drCount r = drCount d \<and> drLastAt r = drLastAt d \<and>
     drFirstAt r = (case old of None \<Rightarrow> drFirstAt d | Some p \<Rightarrow> min (drFirstAt p) (drFirstAt d))"

locale detection_store =
  fixes ops :: "'s LStore"
    and invar :: "'s \<Rightarrow> bool"
    and oksrc :: "string \<Rightarrow> bool"
    and look :: "'s \<Rightarrow> string \<Rightarrow> string \<Rightarrow> DetectionRecord option"
  assumes look_key:
      "invar s \<Longrightarrow> oksrc src \<Longrightarrow> look s src k = Some r \<Longrightarrow> drSourceID r = src \<and> drKey r = k"
    and upsert_invar:
      "invar s \<Longrightarrow> oksrc (drSourceID d) \<Longrightarrow> lsUpsertDetection ops s d = (None, s') \<Longrightarrow> invar s'"
    and upsert_other:
      "invar s \<Longrightarrow> oksrc src \<Longrightarrow> oksrc (drSourceID d) \<Longrightarrow> lsUpsertDetection ops s d = (None, s') \<Longrightarrow>
         (src, k) \<noteq> (drSourceID d, drKey d) \<Longrightarrow> look s' src k = look s src k"
    and upsert_same:
      "invar s \<Longrightarrow> oksrc (drSourceID d) \<Longrightarrow> lsUpsertDetection ops s d = (None, s') \<Longrightarrow>
         \<exists>r. look s' (drSourceID d) (drKey d) = Some r \<and> carries d (look s (drSourceID d) (drKey d)) r"
    and list_detections:
      "invar s \<Longrightarrow> oksrc src \<Longrightarrow> src \<noteq> [] \<Longrightarrow> lsListDetections ops s src = Inr rs \<Longrightarrow>
         distinct (map drKey rs) \<and> (\<forall>r. r \<in> set rs \<longleftrightarrow> look s src (drKey r) = Some r) \<and>
         sorted_wrt (\<lambda>a b. drLastAt b \<le> drLastAt a) rs"
    and prune:
      "invar s \<Longrightarrow> oksrc src \<Longrightarrow> lsPruneDetections ops s before = (None, s') \<Longrightarrow>
         invar s' \<and> look s' src k = (case look s src k of None \<Rightarrow> None | Some r \<Rightarrow> if drLastAt r < before then None else Some r)"

subsection \<open>The in-memory store (loglight/memstore.go)\<close>

record LMemStore =
  lmSources :: "(string, SourceConfig) gomap"
  lmDets :: "(string, DetectionRecord) gomap"

definition NewLMemStore :: LMemStore where
  "NewLMemStore = \<lparr>lmSources = [], lmDets = []\<rparr>"

record lmem_orders =
  loSources :: "(string \<times> SourceConfig) list \<Rightarrow> (string \<times> SourceConfig) list"
  loDets :: "(string \<times> DetectionRecord) list \<Rightarrow> (string \<times> DetectionRecord) list"

definition LMem_PutSource :: "LMemStore \<Rightarrow> SourceConfig \<Rightarrow> error option \<times> LMemStore" where
  "LMem_PutSource m s = (None, m\<lparr>lmSources := map_put (scName s) s (lmSources m)\<rparr>)"

definition LMem_GetSource :: "LMemStore \<Rightarrow> string \<Rightarrow> error + SourceConfig option" where
  "LMem_GetSource m name = Inr (map_of (lmSources m) name)"

definition LMem_ListSources :: "lmem_orders \<Rightarrow> LMemStore \<Rightarrow> error + SourceConfig list" where
  "LMem_ListSources ord m = Inr (sort_key scName (map snd (loSources ord (lmSources m))))"

definition LMem_DeleteSource :: "LMemStore \<Rightarrow> string \<Rightarrow> error option \<times> LMemStore" where
  "LMem_DeleteSource m name = (None, m\<lparr>lmSources := map_del name (lmSources m)\<rparr>)"

definition detKey :: "string \<Rightarrow> string \<Rightarrow> string" where
  "detKey sourceID k = sourceID @ [CHR 0x00] @ k"

definition LMem_UpsertDetection :: "LMemStore \<Rightarrow> DetectionRecord \<Rightarrow> error option \<times> LMemStore" where
  "LMem_UpsertDetection m d =
     (let k = detKey (drSourceID d) (drKey d);
          d = (case map_of (lmDets m) k of
                 None \<Rightarrow> d
               | Some existing \<Rightarrow> if Before (drFirstAt existing) (drFirstAt d) then d\<lparr>drFirstAt := drFirstAt existing\<rparr> else d)
      in (None, m\<lparr>lmDets := map_put k d (lmDets m)\<rparr>))"

definition LMem_ListDetections :: "lmem_orders \<Rightarrow> LMemStore \<Rightarrow> string \<Rightarrow> error + DetectionRecord list" where
  "LMem_ListDetections ord m sourceID =
     Inr (sort_key (\<lambda>d. - drLastAt d)
       (filter (\<lambda>d. sourceID = [] \<or> drSourceID d = sourceID) (map snd (loDets ord (lmDets m)))))"

definition LMem_PruneDetections :: "LMemStore \<Rightarrow> time \<Rightarrow> error option \<times> LMemStore" where
  "LMem_PruneDetections m before = (None, m\<lparr>lmDets := filter (\<lambda>(k, d). \<not> Before (drLastAt d) before) (lmDets m)\<rparr>)"

definition LMem_ops :: "lmem_orders \<Rightarrow> LMemStore LStore" where
  "LMem_ops ord =
     \<lparr>lsPutSource = LMem_PutSource, lsGetSource = LMem_GetSource, lsListSources = LMem_ListSources ord,
      lsDeleteSource = LMem_DeleteSource, lsUpsertDetection = LMem_UpsertDetection,
      lsListDetections = LMem_ListDetections ord, lsPruneDetections = LMem_PruneDetections\<rparr>"

subsection \<open>The SQL store (loglight/sqlite.go)\<close>

record source_row =
  swName :: string
  swType :: string
  swParams :: string
  swEnabled :: int
  swCreated :: time

record det_row =
  dwSource :: string
  dwKey :: string
  dwCheck :: string
  dwSeverity :: string
  dwActor :: string
  dwTarget :: string
  dwTitle :: string
  dwDetail :: string
  dwEvidence :: string
  dwFix :: string
  dwCount :: int
  dwFirst :: time
  dwLast :: time

record LSQLiteStore =
  tblSources :: "source_row list"
  tblDets :: "det_row list"

record lsql_env =
  leParams :: "(string \<rightharpoonup> string) \<Rightarrow> string"
  leReadParams :: "string \<Rightarrow> (string \<rightharpoonup> string) option"
  leEvidence :: "string list \<Rightarrow> string"
  leReadEvidence :: "string \<Rightarrow> string list option"
  leQuery :: "error option"
  leExec :: "error option"
  leExec2 :: "error option"
  leNow :: time
  leDetOrder :: "det_row list \<Rightarrow> det_row list"

definition NewLSQLiteStore :: "error option \<Rightarrow> LSQLiteStore \<Rightarrow> error + LSQLiteStore" where
  "NewLSQLiteStore dberr db = (case dberr of Some e \<Rightarrow> Inl e | None \<Rightarrow> Inr db)"

definition put_source_row :: "source_row \<Rightarrow> source_row list \<Rightarrow> source_row list" where
  "put_source_row new ws =
     (if list_ex (\<lambda>w. swName w = swName new) ws
      then map (\<lambda>w. if swName w = swName new
                     then w\<lparr>swType := swType new, swParams := swParams new, swEnabled := swEnabled new\<rparr> else w) ws
      else ws @ [new])"

definition LSql_PutSource :: "lsql_env \<Rightarrow> LSQLiteStore \<Rightarrow> SourceConfig \<Rightarrow> error option \<times> LSQLiteStore" where
  "LSql_PutSource env s c =
     (let created = (if IsZero (scCreatedAt c) then leNow env else scCreatedAt c)
      in case leExec env of
           Some e \<Rightarrow> (Some e, s)
         | None \<Rightarrow>
             (None, s\<lparr>tblSources := put_source_row
                \<lparr>swName = scName c, swType = scType c, swParams = leParams env (scParams c),
                 swEnabled = (if scEnabled c then 1 else 0), swCreated = created\<rparr> (tblSources s)\<rparr>))"

definition scanSource :: "lsql_env \<Rightarrow> source_row \<Rightarrow> SourceConfig" where
  "scanSource env w =
     \<lparr>scName = swName w, scType = swType w,
      scParams = (if TrimSpace (swParams w) \<noteq> []
                  then (case leReadParams env (swParams w) of None \<Rightarrow> Map.empty | Some p \<Rightarrow> p) else Map.empty),
      scEnabled = (swEnabled w \<noteq> 0), scCreatedAt = swCreated w\<rparr>"

definition LSql_GetSource :: "lsql_env \<Rightarrow> LSQLiteStore \<Rightarrow> string \<Rightarrow> error + SourceConfig option" where
  "LSql_GetSource env s name =
     (case leQuery env of
        Some e \<Rightarrow> Inl e
      | None \<Rightarrow> Inr (map_option (scanSource env) (find (\<lambda>w. swName w = name) (tblSources s))))"

definition LSql_ListSources :: "lsql_env \<Rightarrow> LSQLiteStore \<Rightarrow> error + SourceConfig list" where
  "LSql_ListSources env s =
     (case leQuery env of
        Some e \<Rightarrow> Inl e
      | None \<Rightarrow> Inr (map (scanSource env) (sort_key swName (tblSources s))))"

definition LSql_DeleteSource :: "lsql_env \<Rightarrow> LSQLiteStore \<Rightarrow> string \<Rightarrow> error option \<times> LSQLiteStore" where
  "LSql_DeleteSource env s name =
     (case leExec env of
        Some e \<Rightarrow> (Some e, s)
      | None \<Rightarrow>
          let s = s\<lparr>tblSources := filter (\<lambda>w. swName w \<noteq> name) (tblSources s)\<rparr>
          in case leExec2 env of
               Some e \<Rightarrow> (Some e, s)
             | None \<Rightarrow> (None, s\<lparr>tblDets := filter (\<lambda>w. dwSource w \<noteq> name) (tblDets s)\<rparr>))"

definition det_row_of :: "lsql_env \<Rightarrow> DetectionRecord \<Rightarrow> det_row" where
  "det_row_of env d =
     \<lparr>dwSource = drSourceID d, dwKey = drKey d, dwCheck = drCheck d, dwSeverity = drSeverity d, dwActor = drActor d,
      dwTarget = drTarget d, dwTitle = drTitle d, dwDetail = drDetail d, dwEvidence = leEvidence env (drEvidence d),
      dwFix = drFix d, dwCount = drCount d, dwFirst = drFirstAt d, dwLast = drLastAt d\<rparr>"

definition det_update :: "det_row \<Rightarrow> det_row \<Rightarrow> det_row" where
  "det_update new w =
     w\<lparr>dwSeverity := dwSeverity new, dwTitle := dwTitle new, dwDetail := dwDetail new, dwEvidence := dwEvidence new,
       dwCount := dwCount new, dwLast := dwLast new, dwFirst := min (dwFirst w) (dwFirst new)\<rparr>"

definition same_det :: "det_row \<Rightarrow> det_row \<Rightarrow> bool" where
  "same_det v w \<longleftrightarrow> dwSource v = dwSource w \<and> dwKey v = dwKey w"

definition put_det_row :: "det_row \<Rightarrow> det_row list \<Rightarrow> det_row list" where
  "put_det_row new ws =
     (if list_ex (same_det new) ws then map (\<lambda>w. if same_det new w then det_update new w else w) ws else ws @ [new])"

definition LSql_UpsertDetection :: "lsql_env \<Rightarrow> LSQLiteStore \<Rightarrow> DetectionRecord \<Rightarrow> error option \<times> LSQLiteStore" where
  "LSql_UpsertDetection env s d =
     (case leExec env of
        Some e \<Rightarrow> (Some e, s)
      | None \<Rightarrow> (None, s\<lparr>tblDets := put_det_row (det_row_of env d) (tblDets s)\<rparr>))"

definition scanDetection :: "lsql_env \<Rightarrow> det_row \<Rightarrow> DetectionRecord" where
  "scanDetection env w =
     \<lparr>drKey = dwKey w, drSourceID = dwSource w, drCheck = dwCheck w, drSeverity = dwSeverity w, drActor = dwActor w,
      drTarget = dwTarget w, drTitle = dwTitle w, drDetail = dwDetail w,
      drEvidence = (if TrimSpace (dwEvidence w) \<noteq> []
                    then (case leReadEvidence env (dwEvidence w) of None \<Rightarrow> [] | Some e \<Rightarrow> e) else []),
      drFix = dwFix w, drCount = dwCount w, drFirstAt = dwFirst w, drLastAt = dwLast w\<rparr>"

definition LSql_ListDetections :: "lsql_env \<Rightarrow> LSQLiteStore \<Rightarrow> string \<Rightarrow> error + DetectionRecord list" where
  "LSql_ListDetections env s sourceID =
     (case leQuery env of
        Some e \<Rightarrow> Inl e
      | None \<Rightarrow> Inr (map (scanDetection env) (sort_key (\<lambda>w. - dwLast w)
                  (leDetOrder env (filter (\<lambda>w. sourceID = [] \<or> dwSource w = sourceID) (tblDets s))))))"

definition LSql_PruneDetections :: "lsql_env \<Rightarrow> LSQLiteStore \<Rightarrow> time \<Rightarrow> error option \<times> LSQLiteStore" where
  "LSql_PruneDetections env s before =
     (case leExec env of
        Some e \<Rightarrow> (Some e, s)
      | None \<Rightarrow> (None, s\<lparr>tblDets := filter (\<lambda>w. \<not> dwLast w < before) (tblDets s)\<rparr>))"

definition LSql_ops :: "lsql_env \<Rightarrow> LSQLiteStore LStore" where
  "LSql_ops env =
     \<lparr>lsPutSource = LSql_PutSource env, lsGetSource = LSql_GetSource env, lsListSources = LSql_ListSources env,
      lsDeleteSource = LSql_DeleteSource env, lsUpsertDetection = LSql_UpsertDetection env,
      lsListDetections = LSql_ListDetections env, lsPruneDetections = LSql_PruneDetections env\<rparr>"

subsection \<open>Both stores keep the contract\<close>

definition lmem_invar :: "LMemStore \<Rightarrow> bool" where
  "lmem_invar m \<longleftrightarrow> wf_map (lmDets m) \<and>
     (\<forall>(k, d)\<in>set (lmDets m). k = detKey (drSourceID d) (drKey d) \<and> nul_free (drSourceID d))"

definition lmem_look :: "LMemStore \<Rightarrow> string \<Rightarrow> string \<Rightarrow> DetectionRecord option" where
  "lmem_look m src k = map_of (lmDets m) (detKey src k)"

lemma detKey_inj: "nul_free a \<Longrightarrow> nul_free b \<Longrightarrow> detKey a k = detKey b k' \<longleftrightarrow> a = b \<and> k = k'"
  using key_inj [of a b k k'] by (simp add: detKey_def key_def)

lemma lmem_entry: "lmem_invar m \<Longrightarrow> map_of (lmDets m) k = Some d \<Longrightarrow> k = detKey (drSourceID d) (drKey d) \<and> nul_free (drSourceID d)"
  by (auto simp: lmem_invar_def dest!: map_of_SomeD)

lemma lmem_look_key: "lmem_invar m \<Longrightarrow> nul_free src \<Longrightarrow> lmem_look m src k = Some r \<Longrightarrow> drSourceID r = src \<and> drKey r = k"
  unfolding lmem_look_def by (metis detKey_inj lmem_entry)

lemma lmem_invar_put:
  assumes "lmem_invar m" and "nul_free (drSourceID d)"
  shows "lmem_invar (m\<lparr>lmDets := map_put (detKey (drSourceID d) (drKey d)) d (lmDets m)\<rparr>)"
proof -
  have wf: "wf_map (lmDets m)" using assms by (simp add: lmem_invar_def)
  have "\<And>k r. (k, r) \<in> set (map_put (detKey (drSourceID d) (drKey d)) d (lmDets m)) \<Longrightarrow>
      (k, r) = (detKey (drSourceID d) (drKey d), d) \<or> (k, r) \<in> set (lmDets m)"
    using in_set_map_of [OF wf_map_put [OF wf]] in_set_map_of [OF wf] by (simp add: gomap_simps split: if_splits)
  with assms wf show ?thesis by (fastforce simp: lmem_invar_def)
qed

lemma LMem_Upsert_put:
  "\<exists>r. LMem_UpsertDetection m d = (None, m\<lparr>lmDets := map_put (detKey (drSourceID d) (drKey d)) r (lmDets m)\<rparr>) \<and>
     drSourceID r = drSourceID d \<and> drKey r = drKey d \<and> carries d (lmem_look m (drSourceID d) (drKey d)) r"
  by (auto simp: LMem_UpsertDetection_def Let_def carries_def lmem_look_def Before_def min_def split: option.split)

lemma lmem_members:
  assumes "iteration_order (loDets ord)" and "lmem_invar m" and "nul_free src" and "src \<noteq> []"
  shows "r \<in> set (filter (\<lambda>d. src = [] \<or> drSourceID d = src) (map snd (loDets ord (lmDets m)))) \<longleftrightarrow> lmem_look m src (drKey r) = Some r"
proof -
  have "r \<in> snd ` set (lmDets m) \<longleftrightarrow> (\<exists>k. map_of (lmDets m) k = Some r)"
    using assms(2) values_of_wf_map [of "lmDets m"] by (simp add: lmem_invar_def)
  moreover have "(\<exists>k. map_of (lmDets m) k = Some r) \<and> drSourceID r = src \<longleftrightarrow> lmem_look m src (drKey r) = Some r"
    using lmem_entry [OF assms(2)] lmem_look_key [OF assms(2,3)] by (auto simp: lmem_look_def)
  ultimately show ?thesis using assms(4) iteration_order_set [OF assms(1), of "lmDets m"] by auto
qed

lemma lmem_distinct:
  assumes iter: "iteration_order (loDets ord)" and inv: "lmem_invar m" and "src \<noteq> []"
  shows "distinct (map drKey (filter (\<lambda>d. src = [] \<or> drSourceID d = src) (map snd (loDets ord (lmDets m)))))"
proof -
  let ?ys = "filter (\<lambda>(k, d). drSourceID d = src) (loDets ord (lmDets m))"
  have "mset (map fst (loDets ord (lmDets m))) = mset (map fst (lmDets m))"
    using iter by (simp add: iteration_order_def)
  then have "distinct (map fst (loDets ord (lmDets m)))"
    using inv by (metis lmem_invar_def mset_eq_imp_distinct_iff wf_map_def)
  then have d: "distinct (map fst ?ys)" by (rule distinct_map_filter)
  have eq: "map fst ?ys = map (detKey src) (map (\<lambda>(k, d). drKey d) ?ys)"
    using inv iteration_order_set [OF iter] by (auto simp: lmem_invar_def)
  have "distinct (map (\<lambda>(k, d). drKey d) ?ys)" using d unfolding eq by (simp only: distinct_map)
  moreover have "map drKey (filter (\<lambda>d. src = [] \<or> drSourceID d = src) (map snd (loDets ord (lmDets m)))) = map (\<lambda>(k, d). drKey d) ?ys"
    using assms(3) by (simp add: filter_map comp_def case_prod_unfold)
  ultimately show ?thesis by simp
qed

lemma sorted_newest_first: "sorted_wrt (\<lambda>a b. drLastAt b \<le> drLastAt a) (sort_key (\<lambda>d. - drLastAt d) ds)"
  using sorted_sort_key [of "\<lambda>d. - drLastAt d" ds] by (simp add: sorted_map)

lemma distinct_sort_key: "distinct (map f (sort_key g xs)) = distinct (map f xs)"
  by (metis mset_eq_imp_distinct_iff mset_map mset_sort)

lemma LMem_detection_store:
  assumes "iteration_order (loDets ord)"
  shows "detection_store (LMem_ops ord) lmem_invar nul_free lmem_look"
proof (unfold_locales, goal_cases)
  case (1 s src k r)
  then show ?case by (rule lmem_look_key)
next
  case (2 s d s')
  obtain r where "s' = s\<lparr>lmDets := map_put (detKey (drSourceID d) (drKey d)) r (lmDets s)\<rparr>"
    "drSourceID r = drSourceID d" "drKey r = drKey d"
    using LMem_Upsert_put [of s d] 2(3) by (auto simp: LMem_ops_def)
  then show ?case using lmem_invar_put [OF 2(1), of r] 2(2) by simp
next
  case (3 s src d s' k)
  then show ?case using LMem_Upsert_put [of s d] by (auto simp: LMem_ops_def lmem_look_def gomap_simps detKey_inj)
next
  case (4 s d s')
  then show ?case using LMem_Upsert_put [of s d] by (auto simp: LMem_ops_def lmem_look_def gomap_simps)
next
  case (5 s src rs)
  then have "rs = sort_key (\<lambda>d. - drLastAt d) (filter (\<lambda>d. src = [] \<or> drSourceID d = src) (map snd (loDets ord (lmDets s))))"
    by (simp add: LMem_ops_def LMem_ListDetections_def)
  then show ?case
    using lmem_distinct [OF assms 5(1,3)] lmem_members [OF assms 5(1-3)] sorted_newest_first
    by (simp only: distinct_sort_key set_sort) blast
next
  case (6 s src before s' k)
  then have s': "s' = s\<lparr>lmDets := filter (\<lambda>(k, d). \<not> Before (drLastAt d) before) (lmDets s)\<rparr>"
    by (simp add: LMem_ops_def LMem_PruneDetections_def)
  have wf: "wf_map (lmDets s)" using 6(1) by (simp add: lmem_invar_def)
  then have "lmem_invar s'" using 6(1) s' by (auto simp: lmem_invar_def)
  moreover have "lmem_look s' src k = (case lmem_look s src k of None \<Rightarrow> None | Some r \<Rightarrow> if drLastAt r < before then None else Some r)"
    using s' map_of_filter_wf [OF wf] by (auto simp: lmem_look_def Before_def split: option.split)
  ultimately show ?case by blast
qed

interpretation lmem: detection_store "LMem_ops \<lparr>loSources = (\<lambda>xs. xs), loDets = (\<lambda>xs. xs)\<rparr>" lmem_invar nul_free lmem_look
  by (rule LMem_detection_store) simp

definition lsql_invar :: "LSQLiteStore \<Rightarrow> bool" where
  "lsql_invar s \<longleftrightarrow> distinct (map (\<lambda>w. (dwSource w, dwKey w)) (tblDets s))"

definition lsql_look :: "lsql_env \<Rightarrow> LSQLiteStore \<Rightarrow> string \<Rightarrow> string \<Rightarrow> DetectionRecord option" where
  "lsql_look env s src k = map_option (scanDetection env) (find (\<lambda>w. (dwSource w, dwKey w) = (src, k)) (tblDets s))"

lemma lsql_look_iff:
  assumes "lsql_invar s"
  shows "lsql_look env s src k = Some r \<longleftrightarrow> (\<exists>w\<in>set (tblDets s). (dwSource w, dwKey w) = (src, k) \<and> r = scanDetection env w)"
  using find_unique_key [of "\<lambda>w. (dwSource w, dwKey w)" "tblDets s" "(src, k)"] assms
  by (auto simp: lsql_look_def lsql_invar_def)

lemma scanDetection_simps [simp]:
  "drSourceID (scanDetection env w) = dwSource w" "drKey (scanDetection env w) = dwKey w" "drLastAt (scanDetection env w) = dwLast w"
  by (simp_all add: scanDetection_def)

lemma det_update_key: "(dwSource (det_update n w), dwKey (det_update n w)) = (dwSource w, dwKey w)"
  by (simp add: det_update_def)

lemma put_det_row_upsert:
  "put_det_row n ws = (if list_ex (\<lambda>w. (dwSource w, dwKey w) = (dwSource n, dwKey n)) ws
     then map (\<lambda>w. if (dwSource w, dwKey w) = (dwSource n, dwKey n) then det_update n w else w) ws else ws @ [n])"
proof -
  have "same_det n = (\<lambda>w. (dwSource w, dwKey w) = (dwSource n, dwKey n))" by (auto simp: same_det_def fun_eq_iff)
  then show ?thesis by (simp only: put_det_row_def)
qed

lemma LSql_Upsert_ok:
  "LSql_UpsertDetection env s d = (None, s') \<Longrightarrow> s' = s\<lparr>tblDets := put_det_row (det_row_of env d) (tblDets s)\<rparr>"
  by (auto simp: LSql_UpsertDetection_def split: option.splits)

lemma LSql_Upsert_look:
  assumes "LSql_UpsertDetection env s d = (None, s')"
  shows "lsql_look env s' src k =
    (if (src, k) = (drSourceID d, drKey d)
     then Some (scanDetection env (case find (\<lambda>w. (dwSource w, dwKey w) = (src, k)) (tblDets s) of
                  None \<Rightarrow> det_row_of env d | Some w \<Rightarrow> det_update (det_row_of env d) w))
     else lsql_look env s src k)"
proof -
  have "(dwSource (det_row_of env d), dwKey (det_row_of env d)) = (drSourceID d, drKey d)" by (simp add: det_row_of_def)
  then show ?thesis
    unfolding lsql_look_def LSql_Upsert_ok [OF assms]
    using find_upsert [of "\<lambda>w. (dwSource w, dwKey w)" "det_update (det_row_of env d)" "(src, k)" "det_row_of env d" "tblDets s"]
      det_update_key [of "det_row_of env d"]
    by (simp add: put_det_row_upsert)
qed

lemma LSql_detection_store:
  assumes "iteration_order (leDetOrder env)"
  shows "detection_store (LSql_ops env) lsql_invar (\<lambda>_. True) (lsql_look env)"
proof (unfold_locales, goal_cases)
  case (1 s src k r)
  then show ?case by (auto simp: lsql_look_iff)
next
  case (2 s d s')
  then show ?case
    using LSql_Upsert_ok [of env s d s'] distinct_upsert [of "\<lambda>w. (dwSource w, dwKey w)" "det_update (det_row_of env d)" "tblDets s" "det_row_of env d"]
      det_update_key [of "det_row_of env d"]
    by (simp add: LSql_ops_def lsql_invar_def put_det_row_upsert)
next
  case (3 s src d s' k)
  then show ?case using LSql_Upsert_look [of env s d s' src k] by (auto simp: LSql_ops_def)
next
  case (4 s d s')
  let ?F = "find (\<lambda>w. (dwSource w, dwKey w) = (drSourceID d, drKey d)) (tblDets s)"
  have new: "carries d None (scanDetection env (det_row_of env d))"
    by (simp add: carries_def scanDetection_def det_row_of_def)
  have old: "carries d (Some (scanDetection env w)) (scanDetection env (det_update (det_row_of env d) w))"
    if "dwSource w = drSourceID d" "dwKey w = drKey d" for w
    using that by (simp add: carries_def scanDetection_def det_row_of_def det_update_def)
  have U: "lsql_look env s' (drSourceID d) (drKey d) =
      Some (scanDetection env (case ?F of None \<Rightarrow> det_row_of env d | Some w \<Rightarrow> det_update (det_row_of env d) w))"
    using LSql_Upsert_look [of env s d s' "drSourceID d" "drKey d"] 4(3) by (simp add: LSql_ops_def)
  show ?case
  proof (cases ?F)
    case None
    then have "lsql_look env s (drSourceID d) (drKey d) = None" by (simp add: lsql_look_def)
    with None U new show ?thesis by simp
  next
    case (Some w)
    then have "dwSource w = drSourceID d" "dwKey w = drKey d" by (auto simp: find_Some_iff)
    moreover have "lsql_look env s (drSourceID d) (drKey d) = Some (scanDetection env w)" using Some by (simp add: lsql_look_def)
    ultimately show ?thesis using U old [of w] Some by simp
  qed
next
  case (5 s src rs)
  let ?ws = "filter (\<lambda>w. src = [] \<or> dwSource w = src) (tblDets s)"
  have rs: "rs = map (scanDetection env) (sort_key (\<lambda>w. - dwLast w) (leDetOrder env ?ws))"
    using 5(4) by (auto simp: LSql_ops_def LSql_ListDetections_def split: option.splits)
  have "distinct (map dwKey ?ws)"
  proof -
    have "distinct (map (\<lambda>w. (dwSource w, dwKey w)) ?ws)" using 5(1) by (simp add: lsql_invar_def distinct_map_filter)
    then show ?thesis using 5(3) by (auto simp: distinct_map inj_on_def)
  qed
  moreover have "mset (map dwKey (leDetOrder env ?ws)) = mset (map dwKey ?ws)"
    using assms by (simp add: iteration_order_def)
  ultimately have "distinct (map dwKey (leDetOrder env ?ws))" using mset_eq_imp_distinct_iff by blast
  then have "distinct (map drKey rs)" unfolding rs by (simp add: comp_def distinct_sort_key)
  moreover have "r \<in> set rs \<longleftrightarrow> lsql_look env s src (drKey r) = Some r" for r
  proof -
    have "r \<in> set rs \<longleftrightarrow> (\<exists>w\<in>set (tblDets s). dwSource w = src \<and> r = scanDetection env w)"
      unfolding rs set_map set_sort iteration_order_set [OF assms] using 5(3) by auto
    also have "\<dots> \<longleftrightarrow> lsql_look env s src (drKey r) = Some r"
      unfolding lsql_look_iff [OF 5(1)] by auto
    finally show ?thesis .
  qed
  moreover have "sorted_wrt (\<lambda>a b. drLastAt b \<le> drLastAt a) rs"
    unfolding rs using sorted_sort_key [of "\<lambda>w. - dwLast w" "leDetOrder env ?ws"]
    by (simp add: sorted_map sorted_wrt_map)
  ultimately show ?case by blast
next
  case (6 s src before s' k)
  then have s': "s' = s\<lparr>tblDets := filter (\<lambda>w. \<not> dwLast w < before) (tblDets s)\<rparr>"
    by (auto simp: LSql_ops_def LSql_PruneDetections_def split: option.splits)
  have inv: "lsql_invar s'" using 6(1) s' by (simp add: lsql_invar_def distinct_map_filter)
  have "set (tblDets s') = {w \<in> set (tblDets s). \<not> dwLast w < before}" using s' by simp
  then have "lsql_look env s' src k = Some r \<longleftrightarrow> lsql_look env s src k = Some r \<and> \<not> drLastAt r < before" for r
    unfolding lsql_look_iff [OF inv] lsql_look_iff [OF 6(1)] by auto
  from option_filtered [OF this] inv show ?case by blast
qed

definition lsql_plain :: lsql_env where
  "lsql_plain = \<lparr>leParams = (\<lambda>_. ''{}''), leReadParams = (\<lambda>_. Some Map.empty), leEvidence = (\<lambda>_. ''[]''), leReadEvidence = (\<lambda>_. Some []),
     leQuery = None, leExec = None, leExec2 = None, leNow = 0, leDetOrder = (\<lambda>ws. ws)\<rparr>"

interpretation lsql: detection_store "LSql_ops lsql_plain" lsql_invar "\<lambda>_. True" "lsql_look lsql_plain"
  by (rule LSql_detection_store) (simp add: lsql_plain_def)

text \<open>The two stores differ on purpose-free details: a recurrence keeps the first target and actor in
  SQL and takes the new ones in memory, and deleting a source drops its detections in SQL only.\<close>

lemma upsert_target_differs:
  assumes "drTarget d \<noteq> drTarget d'" and "drSourceID d = drSourceID d'" and "drKey d = drKey d'"
  shows "let s = snd (LSql_UpsertDetection lsql_plain (snd (LSql_UpsertDetection lsql_plain \<lparr>tblSources = [], tblDets = []\<rparr> d)) d');
             m = snd (LMem_UpsertDetection (snd (LMem_UpsertDetection NewLMemStore d)) d')
         in map_option drTarget (lsql_look lsql_plain s (drSourceID d) (drKey d)) = Some (drTarget d) \<and>
            map_option drTarget (lmem_look m (drSourceID d) (drKey d)) = Some (drTarget d')"
  using assms
  by (simp add: LSql_UpsertDetection_def lsql_plain_def put_det_row_def same_det_def det_row_of_def det_update_def
      lsql_look_def scanDetection_def LMem_UpsertDetection_def NewLMemStore_def lmem_look_def Let_def)

lemma deleted_source_keeps_detections_in_memory:
  "lmem_look (snd (LMem_DeleteSource m src)) src k = lmem_look m src k"
  "leExec env = None \<Longrightarrow> leExec2 env = None \<Longrightarrow> lsql_look env (snd (LSql_DeleteSource env s src)) src k = None"
  by (auto simp: lmem_look_def LMem_DeleteSource_def lsql_look_def LSql_DeleteSource_def find_None_iff Let_def)

end
