(* ===== verification/Sched.thy ===== *)
theory Sched
  imports Reconcile Float64
begin

text \<open>
  sched/scheduler.go: the scan loop. The registry operations (\<open>Register\<close>, \<open>AddTarget\<close>,
  \<open>RemoveTarget\<close>, \<open>Start\<close>, \<open>Stop\<close>, \<open>ScanNow\<close>, \<open>ListTargets\<close>) are functions on the record
  \<open>Scheduler\<close>; the ones that start goroutines also return the scan tasks they start. The
  collector is a record of its \<^verbatim>\<open>Describe\<close> value and its \<^verbatim>\<open>ValidateTarget\<close>; what \<^verbatim>\<open>Collect\<close> returned
  is an argument of \<open>scanOne\<close>. Errors are compared as \<^verbatim>\<open>errors.Is\<close> does on unwrapped values.

  \<open>sched_step\<close> interleaves the goroutines: a task waits for a slot of the worker pool, runs, and
  ends with an arbitrary error or none, at an arbitrary time; a loop task then updates the
  backoff state of its module loop under the lock. The log of a run records what was started and
  how it ended, and the invariant \<open>sched_inv\<close> relates the loop state to it.
\<close>

subsection \<open>Configuration\<close>

record Config =
  cfWorkers :: int
  cfScanTimeout :: duration
  cfJitterFraction :: f64
  cfRetryBase :: duration
  cfRetryMax :: duration
  cfIntervalOverride :: duration

definition withDefaults :: "Config \<Rightarrow> Config" where
  "withDefaults c =
     (let c = (if cfWorkers c \<le> 0 then c\<lparr>cfWorkers := 8\<rparr> else c);
          c = (if cfScanTimeout c \<le> 0 then c\<lparr>cfScanTimeout := 30 * second\<rparr> else c);
          c = (if f64_lt (cfJitterFraction c) (Fin 0) \<or> cfJitterFraction c = Fin 0 \<or> f64_lt (Fin 1) (cfJitterFraction c)
               then c\<lparr>cfJitterFraction := f64_round (1 / 10)\<rparr> else c);
          c = (if cfRetryBase c \<le> 0 then c\<lparr>cfRetryBase := 30 * second\<rparr> else c)
      in if cfRetryMax c \<le> 0 then c\<lparr>cfRetryMax := 15 * minute\<rparr> else c)"

record Result =
  rsModule :: string
  rsTarget :: Target
  rsReconcile :: ReconcileResult
  rsDuration :: duration

record ScanError =
  seModule :: string
  seTarget :: Target
  seErr :: error
  seAttempt :: int
  seNextTry :: duration

subsection \<open>The registry\<close>

record Collector =
  clDescribe :: ModuleInfo
  clValidateTarget :: "string \<Rightarrow> error + Target"

record registration =
  rgCollector :: Collector
  rgInfo :: ModuleInfo
  rgTargets :: "(string, Target) gomap"

record Scheduler =
  sdCfg :: Config
  sdModules :: "(string, registration) gomap"
  sdStarted :: bool
  sdCanceled :: bool

definition New :: "Config \<Rightarrow> Scheduler" where
  "New cfg = \<lparr>sdCfg = withDefaults cfg, sdModules = [], sdStarted = False, sdCanceled = False\<rparr>"

definition Register :: "Collector \<Rightarrow> Scheduler \<Rightarrow> error option \<times> Scheduler" where
  "Register c s =
     (let info = clDescribe c
      in if mID info = [] then (Some (Errorf ''collector ModuleInfo.ID must not be empty''), s)
         else if map_of (sdModules s) (mID info) \<noteq> None
         then (Some (Errorf (''module already registered: '' @ mID info)), s)
         else (None, s\<lparr>sdModules := map_put (mID info)
                 \<lparr>rgCollector = c, rgInfo = info, rgTargets = []\<rparr> (sdModules s)\<rparr>))"

text \<open>A scan started as a goroutine. Only the scans of a module loop are counted for backoff; the
  immediate scan of a new target and the scans of \<open>ScanNow\<close> are not.\<close>

datatype origin = FromLoop | FromAdd | FromScanNow

record task =
  tkModule :: string
  tkTarget :: Target
  tkOrigin :: origin
  tkRunning :: bool

definition new_task :: "string \<Rightarrow> origin \<Rightarrow> Target \<Rightarrow> task" where
  "new_task m src t = \<lparr>tkModule = m, tkTarget = t, tkOrigin = src, tkRunning = False\<rparr>"

definition put_target :: "string \<Rightarrow> registration \<Rightarrow> Target \<Rightarrow> Scheduler \<Rightarrow> Scheduler" where
  "put_target m reg t s =
     s\<lparr>sdModules := map_put m (reg\<lparr>rgTargets := map_put (tCanonical t) t (rgTargets reg)\<rparr>) (sdModules s)\<rparr>"

definition AddTarget :: "string \<Rightarrow> string \<Rightarrow> Scheduler \<Rightarrow> (error + Target) \<times> Scheduler \<times> task list" where
  "AddTarget m raw s =
     (case map_of (sdModules s) m of
        None \<Rightarrow> (Inl (Errorf (''unknown module: '' @ m)), s, [])
      | Some reg \<Rightarrow>
          (case clValidateTarget (rgCollector reg) raw of
             Inl err \<Rightarrow> (Inl err, s, [])
           | Inr t \<Rightarrow>
               (Inr t, put_target m reg t s,
                if sdStarted s \<and> \<not> sdCanceled s then [new_task m FromAdd t] else [])))"

definition RemoveTarget :: "string \<Rightarrow> string \<Rightarrow> Scheduler \<Rightarrow> Scheduler" where
  "RemoveTarget m canonical s =
     (case map_of (sdModules s) m of
        None \<Rightarrow> s
      | Some reg \<Rightarrow> s\<lparr>sdModules := map_put m (reg\<lparr>rgTargets := map_del canonical (rgTargets reg)\<rparr>) (sdModules s)\<rparr>)"

text \<open>\<open>Start\<close> also returns the modules whose loops it starts.\<close>

definition Start :: "Scheduler \<Rightarrow> error option \<times> Scheduler \<times> string list" where
  "Start s =
     (if sdStarted s then (Some (Errorf ''scheduler already started''), s, [])
      else (None, s\<lparr>sdStarted := True\<rparr>, map fst (sdModules s)))"

definition Stop :: "Scheduler \<Rightarrow> Scheduler" where
  "Stop s = (if sdStarted s then s\<lparr>sdCanceled := True\<rparr> else s)"

type_synonym target_order = "(string \<times> Target) list \<Rightarrow> (string \<times> Target) list"

definition snapshotTargets :: "target_order \<Rightarrow> registration \<Rightarrow> Target list" where
  "snapshotTargets iter reg = map snd (iter (rgTargets reg))"

definition ListTargets :: "target_order \<Rightarrow> Scheduler \<Rightarrow> string \<Rightarrow> Target list" where
  "ListTargets iter s m =
     (case map_of (sdModules s) m of None \<Rightarrow> [] | Some reg \<Rightarrow> snapshotTargets iter reg)"

definition ScanNow :: "target_order \<Rightarrow> Scheduler \<Rightarrow> string \<Rightarrow> error + task list" where
  "ScanNow iter s m =
     (case map_of (sdModules s) m of
        None \<Rightarrow> Inl (Errorf (''unknown module: '' @ m))
      | Some reg \<Rightarrow> Inr (map (new_task m FromScanNow) (snapshotTargets iter reg)))"

subsection \<open>Timing\<close>

text \<open>The loop of \<open>backoffFor\<close>, with the number of rounds still to go; \<^verbatim>\<open>d *= 2\<close> wraps.\<close>

fun backoff_loop :: "duration \<Rightarrow> nat \<Rightarrow> duration \<Rightarrow> duration" where
  "backoff_loop mx 0 d = (if d > mx then mx else d)"
| "backoff_loop mx (Suc k) d =
     (let d = wrap64 (d * 2) in if d \<ge> mx then mx else backoff_loop mx k d)"

definition backoffFor :: "Config \<Rightarrow> int \<Rightarrow> duration" where
  "backoffFor cfg consecutive = backoff_loop (cfRetryMax cfg) (nat (consecutive - 1)) (cfRetryBase cfg)"

text \<open>\<open>rnd\<close> is the value of \<^verbatim>\<open>s.rng.Float64()\<close>.\<close>

definition jittered :: "Config \<Rightarrow> f64 \<Rightarrow> duration \<Rightarrow> duration" where
  "jittered cfg rnd d =
     (let f = f64_add (Fin 1) (f64_mul (cfJitterFraction cfg) (f64_sub rnd (Fin (1 / 2))))
      in f64_to_int64 (f64_mul (f64_of_int d) f))"

definition module_interval :: "Config \<Rightarrow> registration \<Rightarrow> duration" where
  "module_interval cfg reg =
     (let interval = mDefaultInterval (rgInfo reg);
          interval = (if cfIntervalOverride cfg > 0 then cfIntervalOverride cfg else interval)
      in if interval \<le> 0 then hour else interval)"

subsection \<open>The module loop\<close>

record loopState =
  lpFailures :: "string \<rightharpoonup> int"
  lpNextOK :: "string \<rightharpoonup> time"

definition new_loop :: loopState where
  "new_loop = \<lparr>lpFailures = Map.empty, lpNextOK = Map.empty\<rparr>"

definition gate :: "loopState \<Rightarrow> string \<Rightarrow> time" where
  "gate ls c = (case lpNextOK ls c of None \<Rightarrow> zero_time | Some t \<Rightarrow> t)"

definition failures :: "loopState \<Rightarrow> string \<Rightarrow> int" where
  "failures ls c = (case lpFailures ls c of None \<Rightarrow> 0 | Some n \<Rightarrow> n)"

text \<open>The targets a sweep starts; \<open>clock\<close> is the time read when a target is looked at.\<close>

definition sweep :: "target_order \<Rightarrow> (string \<Rightarrow> time) \<Rightarrow> registration \<Rightarrow> loopState \<Rightarrow> Target list" where
  "sweep iter clock reg ls =
     filter (\<lambda>t. \<not> Before (clock (tCanonical t)) (gate ls (tCanonical t))) (snapshotTargets iter reg)"

definition scan_done ::
    "Config \<Rightarrow> time \<Rightarrow> string \<Rightarrow> Target \<Rightarrow> error option \<Rightarrow> loopState \<Rightarrow> ScanError option \<times> loopState" where
  "scan_done cfg now m t err ls =
     (let c = tCanonical t in
      case err of
        Some e \<Rightarrow>
          if e \<noteq> ContextCanceled then
            (let n = failures ls c + 1; backoff = backoffFor cfg n
             in (Some \<lparr>seModule = m, seTarget = t, seErr = e, seAttempt = n, seNextTry = backoff\<rparr>,
                 ls\<lparr>lpFailures := (lpFailures ls)(c \<mapsto> n), lpNextOK := (lpNextOK ls)(c \<mapsto> Add now backoff)\<rparr>))
          else (None, ls\<lparr>lpFailures := (lpFailures ls)(c \<mapsto> 0), lpNextOK := (lpNextOK ls)(c \<mapsto> zero_time)\<rparr>)
      | None \<Rightarrow> (None, ls\<lparr>lpFailures := (lpFailures ls)(c \<mapsto> 0), lpNextOK := (lpNextOK ls)(c \<mapsto> zero_time)\<rparr>))"

text \<open>One scan once it has its slot: \<open>collected\<close> is what \<^verbatim>\<open>Collect\<close> returned.\<close>

definition scanOne ::
    "'s Store \<Rightarrow> (evidence \<Rightarrow> error + string) \<Rightarrow> (nat \<Rightarrow> error + string) \<Rightarrow> time \<Rightarrow> duration
      \<Rightarrow> registration \<Rightarrow> Target \<Rightarrow> error + Finding list \<Rightarrow> 's \<Rightarrow> error option \<times> Result option \<times> 's" where
  "scanOne ops marshal newID now since reg t collected st =
     (case collected of
        Inl err \<Rightarrow> (Some err, None, st)
      | Inr findings \<Rightarrow>
          (case Reconcile ops marshal newID now (rgInfo reg) (tCanonical t) findings st of
             (_, Some err, st') \<Rightarrow> (Some err, None, st')
           | (res, None, st') \<Rightarrow>
               (None, Some \<lparr>rsModule = mID (rgInfo reg), rsTarget = t, rsReconcile = res, rsDuration = since\<rparr>, st')))"

subsection \<open>Backoff\<close>

lemma backoff_loop_exact:
  "0 < d \<Longrightarrow> d < 2 ^ 62 \<Longrightarrow> mx \<le> 2 ^ 62 \<Longrightarrow> backoff_loop mx k d = min mx (d * 2 ^ k)"
proof (induction k arbitrary: d)
  case (Suc k)
  have w: "wrap64 (d * 2) = d * 2"
    using Suc.prems by (intro wrap64_id) (auto simp: minInt64_def maxInt64_def)
  show ?case
  proof (cases "d * 2 \<ge> mx")
    case True
    have "d * 2 * 1 \<le> d * 2 * 2 ^ k" using Suc.prems(1) by (intro mult_left_mono) auto
    with True have "mx \<le> d * 2 ^ Suc k" by (simp add: algebra_simps)
    with True w show ?thesis by (simp add: Let_def)
  next
    case False
    then show ?thesis using Suc.IH [of "d * 2"] Suc.prems w by (simp add: Let_def algebra_simps)
  qed
qed simp

lemma withDefaults_pos:
  "0 < cfWorkers (withDefaults c)" "0 < cfRetryBase (withDefaults c)" "0 < cfRetryMax (withDefaults c)"
  by (simp_all add: withDefaults_def Let_def second_def minute_def)

text \<open>The retry delay doubles with every consecutive failure and is capped: with the (defaulted)
  configuration and limits below \<open>2 ^ 62\<close> nanoseconds, the loop with its early return computes
  exactly the minimum of \<open>RetryMax\<close> and \<open>RetryBase\<close> doubled once per failure after the first; it is
  always positive and never decreases from one failure to the next.\<close>

theorem backoffFor_exact:
  assumes "cfg = withDefaults c" and "cfRetryBase cfg < 2 ^ 62" and "cfRetryMax cfg \<le> 2 ^ 62" and "1 \<le> n"
  shows "backoffFor cfg n = min (cfRetryMax cfg) (cfRetryBase cfg * 2 ^ nat (n - 1)) \<and>
    0 < backoffFor cfg n \<and> backoffFor cfg n \<le> backoffFor cfg (n + 1)"
proof -
  have pos: "0 < cfRetryBase cfg" "0 < cfRetryMax cfg" using withDefaults_pos assms(1) by auto
  have ex: "backoffFor cfg k = min (cfRetryMax cfg) (cfRetryBase cfg * 2 ^ nat (k - 1))" for k
    by (simp add: backoffFor_def backoff_loop_exact [OF pos(1) assms(2,3)])
  have "(2 :: int) ^ nat (n - 1) \<le> 2 ^ nat (n + 1 - 1)" by (intro power_increasing) auto
  then have "cfRetryBase cfg * 2 ^ nat (n - 1) \<le> cfRetryBase cfg * 2 ^ nat (n + 1 - 1)"
    using pos(1) by (intro mult_left_mono) auto
  then have "backoffFor cfg n \<le> backoffFor cfg (n + 1)"
    unfolding ex by (rule min.mono [OF order_refl])
  then show ?thesis using ex [of n] pos by simp
qed

definition ex_config :: Config where
  "ex_config = \<lparr>cfWorkers = 1, cfScanTimeout = 0, cfJitterFraction = Fin 0, cfRetryBase = 2, cfRetryMax = 9, cfIntervalOverride = 0\<rparr>"

lemma ex_config_defaults: "cfRetryBase (withDefaults ex_config) = 2" "cfRetryMax (withDefaults ex_config) = 9"
  "cfWorkers (withDefaults ex_config) = 1"
  by (simp_all add: withDefaults_def ex_config_def Let_def)

theorem backoffFor_exact_witness:
  "map (backoffFor (withDefaults ex_config)) [1, 2, 3, 4] = [2, 4, 8, 9]"
  using backoffFor_exact [OF refl, of ex_config 1] backoffFor_exact [OF refl, of ex_config 2]
    backoffFor_exact [OF refl, of ex_config 3] backoffFor_exact [OF refl, of ex_config 4]
  by (simp add: ex_config_defaults)

subsection \<open>Interleavings\<close>

datatype sevent =
    Started string string time
  | Failed ScanError time
  | Passed string string

record sys =
  sySched :: Scheduler
  syLoops :: "string \<rightharpoonup> loopState"
  syTasks :: "task list"
  syLog :: "sevent list"

text \<open>The end of the goroutine of a task at time \<open>now\<close>; the log has the newest event first.\<close>

definition end_task :: "time \<Rightarrow> task \<Rightarrow> error option \<Rightarrow> sys \<Rightarrow> sys" where
  "end_task now tk err y =
     (case (tkOrigin tk, syLoops y (tkModule tk)) of
        (FromLoop, Some ls) \<Rightarrow>
          (case scan_done (sdCfg (sySched y)) now (tkModule tk) (tkTarget tk) err ls of
             (rep, ls') \<Rightarrow>
               y\<lparr>syLoops := (syLoops y)(tkModule tk \<mapsto> ls'),
                 syLog := (case rep of Some e \<Rightarrow> Failed e now | None \<Rightarrow> Passed (tkModule tk) (tCanonical (tkTarget tk))) # syLog y\<rparr>)
      | _ \<Rightarrow> y)"

definition running :: "sys \<Rightarrow> nat" where
  "running y = length (filter tkRunning (syTasks y))"

inductive sched_step :: "sys \<Rightarrow> sys \<Rightarrow> bool" where
  registered: "Register c (sySched y) = (err, s) \<Longrightarrow> sched_step y (y\<lparr>sySched := s\<rparr>)"
| added: "AddTarget m raw (sySched y) = (res, s, ts) \<Longrightarrow> sched_step y (y\<lparr>sySched := s, syTasks := syTasks y @ ts\<rparr>)"
| removed: "sched_step y (y\<lparr>sySched := RemoveTarget m c (sySched y)\<rparr>)"
| started: "Start (sySched y) = (err, s, ms) \<Longrightarrow>
    sched_step y (y\<lparr>sySched := s, syLoops := (\<lambda>m. if m \<in> set ms then Some new_loop else syLoops y m)\<rparr>)"
| stopped: "sched_step y (y\<lparr>sySched := Stop (sySched y)\<rparr>)"
| scan_now: "ScanNow iter (sySched y) m = Inr ts \<Longrightarrow> sched_step y (y\<lparr>syTasks := syTasks y @ ts\<rparr>)"
| swept: "syLoops y m = Some ls \<Longrightarrow> map_of (sdModules (sySched y)) m = Some reg \<Longrightarrow> iteration_order iter \<Longrightarrow>
    ts = sweep iter clock reg ls \<Longrightarrow>
    sched_step y (y\<lparr>syTasks := syTasks y @ map (new_task m FromLoop) ts,
      syLog := rev (map (\<lambda>t. Started m (tCanonical t) (clock (tCanonical t))) ts) @ syLog y\<rparr>)"
| acquired: "syTasks y = us @ tk # vs \<Longrightarrow> \<not> tkRunning tk \<Longrightarrow> int (running y) < cfWorkers (sdCfg (sySched y)) \<Longrightarrow>
    sched_step y (y\<lparr>syTasks := us @ tk\<lparr>tkRunning := True\<rparr> # vs\<rparr>)"
| gave_up: "syTasks y = us @ tk # vs \<Longrightarrow> \<not> tkRunning tk \<Longrightarrow> tkOrigin tk = FromScanNow \<or> sdCanceled (sySched y) \<Longrightarrow>
    err \<in> {ContextCanceled, DeadlineExceeded} \<Longrightarrow>
    sched_step y (end_task now tk (Some err) (y\<lparr>syTasks := us @ vs\<rparr>))"
| finished: "syTasks y = us @ tk # vs \<Longrightarrow> tkRunning tk \<Longrightarrow>
    sched_step y (end_task now tk err (y\<lparr>syTasks := us @ vs\<rparr>))"

inductive sched_reach :: "Config \<Rightarrow> sys \<Rightarrow> bool" for cfg where
  init: "sched_reach cfg \<lparr>sySched = New cfg, syLoops = Map.empty, syTasks = [], syLog = []\<rparr>"
| step: "sched_reach cfg y \<Longrightarrow> sched_step y y' \<Longrightarrow> sched_reach cfg y'"

text \<open>What the log says of a target: its failures since the last scan that did not fail, and the
  time before which it may not be scanned again.\<close>

fun consecutive :: "sevent list \<Rightarrow> string \<Rightarrow> string \<Rightarrow> nat" where
  "consecutive [] m c = 0"
| "consecutive (Started _ _ _ # lg) m c = consecutive lg m c"
| "consecutive (Failed e t # lg) m c =
     (if seModule e = m \<and> tCanonical (seTarget e) = c then Suc (consecutive lg m c) else consecutive lg m c)"
| "consecutive (Passed m' c' # lg) m c = (if m' = m \<and> c' = c then 0 else consecutive lg m c)"

fun not_before :: "sevent list \<Rightarrow> string \<Rightarrow> string \<Rightarrow> time" where
  "not_before [] m c = zero_time"
| "not_before (Started _ _ _ # lg) m c = not_before lg m c"
| "not_before (Failed e t # lg) m c =
     (if seModule e = m \<and> tCanonical (seTarget e) = c then Add t (seNextTry e) else not_before lg m c)"
| "not_before (Passed m' c' # lg) m c = (if m' = m \<and> c' = c then zero_time else not_before lg m c)"

fun event_ok :: "Config \<Rightarrow> sevent \<Rightarrow> sevent list \<Rightarrow> bool" where
  "event_ok cfg (Started m c t) lg \<longleftrightarrow> not_before lg m c \<le> t"
| "event_ok cfg (Failed e t) lg \<longleftrightarrow> seErr e \<noteq> ContextCanceled \<and>
     seAttempt e = int (Suc (consecutive lg (seModule e) (tCanonical (seTarget e)))) \<and>
     seNextTry e = backoffFor cfg (seAttempt e)"
| "event_ok cfg (Passed m c) lg \<longleftrightarrow> True"

fun log_ok :: "Config \<Rightarrow> sevent list \<Rightarrow> bool" where
  "log_ok cfg [] \<longleftrightarrow> True"
| "log_ok cfg (ev # lg) \<longleftrightarrow> event_ok cfg ev lg \<and> log_ok cfg lg"

definition loops_ok :: "sys \<Rightarrow> bool" where
  "loops_ok y \<longleftrightarrow> (\<forall>m ls. syLoops y m = Some ls \<longrightarrow>
     (\<forall>c. failures ls c = int (consecutive (syLog y) m c) \<and> gate ls c = not_before (syLog y) m c))"

definition sched_inv :: "Config \<Rightarrow> sys \<Rightarrow> bool" where
  "sched_inv cfg y \<longleftrightarrow> sdCfg (sySched y) = withDefaults cfg \<and> int (running y) \<le> cfWorkers (withDefaults cfg) \<and>
     (\<not> sdStarted (sySched y) \<longrightarrow> syLoops y = Map.empty \<and> syLog y = []) \<and> loops_ok y \<and>
     log_ok (withDefaults cfg) (syLog y)"

lemma registry_keeps:
  "Register c s = (err, s') \<Longrightarrow> sdCfg s' = sdCfg s \<and> sdStarted s' = sdStarted s"
  "AddTarget m raw s = (res, s', ts) \<Longrightarrow> sdCfg s' = sdCfg s \<and> sdStarted s' = sdStarted s \<and> filter tkRunning ts = []"
  "sdCfg (RemoveTarget m x s) = sdCfg s" "sdStarted (RemoveTarget m x s) = sdStarted s"
  "sdCfg (Stop s) = sdCfg s" "sdStarted (Stop s) = sdStarted s"
  "ScanNow iter s m = Inr ts \<Longrightarrow> filter tkRunning ts = []"
  by (auto simp: Register_def AddTarget_def RemoveTarget_def Stop_def ScanNow_def put_target_def new_task_def Let_def
      filter_empty_conv split: if_splits option.splits sum.splits)

lemma Start_keeps:
  "Start s = (err, s', ms) \<Longrightarrow> sdCfg s' = sdCfg s \<and> sdStarted s' \<and> (sdStarted s \<longrightarrow> ms = [])"
  by (auto simp: Start_def split: if_splits)

lemma loops_ok_new: "syLog y = [] \<Longrightarrow> syLoops y = Map.empty \<Longrightarrow>
    loops_ok (y\<lparr>sySched := s, syLoops := (\<lambda>m. if m \<in> set ms then Some new_loop else syLoops y m)\<rparr>)"
  by (simp add: loops_ok_def new_loop_def failures_def gate_def)

lemma started_log:
  "consecutive (rev (map (\<lambda>t. Started m (f t) (g t)) ts) @ lg) m' c = consecutive lg m' c"
  "not_before (rev (map (\<lambda>t. Started m (f t) (g t)) ts) @ lg) m' c = not_before lg m' c"
  by (induction ts rule: rev_induct) auto

lemma started_log_ok:
  "log_ok cfg lg \<Longrightarrow> \<forall>t\<in>set ts. not_before lg m (f t) \<le> g t \<Longrightarrow>
     log_ok cfg (rev (map (\<lambda>t. Started m (f t) (g t)) ts) @ lg)"
  by (induction ts rule: rev_induct) (auto simp: started_log)

text \<open>The end of a task adds one event, correct with respect to the log before it.\<close>

lemma end_task_inv:
  assumes "sched_inv cfg y" and "int (length (filter tkRunning ts)) \<le> cfWorkers (withDefaults cfg)"
  shows "sched_inv cfg (end_task now tk err (y\<lparr>syTasks := ts\<rparr>))"
proof (cases "tkOrigin tk = FromLoop \<and> syLoops y (tkModule tk) \<noteq> None")
  case False
  then have "end_task now tk err (y\<lparr>syTasks := ts\<rparr>) = y\<lparr>syTasks := ts\<rparr>"
    by (auto simp: end_task_def split: origin.split option.split)
  then show ?thesis using assms by (simp add: sched_inv_def running_def loops_ok_def)
next
  case True
  then obtain ls where ls: "tkOrigin tk = FromLoop" "syLoops y (tkModule tk) = Some ls" by auto
  let ?m = "tkModule tk" and ?c = "tCanonical (tkTarget tk)"
  have L: "loops_ok y" "log_ok (withDefaults cfg) (syLog y)" "sdCfg (sySched y) = withDefaults cfg"
    and st: "sdStarted (sySched y)"
    using assms(1) ls(2) by (auto simp: sched_inv_def)
  from L(1) ls(2) have F: "failures ls c = int (consecutive (syLog y) ?m c)" "gate ls c = not_before (syLog y) ?m c" for c
    by (auto simp: loops_ok_def)
  show ?thesis
  proof (cases "\<exists>e. err = Some e \<and> e \<noteq> ContextCanceled")
    case True
    then obtain e where "err = Some e" "e \<noteq> ContextCanceled" by blast
    with ls L st F assms(2) show ?thesis
      by (auto simp: end_task_def scan_done_def Let_def sched_inv_def running_def loops_ok_def failures_def gate_def)
  next
    case False
    then have "scan_done (sdCfg (sySched y)) now ?m (tkTarget tk) err ls =
        (None, ls\<lparr>lpFailures := (lpFailures ls)(?c \<mapsto> 0), lpNextOK := (lpNextOK ls)(?c \<mapsto> zero_time)\<rparr>)"
      by (auto simp: scan_done_def Let_def split: option.split)
    with ls L st F assms(2) show ?thesis
      by (auto simp: end_task_def Let_def sched_inv_def running_def loops_ok_def failures_def gate_def)
  qed
qed

lemma sched_step_inv: "sched_step y y' \<Longrightarrow> sched_inv cfg y \<Longrightarrow> sched_inv cfg y'"
proof (induction rule: sched_step.induct)
  case (registered c y err s)
  then show ?case using registry_keeps(1) [OF registered.hyps]
    by (auto simp: sched_inv_def running_def loops_ok_def)
next
  case (added m raw y res s ts)
  then show ?case using registry_keeps(2) [OF added.hyps]
    by (auto simp: sched_inv_def running_def loops_ok_def)
next
  case (removed y m c)
  then show ?case by (simp add: sched_inv_def running_def loops_ok_def registry_keeps)
next
  case (started y err s ms)
  note S = Start_keeps [OF started.hyps]
  show ?case
  proof (cases "sdStarted (sySched y)")
    case True
    then show ?thesis using S started.prems by (auto simp: sched_inv_def running_def loops_ok_def)
  next
    case False
    then have "loops_ok (y\<lparr>sySched := s, syLoops := (\<lambda>m. if m \<in> set ms then Some new_loop else syLoops y m)\<rparr>)"
      using started.prems by (intro loops_ok_new) (auto simp: sched_inv_def)
    then show ?thesis using S started.prems by (simp add: sched_inv_def running_def)
  qed
next
  case (stopped y)
  then show ?case by (simp add: sched_inv_def running_def loops_ok_def registry_keeps)
next
  case (scan_now iter y m ts)
  then show ?case using registry_keeps(7) [OF scan_now.hyps]
    by (auto simp: sched_inv_def running_def loops_ok_def)
next
  case (swept y m ls reg iter ts clock)
  have "filter tkRunning (map (new_task m FromLoop) ts) = []" by (auto simp: new_task_def filter_empty_conv)
  moreover have "\<forall>t\<in>set ts. not_before (syLog y) m (tCanonical t) \<le> clock (tCanonical t)"
    using swept by (auto simp: sweep_def Before_def sched_inv_def loops_ok_def)
  moreover have "sdStarted (sySched y)" using swept by (auto simp: sched_inv_def)
  ultimately show ?case using swept.prems
    by (auto simp: sched_inv_def running_def loops_ok_def started_log intro: started_log_ok)
next
  case (acquired y us tk vs)
  then show ?case by (auto simp: sched_inv_def running_def loops_ok_def)
next
  case (gave_up y us tk vs err now)
  then show ?case by (intro end_task_inv) (auto simp: sched_inv_def running_def)
next
  case (finished y us tk vs now err)
  then show ?case by (intro end_task_inv) (auto simp: sched_inv_def running_def)
qed

lemma sched_reach_inv: "sched_reach cfg y \<Longrightarrow> sched_inv cfg y"
proof (induction rule: sched_reach.induct)
  case init
  then show ?case
    using withDefaults_pos(1) [of cfg] by (simp add: sched_inv_def New_def running_def loops_ok_def)
next
  case (step y y')
  then show ?case by (blast intro: sched_step_inv)
qed

lemma log_ok_split: "log_ok cfg (us @ ev # vs) \<Longrightarrow> event_ok cfg ev vs"
  by (induction us) auto


text \<open>C8. A dead host slows only itself, and by the documented amount: in every interleaving, each
  failure report carries the number of consecutive failures of exactly that module and target
  (cancelled scans are not failures, any other end resets the count) and the backoff for that
  number; and a sweep never starts a scan of a target before the end of the backoff of the last
  failure that was not followed by a success.\<close>

theorem backoff_respected:
  assumes "sched_reach cfg y" and "syLog y = later @ ev # before"
  shows "case ev of
      Started m c t \<Rightarrow> not_before before m c \<le> t
    | Failed e t \<Rightarrow> seErr e \<noteq> ContextCanceled \<and> seNextTry e = backoffFor (withDefaults cfg) (seAttempt e) \<and>
        seAttempt e = 1 + int (consecutive before (seModule e) (tCanonical (seTarget e)))
    | Passed m c \<Rightarrow> True"
proof -
  have "event_ok (withDefaults cfg) ev before"
    using sched_reach_inv [OF assms(1)] assms(2) by (auto simp: sched_inv_def intro: log_ok_split)
  then show ?thesis by (cases ev) auto
qed

text \<open>A concrete run: one module with one target, swept, scanned and failed.\<close>

definition ex_target :: Target where
  "ex_target = \<lparr>tRaw = ''host'', tCanonical = ''host:443'', tMeta = Map.empty\<rparr>"

definition ex_collector :: Collector where
  "ex_collector = \<lparr>clDescribe = ex_module, clValidateTarget = (\<lambda>_. Inr ex_target)\<rparr>"

definition ex_reg :: registration where
  "ex_reg = \<lparr>rgCollector = ex_collector, rgInfo = ex_module, rgTargets = [(''host:443'', ex_target)]\<rparr>"

definition ex_sched :: "bool \<Rightarrow> Scheduler" where
  "ex_sched st = \<lparr>sdCfg = withDefaults ex_config, sdModules = [(''loglight'', ex_reg)], sdStarted = st, sdCanceled = False\<rparr>"

definition ex_error :: ScanError where
  "ex_error = \<lparr>seModule = ''loglight'', seTarget = ex_target, seErr = Errorf ''unreachable'', seAttempt = 1, seNextTry = 2\<rparr>"

definition ex_sys :: "task list \<Rightarrow> sevent list \<Rightarrow> loopState \<Rightarrow> sys" where
  "ex_sys ts lg ls = \<lparr>sySched = ex_sched True, syLoops = [''loglight'' \<mapsto> ls], syTasks = ts, syLog = lg\<rparr>"

lemmas ex_sched_defs = ex_target_def ex_collector_def ex_reg_def ex_sched_def ex_module_def

lemma ex_registered: "sched_reach ex_config \<lparr>sySched = ex_sched False, syLoops = Map.empty, syTasks = [], syLog = []\<rparr>"
proof -
  let ?s = "(ex_sched False)\<lparr>sdModules := [(''loglight'', ex_reg\<lparr>rgTargets := []\<rparr>)]\<rparr>"
  have 1: "Register ex_collector (New ex_config) = (None, ?s)"
    by (simp add: Register_def New_def ex_sched_defs Let_def)
  have 2: "AddTarget ''loglight'' ''host'' ?s = (Inr ex_target, ex_sched False, [])"
    by (simp add: AddTarget_def put_target_def ex_sched_defs)
  from sched_reach.step [OF sched_reach.step [OF sched_reach.init sched_step.registered] sched_step.added] 1 2
  show ?thesis by fastforce
qed

lemma ex_swept: "sched_reach ex_config (ex_sys [new_task ''loglight'' FromLoop ex_target] [Started ''loglight'' ''host:443'' 5] new_loop)"
proof -
  have 1: "Start (ex_sched False) = (None, ex_sched True, [''loglight''])"
    by (simp add: Start_def ex_sched_def)
  from sched_reach.step [OF ex_registered sched_step.started, of None "ex_sched True" "[''loglight'']"] 1
  have "sched_reach ex_config (ex_sys [] [] new_loop)"
    by (simp add: ex_sys_def fun_upd_def cong: if_cong)
  from sched_reach.step [OF this sched_step.swept, of "''loglight''" new_loop ex_reg "\<lambda>xs. xs" _ "\<lambda>_. 5"]
  show ?thesis
    by (simp add: ex_sys_def ex_sched_defs sweep_def snapshotTargets_def new_loop_def gate_def Before_def zero_time_def)
qed

lemma ex_running: "sched_reach ex_config (ex_sys [(new_task ''loglight'' FromLoop ex_target)\<lparr>tkRunning := True\<rparr>] [Started ''loglight'' ''host:443'' 5] new_loop)"
  using sched_reach.step [OF ex_swept sched_step.acquired, of "[]" "new_task ''loglight'' FromLoop ex_target" "[]"]
  by (simp add: ex_sys_def ex_sched_def running_def new_task_def ex_config_defaults)

lemma ex_failed: "\<exists>ls. sched_reach ex_config (ex_sys [] [Failed ex_error 7, Started ''loglight'' ''host:443'' 5] ls)"
proof -
  have b: "backoffFor (withDefaults ex_config) 1 = 2"
    by (simp add: backoffFor_def ex_config_defaults)
  show ?thesis
    using sched_reach.step [OF ex_running sched_step.finished,
        of "[]" "(new_task ''loglight'' FromLoop ex_target)\<lparr>tkRunning := True\<rparr>" "[]" 7 "Some (Errorf ''unreachable'')"]
    by (auto simp: ex_sys_def ex_sched_def end_task_def scan_done_def new_task_def failures_def new_loop_def
        ex_error_def Let_def b)
qed


theorem backoff_respected_witness:
  "seAttempt ex_error = 1 \<and> seNextTry ex_error = backoffFor (withDefaults ex_config) 1"
proof -
  obtain ls where "sched_reach ex_config (ex_sys [] [Failed ex_error 7, Started ''loglight'' ''host:443'' 5] ls)"
    using ex_failed by blast
  from backoff_respected [OF this, of "[]" "Failed ex_error 7" "[Started ''loglight'' ''host:443'' 5]"]
  show ?thesis by (simp add: ex_sys_def)
qed

text \<open>The failed scan of a new target, or of \<open>ScanNow\<close>, is never reported and never backed off.\<close>

lemma direct_scan_errors_dropped: "tkOrigin tk \<noteq> FromLoop \<Longrightarrow> end_task now tk err y = y"
  by (auto simp: end_task_def split: origin.split)

end
