(* ===== verification/Notify.thy ===== *)
theory Notify
  imports Sched
begin

text \<open>
  notify/notify.go and notify/bridge.go: the dispatcher that batches finding transitions, drops
  duplicates and sends one digest per module and window to every channel. The timer is a flag (a
  flush of the timer is a call of \<open>Flush\<close> at any time); \<open>flushLocked\<close> returns the sends it starts,
  the order in which Go ranges over the pending map and the clock are arguments.

  The specification keeps the accepted events of the current window in one list; the dispatcher
  refines it, for every iteration order.
\<close>

subsection \<open>Data\<close>

type_synonym EventKind = string

definition KindOpened :: EventKind where "KindOpened = ''opened''"
definition KindResolved :: EventKind where "KindResolved = ''resolved''"

record Event =
  neKind :: EventKind
  neModule :: string
  neFinding :: Finding

record Digest =
  dgModule :: string
  dgOpened :: "Finding list"
  dgResolved :: "Finding list"
  dgAt :: time

definition Empty :: "Digest \<Rightarrow> bool" where
  "Empty d \<longleftrightarrow> length (dgOpened d) = 0 \<and> length (dgResolved d) = 0"

record NConfig =
  ncFlushInterval :: duration
  ncMaxBatch :: int
  ncMinSeverity :: Severity
  ncRetries :: int
  ncRetryDelay :: duration

definition nc_withDefaults :: "NConfig \<Rightarrow> NConfig" where
  "nc_withDefaults c =
     (let c = (if ncFlushInterval c \<le> 0 then c\<lparr>ncFlushInterval := 30 * second\<rparr> else c);
          c = (if ncMaxBatch c \<le> 0 then c\<lparr>ncMaxBatch := 100\<rparr> else c);
          c = (if ncRetries c \<le> 0 then c\<lparr>ncRetries := 3\<rparr> else c)
      in if ncRetryDelay c \<le> 0 then c\<lparr>ncRetryDelay := 5 * second\<rparr> else c)"

record 'c Dispatcher =
  dpCfg :: NConfig
  dpChannels :: "'c list"
  dpPending :: "(string, Event list) gomap"
  dpSeen :: "string set"
  dpTimer :: bool
  dpClosed :: bool

definition NewDispatcher :: "NConfig \<Rightarrow> 'c list \<Rightarrow> 'c Dispatcher" where
  "NewDispatcher cfg channels =
     \<lparr>dpCfg = nc_withDefaults cfg, dpChannels = channels, dpPending = [], dpSeen = {}, dpTimer = False, dpClosed = False\<rparr>"

subsection \<open>Severities\<close>

definition severityRank :: "Severity \<Rightarrow> int" where
  "severityRank s =
     (if s = SeverityCritical then 4
      else if s = SeverityHigh then 3
      else if s = SeverityMedium then 2
      else if s = SeverityLow then 1
      else 0)"

text \<open>The inner loop of \<open>sortBySeverity\<close>: swap \<open>fs[j]\<close> with its left neighbour while it is more severe.\<close>

fun sift :: "nat \<Rightarrow> Finding list \<Rightarrow> Finding list" where
  "sift 0 fs = fs"
| "sift (Suc j) fs =
     (if severityRank (fSeverity (fs ! Suc j)) > severityRank (fSeverity (fs ! j))
      then sift j (fs[Suc j := fs ! j, j := fs ! Suc j]) else fs)"

definition sortBySeverity :: "Finding list \<Rightarrow> Finding list" where
  "sortBySeverity fs = fold sift [1..<length fs] fs"

definition passesSeverity :: "NConfig \<Rightarrow> Severity \<Rightarrow> bool" where
  "passesSeverity cfg s \<longleftrightarrow>
     (if ncMinSeverity cfg = [] then True else severityRank s \<ge> severityRank (ncMinSeverity cfg))"

subsection \<open>Batching\<close>

type_synonym pend_order = "(string \<times> Event list) list \<Rightarrow> (string \<times> Event list) list"

definition digest_of :: "time \<Rightarrow> string \<times> Event list \<Rightarrow> Digest" where
  "digest_of now me =
     \<lparr>dgModule = fst me,
      dgOpened = sortBySeverity (map neFinding (filter (\<lambda>e. neKind e = KindOpened) (snd me))),
      dgResolved = map neFinding (filter (\<lambda>e. neKind e = KindResolved) (snd me)), dgAt = now\<rparr>"

definition flushLocked :: "pend_order \<Rightarrow> time \<Rightarrow> 'c Dispatcher \<Rightarrow> ('c \<times> Digest) list \<times> 'c Dispatcher" where
  "flushLocked iter now d =
     (let d = d\<lparr>dpTimer := False\<rparr>
      in if dpPending d = [] then ([], d)
         else let digests = map (digest_of now) (iter (dpPending d));
                  d = d\<lparr>dpPending := [], dpSeen := {}\<rparr>
              in (concat (map (\<lambda>dg. if Empty dg then [] else map (\<lambda>ch. (ch, dg)) (dpChannels d)) digests), d))"

definition event_key :: "Event \<Rightarrow> string" where
  "event_key e = neKind e @ ''|'' @ neModule e @ ''|'' @ fFingerprint (neFinding e)"

definition Enqueue :: "pend_order \<Rightarrow> time \<Rightarrow> Event \<Rightarrow> 'c Dispatcher \<Rightarrow> ('c \<times> Digest) list \<times> 'c Dispatcher" where
  "Enqueue iter now e d =
     (if neKind e = KindOpened \<and> \<not> passesSeverity (dpCfg d) (fSeverity (neFinding e)) then ([], d)
      else if dpClosed d then ([], d)
      else if event_key e \<in> dpSeen d then ([], d)
      else let old = (case map_of (dpPending d) (neModule e) of None \<Rightarrow> [] | Some es \<Rightarrow> es);
               d = d\<lparr>dpSeen := insert (event_key e) (dpSeen d), dpPending := map_put (neModule e) (old @ [e]) (dpPending d)\<rparr>;
               total = sum_list (map (\<lambda>(_, es). int (length es)) (dpPending d))
           in if total \<ge> ncMaxBatch (dpCfg d) then flushLocked iter now d
              else ([], d\<lparr>dpTimer := True\<rparr>))"

definition Flush :: "pend_order \<Rightarrow> time \<Rightarrow> 'c Dispatcher \<Rightarrow> ('c \<times> Digest) list \<times> 'c Dispatcher" where
  "Flush iter now d = flushLocked iter now d"

definition Close :: "pend_order \<Rightarrow> time \<Rightarrow> 'c Dispatcher \<Rightarrow> ('c \<times> Digest) list \<times> 'c Dispatcher" where
  "Close iter now d = (let (out, d) = flushLocked iter now d in (out, d\<lparr>dpClosed := True\<rparr>))"

text \<open>\<open>sendWithRetry\<close>: \<open>send k\<close> is the outcome of the \<open>k\<close>-th call of \<^verbatim>\<open>ch.Send\<close>. The result is the error
  reported to \<^verbatim>\<open>OnSendError\<close>, if any, and the number of calls made.\<close>

fun retry_loop :: "(nat \<Rightarrow> error option) \<Rightarrow> nat \<Rightarrow> nat \<Rightarrow> error option \<Rightarrow> error option \<times> nat" where
  "retry_loop send 0 attempt err = (err, attempt)"
| "retry_loop send (Suc k) attempt err =
     (case send attempt of
        None \<Rightarrow> (None, Suc attempt)
      | Some e \<Rightarrow> retry_loop send k (Suc attempt) (Some e))"

definition sendWithRetry :: "NConfig \<Rightarrow> (nat \<Rightarrow> error option) \<Rightarrow> error option \<times> nat" where
  "sendWithRetry cfg send = retry_loop send (nat (ncRetries cfg)) 0 None"

text \<open>\<open>BindScheduler\<close>: the callback installed on the scheduler, after the previous one.\<close>

definition bound_events :: "Result \<Rightarrow> Event list" where
  "bound_events r =
     map (\<lambda>f. \<lparr>neKind = KindOpened, neModule = rsModule r, neFinding = f\<rparr>) (NewlyOpen (rsReconcile r)) @
     map (\<lambda>f. \<lparr>neKind = KindResolved, neModule = rsModule r, neFinding = f\<rparr>) (Resolved (rsReconcile r))"

fun enqueue_all :: "pend_order \<Rightarrow> time \<Rightarrow> Event list \<Rightarrow> 'c Dispatcher \<Rightarrow> ('c \<times> Digest) list \<times> 'c Dispatcher" where
  "enqueue_all iter now [] d = ([], d)"
| "enqueue_all iter now (e # es) d =
     (let (out, d) = Enqueue iter now e d; (out', d) = enqueue_all iter now es d in (out @ out', d))"

definition BindScheduler :: "pend_order \<Rightarrow> time \<Rightarrow> Result \<Rightarrow> 'c Dispatcher \<Rightarrow> ('c \<times> Digest) list \<times> 'c Dispatcher" where
  "BindScheduler iter now r d = enqueue_all iter now (bound_events r) d"

subsection \<open>The severity sort\<close>

abbreviation urgency :: "Finding \<Rightarrow> int" where
  "urgency f \<equiv> - severityRank (fSeverity f)"

lemma sift_inserts:
  "\<exists>us vs. xs = us @ vs \<and> sift (length xs) (xs @ x # ys) = us @ x # vs @ ys \<and>
     (\<forall>v\<in>set vs. urgency x < urgency v) \<and> (us \<noteq> [] \<longrightarrow> urgency (last us) \<le> urgency x)"
proof (induction xs arbitrary: ys rule: rev_induct)
  case (snoc y xs)
  show ?case
  proof (cases "severityRank (fSeverity x) > severityRank (fSeverity y)")
    case True
    from snoc.IH [of "y # ys"] obtain us vs where
      "xs = us @ vs" "sift (length xs) (xs @ x # y # ys) = us @ x # vs @ y # ys"
      "\<forall>v\<in>set vs. urgency x < urgency v" "us \<noteq> [] \<longrightarrow> urgency (last us) \<le> urgency x" by blast
    with True show ?thesis
      by (intro exI [of _ us] exI [of _ "vs @ [y]"]) (auto simp: nth_append list_update_append)
  next
    case False
    then show ?thesis
      by (intro exI [of _ "xs @ [y]"] exI [of _ "[]"]) (auto simp: nth_append)
  qed
qed simp

lemma sort_key_snoc:
  assumes "sort_key f xs = us @ vs" and "\<forall>v\<in>set vs. f x < f v" and "us \<noteq> [] \<longrightarrow> f (last us) \<le> f x"
  shows "sort_key f (xs @ [x]) = us @ x # vs"
proof (rule properties_for_sort_key)
  show "mset (us @ x # vs) = mset (xs @ [x])"
    using arg_cong [OF assms(1), of mset] by simp
  have stable: "filter (\<lambda>y. f k = f y) (us @ vs) = filter (\<lambda>y. f k = f y) xs" for k
    unfolding assms(1) [symmetric] using sort_key_stable [of f "f k" xs] by (simp only: eq_commute)
  show "filter (\<lambda>y. f k = f y) (us @ x # vs) = filter (\<lambda>y. f k = f y) (xs @ [x])" for k
  proof (cases "f k = f x")
    case True
    then have "filter (\<lambda>y. f k = f y) vs = []" using assms(2) by (auto simp: filter_empty_conv)
    with True stable [of k] show ?thesis by simp
  qed (use stable [of k] in simp)
  have "sorted (map f (us @ vs))" using assms(1) sorted_sort_key [of f xs] by simp
  moreover have "\<forall>u\<in>set us. f u \<le> f x"
  proof
    fix u assume u: "u \<in> set us"
    then have ne: "us \<noteq> []" by auto
    then obtain us' where us': "us = us' @ [last us]" by (metis append_butlast_last_id)
    have "sorted (map f us)" using calculation by (simp add: sorted_append)
    then have "sorted (map f us' @ [f (last us)])" using us' by (metis list.simps(8,9) map_append)
    then have "\<forall>y\<in>set us'. f y \<le> f (last us)" by (simp add: sorted_append)
    then have "f u \<le> f (last us)" using u us' by (metis Un_iff order_refl set_ConsD set_append empty_iff list.set(1))
    with assms(3) ne show "f u \<le> f x" by simp
  qed
  ultimately show "sorted (map f (us @ x # vs))" using assms(2) by (auto simp: sorted_append less_imp_le)
qed

lemma fold_sift: "n \<le> length fs \<Longrightarrow> fold sift [1..<n] fs = sort_key urgency (take n fs) @ drop n fs"
proof (induction n)
  case (Suc n)
  show ?case
  proof (cases "n = 0")
    case True
    with Suc.prems show ?thesis by (cases fs) auto
  next
    case False
    have IH: "fold sift [1..<n] fs = sort_key urgency (take n fs) @ drop n fs" using Suc by simp
    have d: "drop n fs = fs ! n # drop (Suc n) fs" using Suc.prems by (simp add: Cons_nth_drop_Suc)
    let ?xs = "sort_key urgency (take n fs)"
    have l: "length ?xs = n" using Suc.prems by simp
    have ex: "\<exists>us vs. ?xs = us @ vs \<and> sift n (?xs @ fs ! n # drop (Suc n) fs) = us @ fs ! n # vs @ drop (Suc n) fs \<and>
      (\<forall>v\<in>set vs. urgency (fs ! n) < urgency v) \<and> (us \<noteq> [] \<longrightarrow> urgency (last us) \<le> urgency (fs ! n))"
      using sift_inserts [of ?xs "fs ! n" "drop (Suc n) fs"] unfolding l .
    obtain us vs where s: "?xs = us @ vs" "sift n (?xs @ fs ! n # drop (Suc n) fs) = us @ fs ! n # vs @ drop (Suc n) fs"
      "\<forall>v\<in>set vs. urgency (fs ! n) < urgency v" "us \<noteq> [] \<longrightarrow> urgency (last us) \<le> urgency (fs ! n)"
      using ex by blast
    have "sort_key urgency (take (Suc n) fs) = us @ fs ! n # vs"
      using sort_key_snoc [OF s(1,3,4)] Suc.prems by (simp add: take_Suc_conv_app_nth)
    then show ?thesis using IH d s(2) False by simp
  qed
qed simp

lemma sortBySeverity_sort_key: "sortBySeverity fs = sort_key urgency fs"
  using fold_sift [of "length fs" fs] by (simp add: sortBySeverity_def)

text \<open>The hand-written insertion sort of a digest is correct: the in-place swaps compute exactly
  the stable sort by decreasing severity. The findings are permuted, the most severe first, and
  findings of equal severity keep the order in which they were announced.\<close>

theorem sortBySeverity_correct:
  "sortBySeverity fs = sort_key (\<lambda>f. - severityRank (fSeverity f)) fs \<and>
   mset (sortBySeverity fs) = mset fs \<and>
   sorted_wrt (\<lambda>f g. severityRank (fSeverity f) \<ge> severityRank (fSeverity g)) (sortBySeverity fs) \<and>
   filter (\<lambda>f. fSeverity f = s) (sortBySeverity fs) = filter (\<lambda>f. fSeverity f = s) fs"
proof -
  have "sorted_wrt (\<lambda>f g. severityRank (fSeverity f) \<ge> severityRank (fSeverity g)) (sort_key urgency fs)"
    using sorted_sort_key [of urgency fs] by (simp add: sorted_map)
  moreover have "filter (\<lambda>f. fSeverity f = s) (sort_key urgency fs) = filter (\<lambda>f. fSeverity f = s) fs"
  proof -
    have f: "filter (\<lambda>f. fSeverity f = s) gs = filter (\<lambda>f. fSeverity f = s) (filter (\<lambda>f. urgency f = - severityRank s) gs)" for gs
      by (induction gs) auto
    show ?thesis unfolding f [of "sort_key urgency fs"] sort_key_stable f [of fs, symmetric] ..
  qed
  ultimately show ?thesis by (simp add: sortBySeverity_sort_key)
qed

subsection \<open>The dispatcher against its specification\<close>

text \<open>The specification: one window, a list of accepted events in the order of arrival.\<close>

datatype nop = NEnqueue Event | NFlush

definition accepts :: "NConfig \<Rightarrow> Event list \<Rightarrow> Event \<Rightarrow> bool" where
  "accepts cfg win e \<longleftrightarrow>
     (neKind e = KindOpened \<longrightarrow> passesSeverity cfg (fSeverity (neFinding e))) \<and> event_key e \<notin> event_key ` set win"

text \<open>The windows closed by a sequence of operations, and the one still open.\<close>

fun windows :: "NConfig \<Rightarrow> nop list \<Rightarrow> Event list \<Rightarrow> Event list list \<times> Event list" where
  "windows cfg [] win = ([], win)"
| "windows cfg (NEnqueue e # ops) win =
     (if accepts cfg win e
      then if int (length (win @ [e])) \<ge> ncMaxBatch cfg
           then apfst ((#) (win @ [e])) (windows cfg ops []) else windows cfg ops (win @ [e])
      else windows cfg ops win)"
| "windows cfg (NFlush # ops) win = (if win = [] then windows cfg ops [] else apfst ((#) win) (windows cfg ops []))"

fun run_notify :: "pend_order \<Rightarrow> time \<Rightarrow> nop list \<Rightarrow> 'c Dispatcher \<Rightarrow> ('c \<times> Digest) list \<times> 'c Dispatcher" where
  "run_notify iter now [] d = ([], d)"
| "run_notify iter now (NEnqueue e # ops) d =
     (let (out, d) = Enqueue iter now e d; (out', d) = run_notify iter now ops d in (out @ out', d))"
| "run_notify iter now (NFlush # ops) d =
     (let (out, d) = Flush iter now d; (out', d) = run_notify iter now ops d in (out @ out', d))"

definition of_module :: "string \<Rightarrow> Event list \<Rightarrow> Event list" where
  "of_module m win = filter (\<lambda>e. neModule e = m) win"

definition pending_total :: "(string, Event list) gomap \<Rightarrow> int" where
  "pending_total p = sum_list (map (\<lambda>(_, es). int (length es)) p)"

definition window_of :: "'c Dispatcher \<Rightarrow> Event list \<Rightarrow> bool" where
  "window_of d win \<longleftrightarrow> dpSeen d = event_key ` set win \<and> wf_map (dpPending d) \<and>
     (\<forall>m. map_of (dpPending d) m = (if of_module m win = [] then None else Some (of_module m win))) \<and>
     pending_total (dpPending d) = int (length win)"

lemma pending_total_put:
  "pending_total (map_put k v m) =
     pending_total m - int (length (case map_of m k of None \<Rightarrow> [] | Some es \<Rightarrow> es)) + int (length v)"
  by (induction k v m rule: map_put.induct) (auto simp: pending_total_def)

lemma window_of_empty [simp]: "dpSeen d = {} \<Longrightarrow> dpPending d = [] \<Longrightarrow> window_of d []"
  by (simp add: window_of_def of_module_def pending_total_def)

lemma window_of_add:
  fixes e :: Event
  assumes "window_of d win"
  defines "old \<equiv> (case map_of (dpPending d) (neModule e) of None \<Rightarrow> [] | Some es \<Rightarrow> es)"
  shows "window_of (d\<lparr>dpSeen := insert (event_key e) (dpSeen d), dpPending := map_put (neModule e) (old @ [e]) (dpPending d)\<rparr>) (win @ [e])"
proof -
  have old: "old = of_module (neModule e) win" using assms by (simp add: window_of_def)
  have "pending_total (map_put (neModule e) (old @ [e]) (dpPending d)) = int (length (win @ [e]))"
    using assms(1) by (simp add: pending_total_put window_of_def old_def)
  then show ?thesis using assms(1) old
    by (auto simp: window_of_def map_of_map_put of_module_def)
qed

text \<open>The digests of a window.\<close>

definition window_digests :: "time \<Rightarrow> Event list \<Rightarrow> Digest list" where
  "window_digests now win =
     filter (\<lambda>dg. \<not> Empty dg) (map (\<lambda>m. digest_of now (m, of_module m win)) (remdups (map neModule win)))"

definition window_sends :: "'c list \<Rightarrow> time \<Rightarrow> Event list \<Rightarrow> ('c \<times> Digest) list" where
  "window_sends chans now win = concat (map (\<lambda>dg. map (\<lambda>ch. (ch, dg)) chans) (window_digests now win))"

lemma concat_if_filter: "concat (map (\<lambda>x. if P x then [] else f x) xs) = concat (map f (filter (\<lambda>x. \<not> P x) xs))"
  by (induction xs) auto

lemma mset_concat_map: "mset (concat (map f xs)) = sum_mset (image_mset (\<lambda>x. mset (f x)) (mset xs))"
  by (induction xs) auto

lemma mset_concat_perm: "mset xs = mset ys \<Longrightarrow> mset (concat (map f xs)) = mset (concat (map f ys))"
  by (simp add: mset_concat_map)

lemma pending_perm:
  assumes "window_of d win"
  shows "mset (dpPending d) = mset (map (\<lambda>m. (m, of_module m win)) (remdups (map neModule win)))"
proof -
  have "distinct (dpPending d)" using assms distinct_map [of fst] by (auto simp: window_of_def wf_map_def)
  moreover have "distinct (map (\<lambda>m. (m, of_module m win)) (remdups (map neModule win)))"
    by (simp add: distinct_map inj_on_def)
  moreover have "set (dpPending d) = set (map (\<lambda>m. (m, of_module m win)) (remdups (map neModule win)))"
  proof -
    have "(m, es) \<in> set (dpPending d) \<longleftrightarrow> m \<in> neModule ` set win \<and> es = of_module m win" for m es
      using assms by (auto simp: window_of_def in_set_map_of of_module_def filter_empty_conv split: if_splits)
    then show ?thesis by auto
  qed
  ultimately show ?thesis by (simp only: set_eq_iff_mset_eq_distinct)
qed

lemma flush_window:
  assumes "window_of d win" and "iteration_order iter" and "flushLocked iter now d = (out, d')"
  shows "mset out = mset (window_sends (dpChannels d) now win)" and "window_of d' []"
    and "dpCfg d' = dpCfg d" and "dpChannels d' = dpChannels d" and "dpClosed d' = dpClosed d"
proof -
  have e: "dpPending d = [] \<Longrightarrow> win = []"
    using assms(1) by (simp add: window_of_def pending_total_def)
  have "mset (map (digest_of now) (iter (dpPending d))) =
      mset (map (\<lambda>m. digest_of now (m, of_module m win)) (remdups (map neModule win)))"
    using assms(2) pending_perm [OF assms(1)] by (simp add: iteration_order_def multiset.map_comp comp_def)
  then have "mset (filter (\<lambda>dg. \<not> Empty dg) (map (digest_of now) (iter (dpPending d)))) = mset (window_digests now win)"
    by (simp only: window_digests_def mset_filter)
  from mset_concat_perm [OF this, of "\<lambda>dg. map (\<lambda>ch. (ch, dg)) (dpChannels d)"]
  show "mset out = mset (window_sends (dpChannels d) now win)"
    using assms(3) e by (auto simp: flushLocked_def Let_def concat_if_filter window_sends_def window_digests_def split: if_splits)
  show "window_of d' []"
    using assms(1,3) e by (auto simp: flushLocked_def Let_def split: if_splits) (simp add: window_of_def)
qed (use assms(3) in \<open>auto simp: flushLocked_def Let_def split: if_splits\<close>)

lemma run_notify_refines:
  assumes "iteration_order iter"
  shows "window_of d win \<Longrightarrow> \<not> dpClosed d \<Longrightarrow> int (length win) < ncMaxBatch (dpCfg d) \<Longrightarrow> 0 < ncMaxBatch (dpCfg d) \<Longrightarrow>
     run_notify iter now ops d = (out, d') \<Longrightarrow> windows (dpCfg d) ops win = (wins, open_win) \<Longrightarrow>
     mset out = mset (concat (map (window_sends (dpChannels d) now) wins)) \<and> window_of d' open_win \<and>
     int (length open_win) < ncMaxBatch (dpCfg d) \<and> dpChannels d' = dpChannels d"
proof (induction ops arbitrary: d win out wins)
  case (Cons opn ops)
  show ?case
  proof (cases opn)
    case NFlush
    obtain o1 d1 where f: "flushLocked iter now d = (o1, d1)" by fastforce
    obtain o2 where r: "run_notify iter now ops d1 = (o2, d')" "out = o1 @ o2"
      using Cons.prems(5) NFlush f by (auto simp: Flush_def split: prod.splits)
    note F = flush_window [OF Cons.prems(1) assms f]
    obtain wins' where w: "windows (dpCfg d) ops [] = (wins', open_win)" "wins = (if win = [] then wins' else win # wins')"
      using Cons.prems(6) NFlush by (auto simp: apfst_def map_prod_def split: prod.splits if_splits)
    have "window_sends (dpChannels d) now [] = []" by (simp add: window_sends_def window_digests_def)
    then show ?thesis
      using Cons.IH [OF F(2) _ _ _ r(1), of wins'] Cons.prems(2-4) F w r(2) by auto
  next
    case (NEnqueue e)
    obtain o1 d1 where f: "Enqueue iter now e d = (o1, d1)" by fastforce
    obtain o2 where r: "run_notify iter now ops d1 = (o2, d')" "out = o1 @ o2"
      using Cons.prems(5) NEnqueue f by (auto split: prod.splits)
    let ?d = "d\<lparr>dpSeen := insert (event_key e) (dpSeen d), dpPending := map_put (neModule e)
        ((case map_of (dpPending d) (neModule e) of None \<Rightarrow> [] | Some es \<Rightarrow> es) @ [e]) (dpPending d)\<rparr>"
    have W: "window_of ?d (win @ [e])" by (rule window_of_add [OF Cons.prems(1)])
    then have total: "pending_total (dpPending ?d) = int (length (win @ [e]))" by (simp only: window_of_def)
    have seen: "event_key e \<in> dpSeen d \<longleftrightarrow> event_key e \<in> event_key ` set win"
      using Cons.prems(1) by (simp add: window_of_def)
    consider (reject) "\<not> accepts (dpCfg d) win e"
      | (flush) "accepts (dpCfg d) win e" "int (length (win @ [e])) \<ge> ncMaxBatch (dpCfg d)"
      | (keep) "accepts (dpCfg d) win e" "int (length (win @ [e])) < ncMaxBatch (dpCfg d)" by linarith
    then show ?thesis
    proof cases
      case reject
      then have "o1 = [] \<and> d1 = d" using f seen by (auto simp: Enqueue_def accepts_def split: if_splits)
      then show ?thesis using Cons.IH [OF Cons.prems(1-4)] r Cons.prems(6) NEnqueue reject by auto
    next
      case flush
      then have "flushLocked iter now ?d = (o1, d1)"
        using f seen total Cons.prems(2) by (auto simp: Enqueue_def accepts_def pending_total_def Let_def)
      note F = flush_window [OF W assms this]
      obtain wins' where w: "windows (dpCfg d) ops [] = (wins', open_win)" "wins = (win @ [e]) # wins'"
        using Cons.prems(6) NEnqueue flush by (auto simp: apfst_def map_prod_def split: prod.splits)
      show ?thesis using Cons.IH [OF F(2) _ _ _ r(1), of wins'] Cons.prems(2-4) F w r(2) by auto
    next
      case keep
      then have "o1 = [] \<and> d1 = ?d\<lparr>dpTimer := True\<rparr>"
        using f seen total Cons.prems(2) by (auto simp: Enqueue_def accepts_def pending_total_def Let_def)
      moreover have "window_of (?d\<lparr>dpTimer := True\<rparr>) (win @ [e])" using W by (simp add: window_of_def)
      ultimately show ?thesis
        using Cons.IH [of d1 "win @ [e]" o2 wins] Cons.prems(2-4,6) keep r NEnqueue by auto
    qed
  qed
qed simp

text \<open>What a digest tells its reader, and what one channel was sent.\<close>

definition announces :: "Digest \<Rightarrow> Event list" where
  "announces dg =
     map (\<lambda>f. \<lparr>neKind = KindOpened, neModule = dgModule dg, neFinding = f\<rparr>) (dgOpened dg) @
     map (\<lambda>f. \<lparr>neKind = KindResolved, neModule = dgModule dg, neFinding = f\<rparr>) (dgResolved dg)"

definition sent_to :: "'c \<Rightarrow> ('c \<times> Digest) list \<Rightarrow> Digest list" where
  "sent_to ch out = map snd (filter (\<lambda>s. fst s = ch) out)"

definition known_kind :: "Event \<Rightarrow> bool" where
  "known_kind e \<longleftrightarrow> neKind e = KindOpened \<or> neKind e = KindResolved"

lemma by_kind: "list_all known_kind es \<Longrightarrow> (\<forall>e\<in>set es. neModule e = m) \<Longrightarrow>
    mset (map (\<lambda>f. \<lparr>neKind = KindOpened, neModule = m, neFinding = f\<rparr>) (map neFinding (filter (\<lambda>e. neKind e = KindOpened) es))) +
    mset (map (\<lambda>f. \<lparr>neKind = KindResolved, neModule = m, neFinding = f\<rparr>) (map neFinding (filter (\<lambda>e. neKind e = KindResolved) es)))
    = mset es"
proof (induction es)
  case (Cons e es)
  have "e = \<lparr>neKind = neKind e, neModule = m, neFinding = neFinding e\<rparr>" using Cons.prems by simp
  with Cons show ?case by (auto simp: known_kind_def KindOpened_def KindResolved_def)
qed simp

lemma announces_digest:
  assumes "list_all known_kind win"
  shows "mset (announces (digest_of now (m, of_module m win))) = mset (of_module m win)"
proof -
  let ?es = "of_module m win"
  have "list_all known_kind ?es" "\<forall>e\<in>set ?es. neModule e = m"
    using assms by (auto simp: of_module_def list_all_iff)
  from by_kind [OF this] show ?thesis
    by (simp add: announces_def digest_of_def sortBySeverity_sort_key multiset.map_comp)
qed

lemma announces_nonempty: "concat (map announces (filter (\<lambda>dg. \<not> Empty dg) dgs)) = concat (map announces dgs)"
  by (induction dgs) (auto simp: announces_def Empty_def)

lemma split_modules: "distinct ms \<Longrightarrow> mset (concat (map (\<lambda>m. of_module m win) ms)) = mset (filter (\<lambda>e. neModule e \<in> set ms) win)"
proof (induction ms)
  case (Cons m ms)
  then have "m \<notin> set ms" by simp
  then have "mset (of_module m win) + mset (filter (\<lambda>e. neModule e \<in> set ms) win) = mset (filter (\<lambda>e. neModule e \<in> set (m # ms)) win)"
    by (induction win) (auto simp: of_module_def)
  with Cons show ?case by simp
qed simp

lemma announces_window:
  assumes "list_all known_kind win"
  shows "mset (concat (map announces (window_digests now win))) = mset win"
proof -
  let ?ms = "remdups (map neModule win)"
  have "mset (concat (map announces (window_digests now win))) =
      mset (concat (map (\<lambda>m. announces (digest_of now (m, of_module m win))) ?ms))"
    by (simp add: window_digests_def announces_nonempty comp_def)
  also have "\<dots> = mset (concat (map (\<lambda>m. of_module m win) ?ms))"
    by (simp add: mset_concat_map announces_digest [OF assms])
  also have "\<dots> = mset win" using split_modules [of ?ms win] by (simp cong: filter_cong)
  finally show ?thesis .
qed

lemma sent_to_window:
  assumes "distinct chans" and "ch \<in> set chans"
  shows "sent_to ch (window_sends chans now win) = window_digests now win"
proof -
  have "filter (\<lambda>c. c = ch) chans = [ch]"
    using assms by (induction chans) (auto simp: filter_empty_conv)
  then have one: "map snd (filter (\<lambda>s. fst s = ch) (map (\<lambda>c. (c, dg)) chans)) = [dg]" for dg
    by (simp add: filter_map comp_def)
  have "sent_to ch (concat (map (\<lambda>dg. map (\<lambda>c. (c, dg)) chans) dgs)) = dgs" for dgs
    by (induction dgs) (simp_all add: sent_to_def one)
  then show ?thesis by (simp add: window_sends_def)
qed

lemma sent_to_mset: "mset out = mset out' \<Longrightarrow> mset (sent_to ch out) = mset (sent_to ch out')"
  by (simp add: sent_to_def)

lemma windows_facts:
  "windows cfg ops win = (wins, open_win) \<Longrightarrow> list_all known_kind win \<Longrightarrow> distinct (map event_key win) \<Longrightarrow>
     (\<forall>e. NEnqueue e \<in> set ops \<longrightarrow> known_kind e) \<Longrightarrow>
     (\<forall>w\<in>set (open_win # wins). list_all known_kind w \<and> distinct (map event_key w))"
proof (induction cfg ops win arbitrary: wins rule: windows.induct)
  case (2 cfg e ops win)
  show ?case
  proof (cases "accepts cfg win e \<and> ncMaxBatch cfg \<le> int (length (win @ [e]))")
    case True
    obtain wins' where w: "windows cfg ops [] = (wins', open_win)" "wins = (win @ [e]) # wins'"
      using "2.prems"(1) True by (auto simp: apfst_def map_prod_def split: prod.splits)
    have "\<forall>w\<in>set (open_win # wins'). list_all known_kind w \<and> distinct (map event_key w)"
      using "2.IH"(1) [of wins'] True w(1) "2.prems"(4) by simp
    with True "2.prems" w(2) show ?thesis by (auto simp: accepts_def)
  next
    case False
    with 2 show ?thesis by (auto simp: accepts_def split: if_splits)
  qed
next
  case (3 cfg ops win)
  obtain wins' where w: "windows cfg ops [] = (wins', open_win)" "wins = (if win = [] then wins' else win # wins')"
    using "3.prems"(1) by (auto simp: apfst_def map_prod_def split: prod.splits if_splits)
  have "\<forall>w\<in>set (open_win # wins'). list_all known_kind w \<and> distinct (map event_key w)"
    using 3 w(1) by (cases "win = []") auto
  with "3.prems" w(2) show ?case by auto
qed auto

lemma announces_windows:
  assumes "distinct chans" and "ch \<in> set chans" and "\<forall>w\<in>set wins. list_all known_kind w"
    and "mset out = mset (concat (map (window_sends chans now) wins))"
  shows "mset (concat (map announces (sent_to ch out))) = mset (concat wins)"
proof -
  have "sent_to ch (concat (map (window_sends chans now) wins)) = concat (map (window_digests now) wins)"
    using sent_to_window [OF assms(1,2)] by (induction wins) (auto simp: sent_to_def)
  with sent_to_mset [OF assms(4), of ch]
  have "mset (sent_to ch out) = mset (concat (map (window_digests now) wins))" by simp
  from mset_concat_perm [OF this, of announces]
  have "mset (concat (map announces (sent_to ch out))) = mset (concat (map announces (concat (map (window_digests now) wins))))" .
  also have "\<dots> = mset (concat wins)" using assms(3) announces_window by (induction wins) auto
  finally show ?thesis .
qed

lemma NewDispatcher_window:
  "window_of (NewDispatcher cfg chans) []" "\<not> dpClosed (NewDispatcher cfg chans)"
  "0 < ncMaxBatch (dpCfg (NewDispatcher cfg chans))" "dpCfg (NewDispatcher cfg chans) = nc_withDefaults cfg"
  "dpChannels (NewDispatcher cfg chans) = chans"
  by (simp_all add: NewDispatcher_def nc_withDefaults_def Let_def)

text \<open>C7. No accepted notification is lost or sent twice: for any sequence of enqueued transitions and
  flushes followed by \<open>Close\<close>, and whatever order Go ranges over the pending map in, each channel is
  told exactly the accepted events, each exactly once; the events of one window have different
  keys, so a finding that flaps within a window is announced once.\<close>

theorem notifications_exactly_once:
  assumes "iteration_order iter" and "distinct chans" and "ch \<in> set chans"
    and "\<forall>e. NEnqueue e \<in> set ops \<longrightarrow> known_kind e"
    and "windows (nc_withDefaults cfg) ops [] = (wins, open_win)"
    and "run_notify iter now ops (NewDispatcher cfg chans) = (out, d)" and "Close iter now d = (out', d')"
  shows "mset (concat (map announces (sent_to ch (out @ out')))) = mset (concat (wins @ [open_win])) \<and>
    (\<forall>w\<in>set (wins @ [open_win]). distinct (map event_key w))"
proof -
  have R: "mset out = mset (concat (map (window_sends chans now) wins))" "window_of d open_win" "dpChannels d = chans"
    using run_notify_refines [OF assms(1) NewDispatcher_window(1,2) _ NewDispatcher_window(3) assms(6)]
      assms(5) NewDispatcher_window(3) [of cfg chans] by (auto simp: NewDispatcher_window)
  obtain d1 where f: "flushLocked iter now d = (out', d1)"
    using assms(7) by (auto simp: Close_def split: prod.splits)
  have "mset (out @ out') = mset (concat (map (window_sends chans now) (wins @ [open_win])))"
    using R(1) flush_window(1) [OF R(2) assms(1) f] R(3) by simp
  moreover have W: "\<forall>w\<in>set (open_win # wins). list_all known_kind w \<and> distinct (map event_key w)"
    using windows_facts [OF assms(5)] assms(4) by simp
  ultimately show ?thesis using announces_windows [OF assms(2,3), of "wins @ [open_win]"] by auto
qed

text \<open>A batch is bounded: after any sequence of enqueued transitions and flushes fewer than
  \<open>MaxBatch\<close> events are pending, so a burst is sent early instead of growing without limit.\<close>

theorem pending_bounded:
  assumes "iteration_order iter"
  shows "pending_total (dpPending (snd (run_notify iter now ops (NewDispatcher cfg chans)))) < ncMaxBatch (nc_withDefaults cfg)"
proof -
  obtain out d where r: "run_notify iter now ops (NewDispatcher cfg chans) = (out, d)" by fastforce
  obtain wins win where w: "windows (nc_withDefaults cfg) ops [] = (wins, win)" by fastforce
  have "window_of d win \<and> int (length win) < ncMaxBatch (nc_withDefaults cfg)"
    using run_notify_refines [OF assms NewDispatcher_window(1,2) _ NewDispatcher_window(3) r]
      w NewDispatcher_window(3) [of cfg chans] by (auto simp: NewDispatcher_window)
  then show ?thesis using r by (auto simp: window_of_def)
qed

lemma retry_loop_spec:
  "retry_loop send k a err =
     (if \<exists>i. a \<le> i \<and> i < a + k \<and> send i = None then (None, Suc (LEAST i. a \<le> i \<and> send i = None))
      else (if k = 0 then err else send (a + k - 1), a + k))"
proof (induction k arbitrary: a err)
  case (Suc k)
  show ?case
  proof (cases "send a")
    case None
    then have "(LEAST i. a \<le> i \<and> send i = None) = a" by (intro Least_equality) auto
    moreover have "\<exists>i. a \<le> i \<and> i < a + Suc k \<and> send i = None" using None by (intro exI [of _ a]) simp
    ultimately show ?thesis using None by simp
  next
    case (Some e)
    have step: "a \<le> i \<and> send i = None \<longleftrightarrow> Suc a \<le> i \<and> send i = None" for i
      using Some by (cases "i = a") auto
    then have "(\<exists>i. Suc a \<le> i \<and> i < Suc a + k \<and> send i = None) \<longleftrightarrow> (\<exists>i. a \<le> i \<and> i < a + Suc k \<and> send i = None)"
      by auto
    moreover have "(LEAST i. Suc a \<le> i \<and> send i = None) = (LEAST i. a \<le> i \<and> send i = None)"
      unfolding step ..
    ultimately show ?thesis using Suc.IH [of "Suc a" "Some e"] Some by auto
  qed
qed auto

lemma nc_retries: "1 \<le> ncRetries (nc_withDefaults cfg)"
  by (simp add: nc_withDefaults_def Let_def)

text \<open>Delivery is retried a bounded number of times: a digest is sent again until the first
  success and at most \<open>Retries\<close> times, and the failure is reported, with the last error, exactly when
  every attempt failed.\<close>

theorem sendWithRetry_correct:
  "sendWithRetry (nc_withDefaults cfg) send =
     (let n = nat (ncRetries (nc_withDefaults cfg))
      in if \<exists>i. i < n \<and> send i = None then (None, Suc (LEAST i. send i = None)) else (send (n - 1), n))"
  using nc_retries [of cfg] by (auto simp: sendWithRetry_def retry_loop_spec Let_def)

text \<open>Concrete inputs for the witnesses.\<close>

definition ex_ncfg :: NConfig where
  "ex_ncfg = \<lparr>ncFlushInterval = 0, ncMaxBatch = 2, ncMinSeverity = ''medium'', ncRetries = 0, ncRetryDelay = 0\<rparr>"

definition ex_event :: "EventKind \<Rightarrow> string \<Rightarrow> Severity \<Rightarrow> Event" where
  "ex_event k fp s = \<lparr>neKind = k, neModule = ''loglight'', neFinding = ex_finding\<lparr>fFingerprint := fp, fSeverity := s\<rparr>\<rparr>"

definition ex_ops :: "nop list" where
  "ex_ops = [NEnqueue (ex_event KindOpened ''a'' ''low''), NEnqueue (ex_event KindOpened ''b'' ''medium''),
     NEnqueue (ex_event KindOpened ''b'' ''medium''), NEnqueue (ex_event KindResolved ''c'' ''low''),
     NEnqueue (ex_event KindOpened ''d'' ''high'')]"

lemma ex_windows: "windows (nc_withDefaults ex_ncfg) ex_ops [] =
   ([[ex_event KindOpened ''b'' ''medium'', ex_event KindResolved ''c'' ''low'']], [ex_event KindOpened ''d'' ''high''])"
  by (simp add: ex_ops_def ex_event_def ex_ncfg_def nc_withDefaults_def accepts_def event_key_def passesSeverity_def
      severityRank_def KindOpened_def KindResolved_def SeverityCritical_def SeverityHigh_def SeverityMedium_def SeverityLow_def)

theorem notifications_exactly_once_witness:
  "mset (concat (map announces (sent_to True (case run_notify rev 5 ex_ops (NewDispatcher ex_ncfg [True, False]) of
       (out, d) \<Rightarrow> out @ fst (Close rev 5 d))))) =
   {#ex_event KindOpened ''b'' ''medium'', ex_event KindResolved ''c'' ''low'', ex_event KindOpened ''d'' ''high''#}"
proof -
  obtain out d where r: "run_notify rev 5 ex_ops (NewDispatcher ex_ncfg [True, False]) = (out, d)" by fastforce
  obtain out' d' where c: "Close rev 5 d = (out', d')" by fastforce
  have k: "\<forall>e. NEnqueue e \<in> set ex_ops \<longrightarrow> known_kind e" by (auto simp: ex_ops_def ex_event_def known_kind_def)
  from notifications_exactly_once [OF iteration_order_rev _ _ k ex_windows r c, of True]
  show ?thesis using r c by simp
qed

theorem pending_bounded_witness:
  "pending_total (dpPending (snd (run_notify rev 5 ex_ops (NewDispatcher ex_ncfg [True])))) < 2"
  using pending_bounded [OF iteration_order_rev, of 5 ex_ops ex_ncfg "[True]"]
  by (simp add: ex_ncfg_def nc_withDefaults_def)

end
