(* ===== verification/Correlate.thy ===== *)
theory Correlate
  imports Detectors Firing
begin

text \<open>
  correlate/correlate.go: the per-actor kill-chain state machine. The correlator is a record of
  its per-actor memory and of the last incident per actor; its three entry points are functions
  on it. The step relation \<open>corr_reach\<close> drives them with an arbitrary input sequence and carries
  the invariant that whatever the correlator remembers was really observed.
\<close>

record Member =
  mAt :: time
  mStage :: string
  mNote :: string

record Incident =
  iSeverity :: string
  iActor :: string
  iTarget :: string
  iTitle :: string
  iDetail :: string
  iStages :: "string list"
  iMembers :: "Member list"
  iFirstAt :: time
  iLastAt :: time
  iKey :: string

record actorState =
  acScanAt :: time
  acScanNote :: string
  acBruteAt :: time
  acBrute :: "Detection option"
  acTarget :: string

record Correlator =
  crWindow :: duration
  crCool :: duration
  crStates :: "string \<rightharpoonup> actorState"
  crFired :: "string \<rightharpoonup> time"

definition New :: "duration \<Rightarrow> duration \<Rightarrow> Correlator" where
  "New window cl =
     \<lparr>crWindow = (if window \<le> 0 then 10 * minute else window),
      crCool = (if cl \<le> 0 then 15 * minute else cl),
      crStates = Map.empty, crFired = Map.empty\<rparr>"

definition zero_state :: actorState where
  "zero_state = \<lparr>acScanAt = zero_time, acScanNote = [], acBruteAt = zero_time, acBrute = None, acTarget = []\<rparr>"

text \<open>\<open>state\<close> returns the actor's memory, creating it when there is none.\<close>

definition state :: "Correlator \<Rightarrow> string \<Rightarrow> actorState" where
  "state c actor = (case crStates c actor of None \<Rightarrow> zero_state | Some s \<Rightarrow> s)"

definition ObserveDetection :: "Correlator \<Rightarrow> Detection \<Rightarrow> Correlator" where
  "ObserveDetection c d =
     (if dKind d = KindScan then
        (let s = (state c (dActor d))\<lparr>acScanAt := dLastAt d, acScanNote := dTitle d\<rparr>;
             s = (if dTarget d \<noteq> [] then s\<lparr>acTarget := dTarget d\<rparr> else s)
         in c\<lparr>crStates := (crStates c)(dActor d \<mapsto> s)\<rparr>)
      else if dKind d = KindBruteForce then
        (let s = (state c (dActor d))\<lparr>acBruteAt := dLastAt d, acBrute := Some d\<rparr>;
             s = (if dTarget d \<noteq> [] then s\<lparr>acTarget := dTarget d\<rparr> else s)
         in c\<lparr>crStates := (crStates c)(dActor d \<mapsto> s)\<rparr>)
      else c)"

definition arrow :: string where
  "arrow = [CHR 0xE2, CHR 0x86, CHR 0x92]"

definition phrase :: "bool \<Rightarrow> bool \<Rightarrow> string" where
  "phrase hasScan hasBrute =
     (if hasScan \<and> hasBrute then ''a port scan and a brute-force attempt''
      else if hasBrute then ''a brute-force attempt''
      else ''a port scan'')"

definition fired_recently :: "Correlator \<Rightarrow> string \<Rightarrow> time \<Rightarrow> bool" where
  "fired_recently c actor t = (case crFired c actor of None \<Rightarrow> False | Some u \<Rightarrow> Sub t u < crCool c)"

text \<open>Whether the remembered scan, or brute force, is linked to a finding at time \<open>t\<close>.\<close>

definition scan_linked :: "Correlator \<Rightarrow> actorState \<Rightarrow> time \<Rightarrow> bool" where
  "scan_linked c s t \<longleftrightarrow> \<not> IsZero (acScanAt s) \<and> Sub t (acScanAt s) \<le> crWindow c \<and> \<not> After (acScanAt s) t"

definition brute_linked :: "Correlator \<Rightarrow> actorState \<Rightarrow> time \<Rightarrow> bool" where
  "brute_linked c s t \<longleftrightarrow> acBrute s \<noteq> None \<and> Sub t (acBruteAt s) \<le> crWindow c \<and> \<not> After (acBruteAt s) t"

definition scan_member :: "actorState \<Rightarrow> Member" where
  "scan_member s = \<lparr>mAt = acScanAt s, mStage = ''scan'', mNote = acScanNote s\<rparr>"

definition brute_member :: "actorState \<Rightarrow> Member" where
  "brute_member s = \<lparr>mAt = acBruteAt s, mStage = ''brute_force'', mNote = dTitle (the (acBrute s))\<rparr>"

definition sentinel_incident :: "actorState \<Rightarrow> Detection \<Rightarrow> bool \<Rightarrow> bool \<Rightarrow> Incident" where
  "sentinel_incident s d hasScan hasBrute =
     (let t = dLastAt d;
          tgt = (if dTarget d = [] then acTarget s else dTarget d);
          first = (if hasScan then acScanAt s else zero_time);
          stages = (if hasScan then [''scan''] else []);
          members = (if hasScan then [scan_member s] else []);
          first = (if hasBrute \<and> (IsZero first \<or> Before (acBruteAt s) first) then acBruteAt s else first);
          stages = (if hasBrute then stages @ [''brute_force''] else stages);
          members = (if hasBrute then members @ [brute_member s] else members)
      in \<lparr>iSeverity = ''critical'', iActor = dActor d, iTarget = tgt,
          iTitle = ''Confirmed intrusion from '' @ dActor d @ '': '' @
            join ('' '' @ arrow @ '' '') stages @ '' '' @ arrow @ '' bait touched'',
          iDetail = dActor d @ '' tripped a decoy after '' @ phrase hasScan hasBrute @
            '' from the same source. Bait has no legitimate users, so this is not a heuristic: treat the host as compromised, isolate it, and review everything that source touched.'',
          iStages = stages @ [''deception''],
          iMembers = members @ [\<lparr>mAt = t, mStage = ''deception'', mNote = dTitle d\<rparr>],
          iFirstAt = first, iLastAt = t,
          iKey = ''killchain|'' @ dActor d\<rparr>)"

definition ObserveSentinelFinding :: "Correlator \<Rightarrow> Detection \<Rightarrow> Incident option \<times> Correlator" where
  "ObserveSentinelFinding c d =
     (if dKind d \<noteq> KindSentinel \<or> dActor d = [] then (None, c)
      else let t = dLastAt d
           in case crStates c (dActor d) of
                None \<Rightarrow> (None, c)
              | Some s \<Rightarrow>
                  if fired_recently c (dActor d) t then (None, c)
                  else let hasScan = scan_linked c s t; hasBrute = brute_linked c s t
                       in if \<not> hasScan \<and> \<not> hasBrute then (None, c)
                          else (Some (sentinel_incident s d hasScan hasBrute),
                                c\<lparr>crFired := (crFired c)(dActor d \<mapsto> t),
                                  crStates := (crStates c)(dActor d := None)\<rparr>))"

definition orAny_host :: "string \<Rightarrow> string" where
  "orAny_host s = (if s = [] then ''the host'' else s)"

definition successNote :: "string \<Rightarrow> string \<Rightarrow> string \<Rightarrow> string" where
  "successNote user tgt raw =
     (if user \<noteq> [] then ''successful login as '' @ user @ '' on '' @ orAny_host tgt
      else if raw \<noteq> [] then raw
      else ''successful login on '' @ orAny_host tgt)"

definition scanClause :: "bool \<Rightarrow> string" where
  "scanClause hasScan = (if hasScan then '', itself preceded by a port scan from the same source'' else [])"

definition success_incident ::
    "actorState \<Rightarrow> string \<Rightarrow> string \<Rightarrow> string \<Rightarrow> time \<Rightarrow> string \<Rightarrow> bool \<Rightarrow> Incident" where
  "success_incident s actor host user t raw hasScan =
     (let tgt = (if host = [] then acTarget s else host);
          first = (if \<not> IsZero (acScanAt s) \<and> Before (acScanAt s) (acBruteAt s)
                   then acScanAt s else acBruteAt s)
      in \<lparr>iSeverity = (if hasScan then ''critical'' else ''high''), iActor = actor, iTarget = tgt,
          iTitle = (if hasScan
            then ''Likely intrusion from '' @ actor @ '': scan '' @ arrow @ '' brute force '' @ arrow @ '' successful login''
            else ''Successful login after brute force from '' @ actor),
          iDetail = actor @ '' authenticated successfully to '' @ orAny_host tgt @
            '' immediately after a brute-force attempt'' @ scanClause hasScan @
            ''. Treat as a possible account compromise: rotate the credential and review the session.'',
          iStages = (if hasScan then [''scan'', ''brute_force'', ''success''] else [''brute_force'', ''success'']),
          iMembers = (if hasScan then [scan_member s] else []) @
            [brute_member s, \<lparr>mAt = t, mStage = ''success'', mNote = successNote user tgt raw\<rparr>],
          iFirstAt = first, iLastAt = t,
          iKey = ''killchain|'' @ actor\<rparr>)"

definition ObserveSuccess ::
    "Correlator \<Rightarrow> string \<Rightarrow> string \<Rightarrow> string \<Rightarrow> time \<Rightarrow> string \<Rightarrow> Incident option \<times> Correlator" where
  "ObserveSuccess c actor host user t raw =
     (case crStates c actor of
        None \<Rightarrow> (None, c)
      | Some s \<Rightarrow>
          if acBrute s = None then (None, c)
          else if Sub t (acBruteAt s) > crWindow c \<or> Before t (acBruteAt s) then (None, c)
          else if fired_recently c actor t then (None, c)
          else let hasScan = scan_linked c s (acBruteAt s)
               in (Some (success_incident s actor host user t raw hasScan),
                   c\<lparr>crFired := (crFired c)(actor \<mapsto> t), crStates := (crStates c)(actor := None)\<rparr>))"

lemma incident_ids [simp]:
  "iActor (sentinel_incident s d hs hb) = dActor d" "iLastAt (sentinel_incident s d hs hb) = dLastAt d"
  "iActor (success_incident s a h u t r hs) = a" "iLastAt (success_incident s a h u t r hs) = t"
  by (simp_all add: sentinel_incident_def success_incident_def Let_def)

subsection \<open>The state machine\<close>

datatype cinput =
    InDetection Detection
  | InSentinel Detection
  | InSuccess string string string time string

fun corr_step :: "Correlator \<Rightarrow> cinput \<Rightarrow> Incident option \<times> Correlator" where
  "corr_step c (InDetection d) = (None, ObserveDetection c d)"
| "corr_step c (InSentinel d) = ObserveSentinelFinding c d"
| "corr_step c (InSuccess actor host user t raw) = ObserveSuccess c actor host user t raw"

text \<open>The log of a run, newest first: every input with what it emitted.\<close>

type_synonym corr_log = "(cinput \<times> Incident option) list"

inductive corr_reach :: "duration \<Rightarrow> duration \<Rightarrow> corr_log \<Rightarrow> Correlator \<Rightarrow> bool" for w cl where
  init: "corr_reach w cl [] (New w cl)"
| step: "corr_reach w cl lg c \<Longrightarrow> corr_step c x = (out, c') \<Longrightarrow> corr_reach w cl ((x, out) # lg) c'"

inductive_cases corr_reach_stepE: "corr_reach w cl ((x, out) # lg) c"

text \<open>What a log says about an actor: the last detection of a kind since the actor's last incident,
  and that incident.\<close>

fun last_det :: "Kind \<Rightarrow> string \<Rightarrow> corr_log \<Rightarrow> Detection option" where
  "last_det k a [] = None"
| "last_det k a ((x, Some inc) # lg) = (if iActor inc = a then None else last_det k a lg)"
| "last_det k a ((InDetection d, None) # lg) =
     (if dKind d = k \<and> dActor d = a then Some d else last_det k a lg)"
| "last_det k a ((x, None) # lg) = last_det k a lg"

fun last_incident :: "string \<Rightarrow> corr_log \<Rightarrow> Incident option" where
  "last_incident a [] = None"
| "last_incident a ((x, Some inc) # lg) = (if iActor inc = a then Some inc else last_incident a lg)"
| "last_incident a ((x, None) # lg) = last_incident a lg"

text \<open>The memory of the correlator is what the log says.\<close>

definition remembers :: "corr_log \<Rightarrow> Correlator \<Rightarrow> bool" where
  "remembers lg c \<longleftrightarrow>
     (\<forall>a. acBrute (state c a) = last_det KindBruteForce a lg \<and>
          (\<forall>b. last_det KindBruteForce a lg = Some b \<longrightarrow> acBruteAt (state c a) = dLastAt b) \<and>
          acScanAt (state c a) = (case last_det KindScan a lg of None \<Rightarrow> zero_time | Some d \<Rightarrow> dLastAt d) \<and>
          acScanNote (state c a) = (case last_det KindScan a lg of None \<Rightarrow> [] | Some d \<Rightarrow> dTitle d) \<and>
          crFired c a = map_option iLastAt (last_incident a lg))"

lemma success_emits:
  "ObserveSuccess c actor host user t raw = (Some inc, c') \<Longrightarrow>
     iActor inc = actor \<and> iLastAt inc = t \<and>
     c' = c\<lparr>crFired := (crFired c)(actor \<mapsto> t), crStates := (crStates c)(actor := None)\<rparr>"
  by (auto simp: ObserveSuccess_def Let_def split: option.splits if_splits)

lemma success_silent: "ObserveSuccess c actor host user t raw = (None, c') \<Longrightarrow> c' = c"
  by (auto simp: ObserveSuccess_def Let_def split: option.splits if_splits)

lemma sentinel_emits:
  "ObserveSentinelFinding c d = (Some inc, c') \<Longrightarrow>
     iActor inc = dActor d \<and> iLastAt inc = dLastAt d \<and>
     c' = c\<lparr>crFired := (crFired c)(dActor d \<mapsto> dLastAt d), crStates := (crStates c)(dActor d := None)\<rparr>"
  by (auto simp: ObserveSentinelFinding_def Let_def split: option.splits if_splits)

lemma sentinel_silent: "ObserveSentinelFinding c d = (None, c') \<Longrightarrow> c' = c"
  by (auto simp: ObserveSentinelFinding_def Let_def split: option.splits if_splits)

lemma step_emits:
  assumes "corr_step c x = (Some inc, c')"
  shows "c' = c\<lparr>crFired := (crFired c)(iActor inc \<mapsto> iLastAt inc), crStates := (crStates c)(iActor inc := None)\<rparr>"
  using assms success_emits sentinel_emits by (cases x) fastforce+

lemma step_silent:
  assumes "corr_step c x = (None, c')" and "\<forall>d. x \<noteq> InDetection d"
  shows "c' = c"
  using assms by (cases x) (auto dest: success_silent sentinel_silent)

lemma state_upd [simp]:
  "state (c\<lparr>crStates := (crStates c)(a \<mapsto> s)\<rparr>) a' = (if a' = a then s else state c a')"
  "state (c\<lparr>crFired := f, crStates := (crStates c)(a := None)\<rparr>) a' = (if a' = a then zero_state else state c a')"
  by (simp_all add: state_def)

lemma scan_not_brute [simp]: "KindScan \<noteq> KindBruteForce" "KindBruteForce \<noteq> KindScan"
  by (simp_all add: kind_consts)

lemma last_det_other:
  "\<forall>d. x \<noteq> InDetection d \<Longrightarrow> last_det k a ((x, None) # lg) = last_det k a lg"
  by (cases x) auto

lemma reach_remembers: "corr_reach w cl lg c \<Longrightarrow> remembers lg c"
proof (induction rule: corr_reach.induct)
  case init
  then show ?case by (simp add: remembers_def New_def state_def zero_state_def)
next
  case (step lg c x out c')
  show ?case
  proof (cases out)
    case (Some inc)
    with step show ?thesis
      using step_emits [of c x inc c'] by (auto simp: remembers_def zero_state_def)
  next
    case None
    show ?thesis
    proof (cases "\<exists>d. x = InDetection d")
      case True
      with step None show ?thesis
        by (auto simp: remembers_def ObserveDetection_def Let_def)
    next
      case False
      with step None step_silent [of c x c'] show ?thesis
        by (simp add: remembers_def last_det_other)
    qed
  qed
qed

lemma ObserveDetection_params [simp]:
  "crWindow (ObserveDetection c d) = crWindow c" "crCool (ObserveDetection c d) = crCool c"
  "crFired (ObserveDetection c d) = crFired c"
  by (simp_all add: ObserveDetection_def Let_def)

lemma step_params: "corr_step c x = (out, c') \<Longrightarrow> crWindow c' = crWindow c \<and> crCool c' = crCool c"
proof (cases out)
  case None
  then show "corr_step c x = (out, c') \<Longrightarrow> ?thesis"
    using step_silent [of c x c'] by (cases x) auto
qed (auto dest: step_emits)

lemma reach_params: "corr_reach w cl lg c \<Longrightarrow> crWindow c = crWindow (New w cl) \<and> crCool c = crCool (New w cl)"
  by (induction rule: corr_reach.induct) (auto dest: step_params)

subsection \<open>Properties\<close>

definition cinput_time :: "cinput \<Rightarrow> time" where
  "cinput_time x = (case x of InDetection d \<Rightarrow> dLastAt d | InSentinel d \<Rightarrow> dLastAt d | InSuccess _ _ _ t _ \<Rightarrow> t)"

definition corr_observe :: "Correlator \<Rightarrow> cinput \<Rightarrow> Incident list \<times> Correlator" where
  "corr_observe c x = (case corr_step c x of (o', c') \<Rightarrow> (case o' of None \<Rightarrow> [] | Some i \<Rightarrow> [i], c'))"

lemma corr_step_cooled:
  "corr_step c x = (Some inc, c') \<Longrightarrow> iLastAt inc = cinput_time x \<and> \<not> fired_recently c (iActor inc) (cinput_time x)"
  by (cases x) (auto simp: ObserveSuccess_def ObserveSentinelFinding_def cinput_time_def Let_def
      split: option.splits if_splits)

interpretation corr: firing corr_observe cinput_time iLastAt iActor crFired crCool "\<lambda>k. k"
proof
  fix c x incs c' inc u k
  assume "corr_observe c x = (incs, c')"
  then consider "corr_step c x = (None, c')" "incs = []" | i where "corr_step c x = (Some i, c')" "incs = [i]"
    by (auto simp: corr_observe_def split: prod.splits option.splits)
  note cs = this
  have quiet: "crFired c' = crFired c" if "corr_step c x = (None, c')"
    using that step_silent [OF that] by (cases x) auto
  have hit: "crFired c' = (crFired c)(iActor i \<mapsto> cinput_time x)" if "corr_step c x = (Some i, c')" for i
    using step_emits [OF that] corr_step_cooled [OF that] by simp
  show "crCool c' = crCool c" by (rule cs) (auto dest: step_params)
  show "distinct (map ((\<lambda>k. k) \<circ> iActor) incs)" by (rule cs) auto
  show "iLastAt inc = cinput_time x" if "inc \<in> set incs"
    by (rule cs) (use that in \<open>auto dest: corr_step_cooled\<close>)
  show "\<not> Sub (cinput_time x) u < crCool c" if "inc \<in> set incs" "crFired c (iActor inc) = Some u"
    by (rule cs) (use that in \<open>auto dest!: corr_step_cooled simp: fired_recently_def\<close>)
  show "crFired c' k = (if k \<in> ((\<lambda>k. k) \<circ> iActor) ` set incs then Some (cinput_time x) else crFired c k)"
    by (rule cs) (auto simp: quiet hit)
qed

text \<open>Incidents do not repeat within the cooldown: in every run of the correlator, two incidents
  of the same actor are at least the configured cooldown apart.\<close>

theorem incidents_spaced:
  assumes "cl \<le> maxInt64"
  shows "sorted_wrt (\<lambda>i j. iActor i = iActor j \<longrightarrow>
      iLastAt i + (if cl \<le> 0 then 15 * minute else cl) \<le> iLastAt j) (corr.outputs (New w cl) xs)"
  using corr.spaced [of "New w cl" xs] assms
  by (simp add: New_def minute_def second_def maxInt64_def split: if_splits)

text \<open>A concrete run for the witnesses: a scan at time 20 and a brute force at time 25.\<close>

definition ex_det :: "Kind \<Rightarrow> time \<Rightarrow> Detection" where
  "ex_det k t = \<lparr>dKind = k, dSeverity = SevHigh, dActor = ''203.0.113.9'', dTarget = ''web'', dUser = [],
     dTitle = k, dDetail = [], dCount = 9, dFirstAt = t, dLastAt = t, dEvidence = [], dKey = k\<rparr>"

definition ex_log :: corr_log where
  "ex_log = [(InDetection (ex_det KindBruteForce 25), None), (InDetection (ex_det KindScan 20), None)]"

definition ex_corr :: Correlator where
  "ex_corr = ObserveDetection (ObserveDetection (New 10 7) (ex_det KindScan 20)) (ex_det KindBruteForce 25)"

lemma ex_corr_reach: "corr_reach 10 7 ex_log ex_corr"
  unfolding ex_log_def ex_corr_def by (rule corr_reach.step [OF corr_reach.step [OF corr_reach.init]]) simp_all

theorem incidents_spaced_witness:
  "sorted_wrt (\<lambda>i j. iActor i = iActor j \<longrightarrow> iLastAt i + 7 \<le> iLastAt j)
     (corr.outputs (New 10 7) [InDetection (ex_det KindBruteForce 25), InSuccess ''203.0.113.9'' [] [] 30 []])"
  using incidents_spaced [of 7 10] by (simp add: maxInt64_def del: corr.outputs.simps)

text \<open>The specification of an incident in terms of the complete log.\<close>

definition cooled_down :: "duration \<Rightarrow> corr_log \<Rightarrow> string \<Rightarrow> time \<Rightarrow> bool" where
  "cooled_down cl lg a t = (case last_incident a lg of None \<Rightarrow> True | Some i \<Rightarrow> cl \<le> Sub t (iLastAt i))"

definition linked :: "duration \<Rightarrow> Detection \<Rightarrow> time \<Rightarrow> bool" where
  "linked w d t \<longleftrightarrow> dLastAt d \<le> t \<and> Sub t (dLastAt d) \<le> w"

definition success_spec ::
    "duration \<Rightarrow> duration \<Rightarrow> corr_log \<Rightarrow> string \<Rightarrow> time \<Rightarrow> (string \<times> (string \<times> time) list) option" where
  "success_spec w cl lg a t =
     (case last_det KindBruteForce a lg of
        None \<Rightarrow> None
      | Some b \<Rightarrow>
          if linked w b t \<and> cooled_down cl lg a t
          then Some (case last_det KindScan a lg of
              Some d \<Rightarrow> if dLastAt d \<noteq> zero_time \<and> linked w d (dLastAt b)
                then (''critical'', [(''scan'', dLastAt d), (''brute_force'', dLastAt b), (''success'', t)])
                else (''high'', [(''brute_force'', dLastAt b), (''success'', t)])
            | None \<Rightarrow> (''high'', [(''brute_force'', dLastAt b), (''success'', t)]))
          else None)"

definition sentinel_spec ::
    "duration \<Rightarrow> duration \<Rightarrow> corr_log \<Rightarrow> Detection \<Rightarrow> (string \<times> (string \<times> time) list) option" where
  "sentinel_spec w cl lg d =
     (let t = dLastAt d; a = dActor d;
          sc = (case last_det KindScan a lg of
                  None \<Rightarrow> [] | Some s \<Rightarrow> if dLastAt s \<noteq> zero_time \<and> linked w s t then [(''scan'', dLastAt s)] else []);
          br = (case last_det KindBruteForce a lg of
                  None \<Rightarrow> [] | Some b \<Rightarrow> if linked w b t then [(''brute_force'', dLastAt b)] else [])
      in if dKind d = KindSentinel \<and> a \<noteq> [] \<and> cooled_down cl lg a t \<and> sc @ br \<noteq> []
         then Some (''critical'', sc @ br @ [(''deception'', t)]) else None)"

abbreviation summary :: "Incident \<Rightarrow> string \<times> (string \<times> time) list" where
  "summary i \<equiv> (iSeverity i, map (\<lambda>m. (mStage m, mAt m)) (iMembers i))"

lemma summary_success:
  "iSeverity (success_incident s a h u t r hs) = (if hs then ''critical'' else ''high'')"
  "map (\<lambda>m. (mStage m, mAt m)) (iMembers (success_incident s a h u t r hs)) =
     (if hs then [(''scan'', acScanAt s)] else []) @ [(''brute_force'', acBruteAt s), (''success'', t)]"
  by (simp_all add: success_incident_def scan_member_def brute_member_def Let_def)

lemma summary_sentinel:
  "iSeverity (sentinel_incident s d hs hb) = ''critical''"
  "map (\<lambda>m. (mStage m, mAt m)) (iMembers (sentinel_incident s d hs hb)) =
     (if hs then [(''scan'', acScanAt s)] else []) @ (if hb then [(''brute_force'', acBruteAt s)] else []) @
     [(''deception'', dLastAt d)]"
  by (simp_all add: sentinel_incident_def scan_member_def brute_member_def Let_def)

lemma remembers_facts:
  assumes "remembers lg c"
  shows "acBrute (state c a) = last_det KindBruteForce a lg"
    and "last_det KindBruteForce a lg = Some b \<Longrightarrow> acBruteAt (state c a) = dLastAt b"
    and "acScanAt (state c a) = (case last_det KindScan a lg of None \<Rightarrow> zero_time | Some d \<Rightarrow> dLastAt d)"
    and "fired_recently c a t = (\<not> cooled_down (crCool c) lg a t)"
  using assms by (auto simp: remembers_def fired_recently_def cooled_down_def split: option.splits)

text \<open>C3. A successful login raises an incident exactly when the complete log of the run calls for
  one: the actor's last brute-force detection since its last incident lies at most the window
  before the login and not after it, and the cooldown since that incident has passed; it is
  critical, with the scan as its first member, exactly when the actor's last scan since that
  incident lies within the window before the brute force.\<close>

theorem success_incident_refines_log:
  assumes "corr_reach w cl lg c"
  shows "map_option summary (fst (ObserveSuccess c a host user t raw)) =
    success_spec (if w \<le> 0 then 10 * minute else w) (if cl \<le> 0 then 15 * minute else cl) lg a t"
proof -
  note R = remembers_facts [OF reach_remembers [OF assms]]
  have p: "crWindow c = (if w \<le> 0 then 10 * minute else w)" "crCool c = (if cl \<le> 0 then 15 * minute else cl)"
    using reach_params [OF assms] by (simp_all add: New_def)
  show ?thesis
  proof (cases "last_det KindBruteForce a lg")
    case None
    then show ?thesis
      using R(1) [of a] by (auto simp: ObserveSuccess_def success_spec_def state_def split: option.splits)
  next
    case (Some b)
    then obtain s where s: "crStates c a = Some s" "state c a = s"
      using R(1) [of a] by (auto simp: state_def zero_state_def split: option.splits)
    have f: "acBrute s = Some b" "acBruteAt s = dLastAt b"
      "acScanAt s = (case last_det KindScan a lg of None \<Rightarrow> zero_time | Some d \<Rightarrow> dLastAt d)"
      using R(1-3) [of a] Some s(2) by simp_all
    show ?thesis
      unfolding ObserveSuccess_def success_spec_def s option.case f p [symmetric] Some Let_def
      using R(4) [of a t]
      by (auto simp: summary_success scan_linked_def f linked_def time_defs split: option.splits)
  qed
qed

theorem success_incident_refines_log_witness:
  "map_option summary (fst (ObserveSuccess ex_corr ''203.0.113.9'' ''web'' ''root'' 30 [])) =
     Some (''critical'', [(''scan'', 20), (''brute_force'', 25), (''success'', 30)])"
  using success_incident_refines_log [OF ex_corr_reach, of "''203.0.113.9''" "''web''" "''root''" 30 "[]"]
  by (simp add: success_spec_def ex_log_def ex_det_def cooled_down_def linked_def kind_consts Sub_def
      maxInt64_def minInt64_def zero_time_def)

text \<open>A decoy finding completes a chain exactly when the complete log has a scan or a brute
  force of the same actor, since its last incident, within the window before it; the incident is
  always critical and lists exactly the linked stages.\<close>

theorem sentinel_incident_refines_log:
  assumes "corr_reach w cl lg c"
  shows "map_option summary (fst (ObserveSentinelFinding c d)) =
    sentinel_spec (if w \<le> 0 then 10 * minute else w) (if cl \<le> 0 then 15 * minute else cl) lg d"
proof -
  let ?a = "dActor d" and ?t = "dLastAt d"
  note R = remembers_facts [OF reach_remembers [OF assms]]
  have p: "crWindow c = (if w \<le> 0 then 10 * minute else w)" "crCool c = (if cl \<le> 0 then 15 * minute else cl)"
    using reach_params [OF assms] by (simp_all add: New_def)
  have sc: "scan_linked c (state c ?a) ?t \<longleftrightarrow>
      (\<exists>s. last_det KindScan ?a lg = Some s \<and> dLastAt s \<noteq> zero_time \<and> linked (crWindow c) s ?t)"
    using R(3) [of ?a] by (auto simp: scan_linked_def linked_def time_defs split: option.splits)
  have br: "brute_linked c (state c ?a) ?t \<longleftrightarrow>
      (\<exists>b. last_det KindBruteForce ?a lg = Some b \<and> linked (crWindow c) b ?t)"
    using R(1,2) [of ?a] by (auto simp: brute_linked_def linked_def time_defs)
  have none: "\<not> scan_linked c (state c ?a) ?t \<and> \<not> brute_linked c (state c ?a) ?t" if "crStates c ?a = None"
    using that by (simp add: state_def zero_state_def scan_linked_def brute_linked_def time_defs)
  show ?thesis
  proof (cases "crStates c ?a")
    case None
    with none sc br show ?thesis
      unfolding p [symmetric] by (auto simp: ObserveSentinelFinding_def sentinel_spec_def Let_def split: option.splits)
  next
    case (Some s)
    then have s: "state c ?a = s" by (simp add: state_def)
    show ?thesis
      unfolding ObserveSentinelFinding_def sentinel_spec_def p [symmetric] Some option.case Let_def
      using R(4) [of ?a ?t] sc [unfolded s] br [unfolded s] R(2) [of ?a, unfolded s] R(3) [of ?a, unfolded s]
      by (cases "last_det KindScan ?a lg"; cases "last_det KindBruteForce ?a lg")
        (simp_all add: summary_sentinel)
  qed
qed

theorem sentinel_incident_refines_log_witness:
  "map_option summary (fst (ObserveSentinelFinding ex_corr (ex_det KindSentinel 32))) =
     Some (''critical'', [(''brute_force'', 25), (''deception'', 32)])"
  using sentinel_incident_refines_log [OF ex_corr_reach, of "ex_det KindSentinel 32"]
  by (simp add: sentinel_spec_def ex_log_def ex_det_def cooled_down_def linked_def kind_consts Sub_def
      maxInt64_def minInt64_def zero_time_def)

text \<open>The start of an incident is taken from the remembered scan even when that scan is not linked:
  there is a run whose incident starts before every one of its members, by more than the window.\<close>

lemma incident_start_outside_members:
  "\<exists>lg c inc c'. corr_reach 10 7 lg c \<and> ObserveSuccess c ''203.0.113.9'' [] [] 105 [] = (Some inc, c') \<and>
     (\<forall>m\<in>set (iMembers inc). iFirstAt inc + 10 < mAt m)"
proof -
  let ?x = "InDetection (ex_det KindScan 20)" and ?y = "InDetection (ex_det KindBruteForce 100)"
  let ?c = "ObserveDetection (ObserveDetection (New 10 7) (ex_det KindScan 20)) (ex_det KindBruteForce 100)"
  have "corr_reach 10 7 [(?y, None), (?x, None)] ?c"
    by (rule corr_reach.step [OF corr_reach.step [OF corr_reach.init]]) simp_all
  moreover have "fst (ObserveSuccess ?c ''203.0.113.9'' [] [] 105 []) \<noteq> None \<and>
      (\<forall>m\<in>set (iMembers (the (fst (ObserveSuccess ?c ''203.0.113.9'' [] [] 105 [])))).
        iFirstAt (the (fst (ObserveSuccess ?c ''203.0.113.9'' [] [] 105 []))) + 10 < mAt m)"
    by (simp add: ObserveSuccess_def ObserveDetection_def New_def state_def zero_state_def ex_det_def kind_consts
        fired_recently_def scan_linked_def success_incident_def brute_member_def Sub_def maxInt64_def
        minInt64_def time_defs Let_def)
  ultimately show ?thesis by (metis option.collapse prod.collapse)
qed

end
