(* ===== verification/Loglight.thy ===== *)
theory Loglight
  imports Log_Store Reconcile Notify Correlate
begin

text \<open>
  The product: the collector of loglight/loglight.go (the poll-driven backstop, path B) and the
  pipeline of loglight/pipeline.go (the real-time path A). The layout of a time stamp
  (\<^verbatim>\<open>time.RFC3339\<close>), the clock, the context's error and the id generator are arguments.

  Over the contract \<open>detection_store\<close> the collector emits exactly the detections still inside the
  active window; with the reconcile engine this gives the life cycle of a detection: stored open
  and announced the moment it fires, kept open while it recurs, resolved once quiet.
\<close>

definition Version :: string where "Version = ''0.2.4''"

definition ModuleID :: string where "ModuleID = ''loglight''"

definition ActiveWindow :: duration where "ActiveWindow = 30 * minute"

subsection \<open>Findings\<close>

definition detectionFinding :: "(time \<Rightarrow> string) \<Rightarrow> DetectionRecord \<Rightarrow> Finding" where
  "detectionFinding rfc d =
     (let sev = (if \<not> Valid (drSeverity d) then SeverityMedium else drSeverity d);
          fix' = (if TrimSpace (drFix d) = [] then ''Investigate the actor and affected host.'' else drFix d);
          ev = [(''actor'', AStr (drActor d)), (''count'', AInt (drCount d)),
                (''first_seen'', AStr (rfc (drFirstAt d))), (''last_seen'', AStr (rfc (drLastAt d)))];
          ev = (if drTarget d \<noteq> [] then ev @ [(''target'', AStr (drTarget d))] else ev);
          ev = (if length (drEvidence d) > 0 then ev @ [(''evidence'', AStrs (drEvidence d))] else ev);
          ev = (if drDetail d \<noteq> [] then ev @ [(''detail'', AStr (drDetail d))] else ev)
      in \<lparr>fFingerprint = Fingerprint ModuleID (drSourceID d) (drCheck d) (drKey d), fTarget = drSourceID d,
          fCheck = drCheck d, fTitle = drTitle d, fSeverity = sev, fRemediation = fix', fEvidence = Some ev,
          fID = [], fModule = [], fStatus = [], fGroupID = None, fFirstSeen = zero_time, fLastSeen = zero_time,
          fResolvedAt = None\<rparr>)"

definition parseRateFinding :: "SourceConfig \<Rightarrow> f64 \<Rightarrow> Finding" where
  "parseRateFinding s rate =
     \<lparr>fFingerprint = Fingerprint ModuleID (scName s) ''ingest.parse_rate'' [], fTarget = scName s,
      fCheck = ''ingest.parse_rate'', fTitle = ''Low parse rate on source '' @ scName s, fSeverity = SeverityLow,
      fRemediation = ''Many lines from this source aren't being parsed '' @ em_dash @
        '' check the source type and format. Unparsed lines are stored but not analysed.'',
      fEvidence = Some [(''parse_rate'', AFloat rate), (''type'', AStr (scType s))],
      fID = [], fModule = [], fStatus = [], fGroupID = None, fFirstSeen = zero_time, fLastSeen = zero_time,
      fResolvedAt = None\<rparr>"

subsection \<open>The collector\<close>

definition Describe :: ModuleInfo where
  "Describe = \<lparr>mID = ModuleID, mName = ''Loglight'', mVersion = Version, mTargetKind = ''source'',
     mDefaultInterval = 5 * minute, mResolveAfter = 1\<rparr>"

definition ValidateTarget :: "string \<Rightarrow> error + Target" where
  "ValidateTarget raw =
     (let name = TrimSpace raw
      in if name = [] then Inl (IngestError ''target'' ''empty source name'')
         else Inr \<lparr>tRaw = raw, tCanonical = name, tMeta = Map.empty\<rparr>)"

text \<open>The loop over the detections; \<open>ctxErr k\<close> is the context's error at the \<open>k\<close>-th one.\<close>

fun emit_active :: "(time \<Rightarrow> string) \<Rightarrow> (nat \<Rightarrow> error option) \<Rightarrow> time \<Rightarrow> nat \<Rightarrow> DetectionRecord list \<Rightarrow> error + Finding list" where
  "emit_active rfc ctxErr cutoff k [] = Inr []"
| "emit_active rfc ctxErr cutoff k (d # ds) =
     (case ctxErr k of
        Some err \<Rightarrow> Inl err
      | None \<Rightarrow>
          if Before (drLastAt d) cutoff then emit_active rfc ctxErr cutoff (Suc k) ds
          else (case emit_active rfc ctxErr cutoff (Suc k) ds of
                  Inl err \<Rightarrow> Inl err
                | Inr fs \<Rightarrow> Inr (detectionFinding rfc d # fs)))"

definition Collect ::
    "'s LStore \<Rightarrow> (time \<Rightarrow> string) \<Rightarrow> (nat \<Rightarrow> error option) \<Rightarrow> (string \<Rightarrow> f64) option \<Rightarrow> time \<Rightarrow> 's \<Rightarrow> Target
      \<Rightarrow> error + Finding list" where
  "Collect ops rfc ctxErr parseFor now s t =
     (case lsGetSource ops s (tCanonical t) of
        Inl err \<Rightarrow> Inl err
      | Inr None \<Rightarrow> Inr []
      | Inr (Some src) \<Rightarrow>
          (case lsListDetections ops s (tCanonical t) of
             Inl err \<Rightarrow> Inl err
           | Inr dets \<Rightarrow>
               (case emit_active rfc ctxErr (Add now (- ActiveWindow)) 0 dets of
                  Inl err \<Rightarrow> Inl err
                | Inr out \<Rightarrow>
                    (case parseFor of
                       None \<Rightarrow> Inr out
                     | Some rateOf \<Rightarrow>
                         (let rate = rateOf (tCanonical t)
                          in if f64_lt rate (Fin (1 / 2)) then Inr (out @ [parseRateFinding src rate]) else Inr out)))))"

subsection \<open>The pipeline\<close>

definition fixFor :: "Kind \<Rightarrow> string" where
  "fixFor k =
     (if k = KindBruteForce then ''Block the source IP and confirm no login succeeded. Enforce rate-limiting / fail2ban and key-only auth.''
      else if k = KindScan then ''Confirm the source is authorised. Block it at the perimeter if not; ensure only intended ports are exposed.''
      else if k = KindExfil then ''Investigate the outbound transfer from this host now '' @ em_dash @ '' unexpected large egress can be data exfiltration.''
      else if k = KindNewAdmin then ''Verify this account/privilege grant was authorised and change-controlled. If not, disable it and investigate.''
      else if k = KindAuthSpike then ''Likely credential stuffing '' @ em_dash @ '' enable rate-limiting/MFA and watch for any success from the same sources.''
      else if k = KindBeacon then ''Isolate the host and inspect the process making these connections '' @ em_dash @
        '' a fixed-interval call-out to one external endpoint is the classic C2 heartbeat. Block the destination at the firewall.''
      else if k = KindNewService then ''Confirm this service was installed deliberately and is change-controlled. If nobody owns it, treat it as a possible backdoor: stop it and investigate the host.''
      else ''Investigate the actor and affected host.'')"

record ('l, 's, 'c) Pipeline =
  plDetect :: Engine
  plCorr :: Correlator
  plLog :: 'l
  plStore :: 's
  plDisp :: "'c Dispatcher"
  plIDs :: nat

text \<open>The collaborators of a pipeline: the stores it writes to (the findings store and the
  dispatcher may be absent), the id generator by call, the time layout, and the clock and map order
  the dispatcher uses.\<close>

record ('l, 's) pipe_env =
  peLog :: "'l LStore"
  peStore :: "'s Store option"
  peDisp :: bool
  peNewID :: "nat \<Rightarrow> time \<Rightarrow> error + string"
  peRFC :: "time \<Rightarrow> string"
  peIter :: pend_order
  peNow :: time

definition path_a_record :: "(time \<Rightarrow> string) \<Rightarrow> string \<Rightarrow> DetectionRecord \<Rightarrow> Record" where
  "path_a_record rfc fid rec =
     (let f = detectionFinding rfc rec
      in \<lparr>fFingerprint = fFingerprint f, fTarget = fTarget f, fCheck = fCheck f, fTitle = fTitle f, fSeverity = fSeverity f,
          fRemediation = fRemediation f, fEvidence = fEvidence f, fID = fid, fModule = ModuleID, fStatus = StatusOpen,
          fGroupID = fGroupID f, fFirstSeen = drFirstAt rec, fLastSeen = drLastAt rec, fResolvedAt = fResolvedAt f,
          rAbsentStreak = 0\<rparr>)"

definition persistAndEmit ::
    "('l, 's) pipe_env \<Rightarrow> DetectionRecord \<Rightarrow> ('l, 's, 'c) Pipeline \<Rightarrow> ('c \<times> Digest) list \<times> ('l, 's, 'c) Pipeline" where
  "persistAndEmit env rec p =
     (let p = p\<lparr>plLog := snd (lsUpsertDetection (peLog env) (plLog p) rec)\<rparr>;
          f = detectionFinding (peRFC env) rec;
          newID = peNewID env (plIDs p) (drLastAt rec);
          p = p\<lparr>plIDs := Suc (plIDs p)\<rparr>
      in case newID of
           Inl _ \<Rightarrow> ([], p)
         | Inr fid \<Rightarrow>
             (let (err, p) = (case peStore env of
                                None \<Rightarrow> (None, p)
                              | Some ops \<Rightarrow>
                                  (let (err, s) = opUpsert ops (plStore p) (path_a_record (peRFC env) fid rec)
                                   in (err, p\<lparr>plStore := s\<rparr>)))
              in case err of
                   Some _ \<Rightarrow> ([], p)
                 | None \<Rightarrow>
                     if peDisp env then
                       (let (out, d) = Enqueue (peIter env) (peNow env)
                              \<lparr>neKind = KindOpened, neModule = ModuleID, neFinding = f\<rparr> (plDisp p)
                        in (out, p\<lparr>plDisp := d\<rparr>))
                     else ([], p)))"

definition detection_rec :: "string \<Rightarrow> Detection \<Rightarrow> DetectionRecord" where
  "detection_rec sourceID d =
     \<lparr>drKey = dKey d, drSourceID = sourceID, drCheck = ''detect.'' @ dKind d, drSeverity = dSeverity d, drActor = dActor d,
      drTarget = dTarget d, drTitle = dTitle d, drDetail = dDetail d, drEvidence = dEvidence d, drFix = fixFor (dKind d),
      drCount = dCount d, drFirstAt = dFirstAt d, drLastAt = dLastAt d\<rparr>"

definition recordDetection ::
    "('l, 's) pipe_env \<Rightarrow> string \<Rightarrow> Detection \<Rightarrow> ('l, 's, 'c) Pipeline \<Rightarrow> ('c \<times> Digest) list \<times> ('l, 's, 'c) Pipeline" where
  "recordDetection env sourceID d p = persistAndEmit env (detection_rec sourceID d) p"

definition incident_rec :: "(time \<Rightarrow> string) \<Rightarrow> string \<Rightarrow> Incident \<Rightarrow> DetectionRecord" where
  "incident_rec rfc sourceID inc =
     \<lparr>drKey = iKey inc, drSourceID = sourceID, drCheck = ''incident.killchain'', drSeverity = iSeverity inc, drActor = iActor inc,
      drTarget = iTarget inc, drTitle = iTitle inc, drDetail = iDetail inc,
      drEvidence = map (\<lambda>m. rfc (mAt m) @ ''  ['' @ mStage m @ '']  '' @ mNote m) (iMembers inc),
      drFix = ''Treat as a possible compromise: isolate the host, rotate the affected credential, and review the session.'',
      drCount = int (length (iMembers inc)), drFirstAt = iFirstAt inc, drLastAt = iLastAt inc\<rparr>"

definition recordIncident ::
    "('l, 's) pipe_env \<Rightarrow> string \<Rightarrow> Incident \<Rightarrow> ('l, 's, 'c) Pipeline \<Rightarrow> ('c \<times> Digest) list \<times> ('l, 's, 'c) Pipeline" where
  "recordIncident env sourceID inc p = persistAndEmit env (incident_rec (peRFC env) sourceID inc) p"

definition record_opt_incident ::
    "('l, 's) pipe_env \<Rightarrow> string \<Rightarrow> Incident option \<Rightarrow> ('l, 's, 'c) Pipeline \<Rightarrow> ('c \<times> Digest) list \<times> ('l, 's, 'c) Pipeline" where
  "record_opt_incident env sourceID inc p =
     (case inc of None \<Rightarrow> ([], p) | Some i \<Rightarrow> recordIncident env sourceID i p)"

text \<open>The body of the loop over the fired detections.\<close>

definition handle_detection ::
    "('l, 's) pipe_env \<Rightarrow> string \<Rightarrow> Detection \<Rightarrow> ('l, 's, 'c) Pipeline \<Rightarrow> ('c \<times> Digest) list \<times> ('l, 's, 'c) Pipeline" where
  "handle_detection env sourceID d p =
     (let p = p\<lparr>plCorr := ObserveDetection (plCorr p) d\<rparr>;
          (out1, p) = recordDetection env sourceID d p;
          (inc, c) = ObserveSentinelFinding (plCorr p) d;
          (out2, p) = record_opt_incident env sourceID inc (p\<lparr>plCorr := c\<rparr>)
      in (out1 @ out2, p))"

fun handle_detections ::
    "('l, 's) pipe_env \<Rightarrow> string \<Rightarrow> Detection list \<Rightarrow> ('l, 's, 'c) Pipeline \<Rightarrow> ('c \<times> Digest) list \<times> ('l, 's, 'c) Pipeline" where
  "handle_detections env sourceID [] p = ([], p)"
| "handle_detections env sourceID (d # ds) p =
     (let (out1, p) = handle_detection env sourceID d p;
          (out2, p) = handle_detections env sourceID ds p
      in (out1 @ out2, p))"

definition Handle ::
    "('l, 's) pipe_env \<Rightarrow> Log_Event.Event \<Rightarrow> ('l, 's, 'c) Pipeline \<Rightarrow> ('c \<times> Digest) list \<times> ('l, 's, 'c) Pipeline" where
  "Handle env e p =
     (let (dets, eng) = Engine_Observe (plDetect p) e;
          (out1, p) = handle_detections env (evSourceID e) dets (p\<lparr>plDetect := eng\<rparr>)
      in if evAuth e = AuthSuccess then
           (let (inc, c) = ObserveSuccess (plCorr p) (Actor e) (evHost e) (evUser e) (evTimestamp e) (evRaw e);
                (out2, p) = record_opt_incident env (evSourceID e) inc (p\<lparr>plCorr := c\<rparr>)
            in (out1 @ out2, p))
         else (out1, p))"

subsection \<open>What the collector emits\<close>

lemma emit_active_Inr:
  "emit_active rfc ctxErr cutoff k ds = Inr fs \<Longrightarrow> fs = map (detectionFinding rfc) (filter (\<lambda>d. cutoff \<le> drLastAt d) ds)"
  by (induction ds arbitrary: k fs) (auto simp: Before_def split: option.splits if_splits sum.splits)

definition detection_fp :: "DetectionRecord \<Rightarrow> string" where
  "detection_fp d = Fingerprint ModuleID (drSourceID d) (drCheck d) (drKey d)"

lemma detectionFinding_simps [simp]:
  "fFingerprint (detectionFinding rfc d) = detection_fp d" "fTarget (detectionFinding rfc d) = drSourceID d"
  "fTitle (detectionFinding rfc d) = drTitle d"
  by (simp_all add: detectionFinding_def detection_fp_def Let_def)

context detection_store
begin

text \<open>The collector re-emits exactly the detections of the source inside the active window.\<close>

lemma collect_active:
  assumes "invar s" and "oksrc (tCanonical t)" and "tCanonical t \<noteq> []"
    and "lsGetSource ops s (tCanonical t) = Inr (Some cfg)" and "Collect ops rfc ctxErr None now s t = Inr fs"
  shows "f \<in> set fs \<longleftrightarrow> (\<exists>d. look s (tCanonical t) (drKey d) = Some d \<and> now - ActiveWindow \<le> drLastAt d \<and> f = detectionFinding rfc d)"
proof -
  obtain dets where L: "lsListDetections ops s (tCanonical t) = Inr dets"
    and E: "emit_active rfc ctxErr (now - ActiveWindow) 0 dets = Inr fs"
    using assms(4,5) by (auto simp: Collect_def Add_def split: sum.splits)
  show ?thesis
    using list_detections [OF assms(1-3) L] emit_active_Inr [OF E] by auto
qed

end

lemma Valid_severities: "Valid SeverityMedium"
  by (simp add: Valid_def rank_def severity_consts)

lemma detectionFinding_valid:
  assumes "drSourceID d \<noteq> []" and "drCheck d \<noteq> []" and "drTitle d \<noteq> []"
  shows "ValidateForIngest (detectionFinding rfc d) = None"
  using assms Fingerprint_nonempty Valid_severities
  by (auto simp: ValidateForIngest_None_iff detectionFinding_def Let_def detection_fp_def)


text \<open>A concrete run for the witnesses.\<close>

definition ex_detection :: Detection where
  "ex_detection = \<lparr>dKind = KindScan, dSeverity = SevMedium, dActor = ''203.0.113.9'', dTarget = [], dUser = [], dTitle = ''Port scan'',
     dDetail = [], dCount = 9, dFirstAt = 5, dLastAt = 10, dEvidence = [], dKey = ''scan|203.0.113.9''\<rparr>"

definition ex_rec :: DetectionRecord where
  "ex_rec = detection_rec ''auth'' ex_detection"

definition ex_log_store :: LMemStore where
  "ex_log_store = \<lparr>lmSources = [(''auth'', \<lparr>scName = ''auth'', scType = ''file'', scParams = Map.empty, scEnabled = True, scCreatedAt = 1\<rparr>)],
     lmDets = [(detKey ''auth'' ''scan|203.0.113.9'', ex_rec)]\<rparr>"

definition ex_find_store :: MemStore where
  "ex_find_store = snd (MemStore_Upsert NewMemStore (path_a_record (\<lambda>_. []) ''id'' ex_rec))"

lemma path_a_record_simps [simp]:
  "fFingerprint (path_a_record rfc fid r) = detection_fp r" "fModule (path_a_record rfc fid r) = ModuleID"
  "fStatus (path_a_record rfc fid r) = StatusOpen" "fTarget (path_a_record rfc fid r) = drSourceID r"
  "rAbsentStreak (path_a_record rfc fid r) = 0"
  by (simp_all add: path_a_record_def Let_def)

lemma ex_rec_simps: "drSourceID ex_rec = ''auth''" "drKey ex_rec = ''scan|203.0.113.9''" "drLastAt ex_rec = 10"
  "drTitle ex_rec = ''Port scan''" "drCheck ex_rec = ''detect.scan''"
  by (simp_all add: ex_rec_def detection_rec_def ex_detection_def KindScan_def)

lemma ex_log_look: "lmem_look ex_log_store ''auth'' k = Some d \<longleftrightarrow> k = ''scan|203.0.113.9'' \<and> d = ex_rec"
  by (auto simp: lmem_look_def ex_log_store_def detKey_def)

lemma ex_find_look: "mem_look ex_find_store ModuleID (detection_fp ex_rec) = Some (path_a_record (\<lambda>_. []) ''id'' ex_rec)"
  by (simp add: ex_find_store_def mem_look_def MemStore_Upsert_def NewMemStore_def)


subsection \<open>The real-time path\<close>

text \<open>A finding is open in the findings store.\<close>

definition is_open :: "string \<Rightarrow> MemStore \<Rightarrow> bool" where
  "is_open fp s \<longleftrightarrow> (\<exists>r. mem_look s ModuleID fp = Some r \<and> fStatus r = StatusOpen)"

lemma persistAndEmit_store:
  assumes "peStore env = Some (MemStore_ops iter)" and "\<forall>k t. \<exists>fid. peNewID env k t = Inr fid"
    and "persistAndEmit env rec p = (out, p')"
  shows "\<exists>fid. plStore p' = snd (MemStore_Upsert (plStore p) (path_a_record (peRFC env) fid rec))"
proof -
  obtain fid where "peNewID env (plIDs p) (drLastAt rec) = Inr fid" using assms(2) by blast
  with assms(1,3) show ?thesis
    by (auto simp: persistAndEmit_def Let_def MemStore_ops_def MemStore_Upsert_def split: if_splits prod.splits)
qed

lemma upsert_opens:
  "is_open x (snd (MemStore_Upsert s (path_a_record rfc fid rec))) \<longleftrightarrow> x = detection_fp rec \<or> is_open x s"
  by (auto simp: is_open_def mem_look_def MemStore_Upsert_def gomap_simps key_def)

lemma persistAndEmit_opens:
  assumes "peStore env = Some (MemStore_ops iter)" and "\<forall>k t. \<exists>fid. peNewID env k t = Inr fid"
    and "persistAndEmit env rec p = (out, p')"
  shows "is_open x (plStore p') \<longleftrightarrow> x = detection_fp rec \<or> is_open x (plStore p)"
  using persistAndEmit_store [OF assms] upsert_opens by auto

lemma record_opt_incident_opens:
  assumes "peStore env = Some (MemStore_ops iter)" and "\<forall>k t. \<exists>fid. peNewID env k t = Inr fid"
    and "record_opt_incident env src inc p = (out, p')"
  shows "is_open x (plStore p') \<longleftrightarrow> is_open x (plStore p) \<or> (\<exists>i. inc = Some i \<and> x = detection_fp (incident_rec (peRFC env) src i))"
proof (cases inc)
  case None
  then show ?thesis using assms(3) by (auto simp: record_opt_incident_def)
next
  case (Some i)
  then have "persistAndEmit env (incident_rec (peRFC env) src i) p = (out, p')"
    using assms(3) by (simp add: record_opt_incident_def recordIncident_def)
  from persistAndEmit_opens [OF assms(1,2) this, of x] Some show ?thesis by auto
qed

lemma handle_detection_opens:
  assumes "peStore env = Some (MemStore_ops iter)" and "\<forall>k t. \<exists>fid. peNewID env k t = Inr fid"
    and "handle_detection env src d p = (out, p')" and "x = detection_fp (detection_rec src d) \<or> is_open x (plStore p)"
  shows "is_open x (plStore p')"
proof -
  let ?p0 = "p\<lparr>plCorr := ObserveDetection (plCorr p) d\<rparr>"
  obtain o1 p1 where 1: "persistAndEmit env (detection_rec src d) ?p0 = (o1, p1)" by fastforce
  obtain inc c where 2: "ObserveSentinelFinding (plCorr p1) d = (inc, c)" by fastforce
  obtain o2 p2 where 3: "record_opt_incident env src inc (p1\<lparr>plCorr := c\<rparr>) = (o2, p2)" by fastforce
  have "p' = p2" using assms(3) 1 2 3 by (simp add: handle_detection_def recordDetection_def Let_def)
  then show ?thesis
    using record_opt_incident_opens [OF assms(1,2) 3, of x] persistAndEmit_opens [OF assms(1,2) 1, of x] assms(4) by auto
qed

lemma handle_detections_opens:
  assumes "peStore env = Some (MemStore_ops iter)" and "\<forall>k t. \<exists>fid. peNewID env k t = Inr fid"
  shows "handle_detections env src ds p = (out, p') \<Longrightarrow> x \<in> (\<lambda>d. detection_fp (detection_rec src d)) ` set ds \<or> is_open x (plStore p) \<Longrightarrow>
    is_open x (plStore p')"
proof (induction ds arbitrary: p out)
  case (Cons d ds)
  obtain o1 p1 where 1: "handle_detection env src d p = (o1, p1)" by fastforce
  obtain o2 p2 where 2: "handle_detections env src ds p1 = (o2, p2)" by fastforce
  have 3: "p2 = p'" using Cons.prems(1) 1 2 by simp
  show ?case using Cons.IH [OF 2 [unfolded 3]] handle_detection_opens [OF assms 1, of x] Cons.prems(2) by auto
qed auto

text \<open>C1. Nothing that fires is missed: when the id generator works, after handling an event every
  detection that fired on it has an open finding in the findings store, under the fingerprint the
  backstop will report it with, and every finding that was open before still is.\<close>

theorem path_a_opens:
  assumes "peStore env = Some (MemStore_ops iter)" and "\<forall>k t. \<exists>fid. peNewID env k t = Inr fid"
    and "Engine_Observe (plDetect p) e = (dets, eng)" and "Handle env e p = (out, p')"
  shows "(\<forall>d\<in>set dets. is_open (fFingerprint (detectionFinding (peRFC env) (detection_rec (evSourceID e) d))) (plStore p')) \<and>
    (\<forall>x. is_open x (plStore p) \<longrightarrow> is_open x (plStore p'))"
proof -
  obtain o1 p1 where 1: "handle_detections env (evSourceID e) dets (p\<lparr>plDetect := eng\<rparr>) = (o1, p1)" by fastforce
  have "is_open x (plStore p1) \<Longrightarrow> is_open x (plStore p')" for x
  proof (cases "evAuth e = AuthSuccess")
    case True
    obtain inc c where 2: "ObserveSuccess (plCorr p1) (Actor e) (evHost e) (evUser e) (evTimestamp e) (evRaw e) = (inc, c)" by fastforce
    obtain o2 p2 where 3: "record_opt_incident env (evSourceID e) inc (p1\<lparr>plCorr := c\<rparr>) = (o2, p2)" by fastforce
    have "p' = p2" using assms(3,4) 1 2 3 True by (simp add: Handle_def Let_def)
    then show "is_open x (plStore p1) \<Longrightarrow> is_open x (plStore p')"
      using record_opt_incident_opens [OF assms(1,2) 3, of x] by auto
  next
    case False
    then show "is_open x (plStore p1) \<Longrightarrow> is_open x (plStore p')" using assms(3,4) 1 by (simp add: Handle_def Let_def)
  qed
  then show ?thesis using handle_detections_opens [OF assms(1,2) 1] by auto
qed

text \<open>The same upsert overrides the user: a finding that was acknowledged or suppressed is open again,
  and announced, when its detection fires again.\<close>

lemma path_a_overrides_suppression:
  assumes "peStore env = Some (MemStore_ops iter)" and "\<forall>k t. \<exists>fid. peNewID env k t = Inr fid"
    and "mem_look (plStore p) ModuleID (detection_fp rec) = Some r" and "fStatus r = StatusSuppressed"
    and "persistAndEmit env rec p = (out, p')"
  shows "\<exists>r'. mem_look (plStore p') ModuleID (detection_fp rec) = Some r' \<and> fStatus r' = StatusOpen"
  using persistAndEmit_opens [OF assms(1,2,5), of "detection_fp rec"] by (simp add: is_open_def)

definition ex_env :: "(LMemStore, MemStore) pipe_env" where
  "ex_env = \<lparr>peLog = LMem_ops \<lparr>loSources = rev, loDets = rev\<rparr>, peStore = Some (MemStore_ops rev), peDisp = True,
     peNewID = (\<lambda>k t. Inr ''id''), peRFC = (\<lambda>_. []), peIter = rev, peNow = 7\<rparr>"

definition ex_admin_event :: Log_Event.Event where
  "ex_admin_event = zero_event\<lparr>evSourceID := ''auth'', evHost := ''web'', evUser := ''eve'', evAction := ''new_admin'', evTimestamp := 7\<rparr>"

definition ex_pipeline :: "(LMemStore, MemStore, unit) Pipeline" where
  "ex_pipeline = \<lparr>plDetect = NewEngine zero_config, plCorr = New 0 0, plLog = NewLMemStore, plStore = NewMemStore,
     plDisp = NewDispatcher ex_ncfg [()], plIDs = 0\<rparr>"


lemma new_admin_observed:
  assumes "newAdmin_observe (egNewAdmin g) e = (Some d, n)"
  shows "d \<in> set (fst (Engine_Observe g e))"
  using assms by (simp add: Engine_Observe_def Let_def case_prod_beta)

lemma ex_admin_fires:
  "\<exists>d. d \<in> set (fst (Engine_Observe (plDetect ex_pipeline) ex_admin_event)) \<and> dKey d = ''newadmin|web|eve'' \<and> dKind d = KindNewAdmin"
proof -
  have "\<exists>d n. newAdmin_observe (egNewAdmin (NewEngine zero_config)) ex_admin_event = (Some d, n) \<and> dKey d = ''newadmin|web|eve'' \<and> dKind d = KindNewAdmin"
    by (simp add: NewEngine_def newNewAdmin_def newAdmin_observe_def ex_admin_event_def zero_event_def Let_def newCooldown_def firable_def orAny_def
          split: prod.splits)
  then obtain d n where "newAdmin_observe (egNewAdmin (NewEngine zero_config)) ex_admin_event = (Some d, n)"
    "dKey d = ''newadmin|web|eve'' \<and> dKind d = KindNewAdmin" by blast
  then show ?thesis using new_admin_observed [of "NewEngine zero_config" ex_admin_event d n] by (auto simp: ex_pipeline_def)
qed

theorem path_a_opens_witness:
  "is_open (Fingerprint ModuleID ''auth'' ''detect.new_admin'' ''newadmin|web|eve'') (plStore (snd (Handle ex_env ex_admin_event ex_pipeline)))"
proof -
  obtain d where d: "d \<in> set (fst (Engine_Observe (plDetect ex_pipeline) ex_admin_event))" "dKey d = ''newadmin|web|eve''" "dKind d = KindNewAdmin"
    using ex_admin_fires by blast
  have "is_open (fFingerprint (detectionFinding (peRFC ex_env) (detection_rec ''auth'' d))) (plStore (snd (Handle ex_env ex_admin_event ex_pipeline)))"
    using path_a_opens [of ex_env rev ex_pipeline ex_admin_event, OF _ _ surjective_pairing surjective_pairing] d(1)
    by (simp add: ex_env_def ex_admin_event_def)
  then show ?thesis by (simp add: detection_fp_def detection_rec_def d(2,3) KindNewAdmin_def)
qed

end
