(* ===== verification/Utf8.thy ===== *)
theory Utf8
  imports Go_Base
begin

text \<open>
  UTF-8 as Go's \<^verbatim>\<open>range\<close> over a string, \<^verbatim>\<open>utf8.DecodeRune\<close> and \<^verbatim>\<open>strings.Map\<close> treat it: a string is any
  byte sequence, a byte that does not start a valid encoding decodes to U+FFFD with width 1.
\<close>

definition byte :: "char \<Rightarrow> nat" where
  "byte c = of_char c"

definition RuneError :: nat where
  "RuneError = 65533"

definition is_cont :: "nat \<Rightarrow> bool" where
  "is_cont b \<longleftrightarrow> 128 \<le> b \<and> b < 192"

text \<open>The allowed range of the second byte, and the width, for each first byte.\<close>

definition lead :: "nat \<Rightarrow> (nat \<times> nat \<times> nat) option" where
  "lead b =
     (if 194 \<le> b \<and> b < 224 then Some (2, 128, 191)
      else if b = 224 then Some (3, 160, 191)
      else if b = 237 then Some (3, 128, 159)
      else if 225 \<le> b \<and> b < 240 then Some (3, 128, 191)
      else if b = 240 then Some (4, 144, 191)
      else if b = 244 then Some (4, 128, 143)
      else if 241 \<le> b \<and> b < 244 then Some (4, 128, 191)
      else None)"

definition DecodeRune :: "string \<Rightarrow> nat \<times> nat" where
  "DecodeRune s =
     (case map byte s of
        [] \<Rightarrow> (RuneError, 0)
      | b0 # bs \<Rightarrow>
          if b0 < 128 then (b0, 1)
          else case lead b0 of
                 None \<Rightarrow> (RuneError, 1)
               | Some (w, lo, hi) \<Rightarrow>
                   if length bs < w - 1 \<or> bs ! 0 < lo \<or> hi < bs ! 0 \<or> \<not> list_all is_cont (take (w - 2) (tl bs))
                   then (RuneError, 1)
                   else (foldl (\<lambda>r b. r * 64 + b mod 64) (b0 mod 2 ^ (7 - w)) (take (w - 1) bs), w))"

text \<open>The code points a \<^verbatim>\<open>range\<close> visits; the width is at least 1, so \<open>length s\<close> rounds are enough.\<close>

fun runes_fuel :: "nat \<Rightarrow> string \<Rightarrow> nat list" where
  "runes_fuel 0 s = []"
| "runes_fuel (Suc n) s =
     (if s = [] then [] else case DecodeRune s of (r, w) \<Rightarrow> r # runes_fuel n (drop (max 1 w) s))"

definition runes :: "string \<Rightarrow> nat list" where
  "runes s = runes_fuel (length s) s"

definition byte_char :: "nat \<Rightarrow> char" where
  "byte_char n = char_of n"

definition EncodeRune :: "nat \<Rightarrow> string" where
  "EncodeRune r =
     (if r < 128 then [byte_char r]
      else if r < 2048 then [byte_char (192 + r div 64), byte_char (128 + r mod 64)]
      else if 1114111 < r \<or> (55296 \<le> r \<and> r < 57344) then [CHR 0xEF, CHR 0xBF, CHR 0xBD]
      else if r < 65536 then [byte_char (224 + r div 4096), byte_char (128 + r div 64 mod 64), byte_char (128 + r mod 64)]
      else [byte_char (240 + r div 262144), byte_char (128 + r div 4096 mod 64), byte_char (128 + r div 64 mod 64),
            byte_char (128 + r mod 64)])"

text \<open>\<^verbatim>\<open>strings.Map\<close> with a mapping that never drops a rune.\<close>

definition MapRunes :: "(nat \<Rightarrow> nat) \<Rightarrow> string \<Rightarrow> string" where
  "MapRunes f s = concat (map (\<lambda>r. EncodeRune (f r)) (runes s))"

text \<open>\<^verbatim>\<open>strings.ToLower\<close>. Beyond ASCII only the code points whose image is ASCII are mapped (the dotted
  capital I and the Kelvin sign): every other letter stays outside ASCII, which is all that
  comparisons with ASCII words can tell.\<close>

definition lower_rune :: "nat \<Rightarrow> nat" where
  "lower_rune r = (if 65 \<le> r \<and> r \<le> 90 then r + 32 else if r = 304 then 105 else if r = 8490 then 107 else r)"

definition ToLower :: "string \<Rightarrow> string" where
  "ToLower = MapRunes lower_rune"

lemma byte_less [simp]: "byte c < 256"
  using of_char_eq_iff by (simp add: byte_def)

lemma byte_char_byte [simp]: "byte_char (byte c) = c"
  by (simp add: byte_char_def byte_def)

lemma byte_byte_char: "n < 256 \<Longrightarrow> byte (byte_char n) = n"
  by (simp add: byte_char_def byte_def)

lemma lead_bounds: "lead b = Some (w, lo, hi) \<Longrightarrow> 2 \<le> w \<and> w \<le> 4 \<and> 194 \<le> b \<and> b < 245 \<and> 128 \<le> lo \<and> hi \<le> 191"
  by (auto simp: lead_def split: if_splits)

lemma DecodeRune_width: "s \<noteq> [] \<Longrightarrow> DecodeRune s = (r, w) \<Longrightarrow> 1 \<le> w \<and> w \<le> length s"
  by (cases s) (auto simp: DecodeRune_def Let_def dest!: lead_bounds split: if_splits option.splits)

lemma runes_Nil [simp]: "runes [] = []"
  by (simp add: runes_def)

lemma runes_fuel_enough: "length s \<le> n \<Longrightarrow> runes_fuel n s = runes_fuel (length s) s"
proof (induction n arbitrary: s rule: less_induct)
  case (less n)
  show ?case
  proof (cases s)
    case (Cons c cs)
    then obtain k where n: "n = Suc k" using less.prems by (cases n) auto
    obtain r w where d: "DecodeRune s = (r, w)" by fastforce
    have w: "1 \<le> w" "w \<le> length s" using DecodeRune_width [OF _ d] Cons by auto
    let ?s = "drop (max 1 w) s"
    have l: "length ?s \<le> length cs" "length ?s \<le> k" using w Cons less.prems n by auto
    have "runes_fuel k ?s = runes_fuel (length ?s) ?s" using less.IH [of k ?s] n l by simp
    moreover have "runes_fuel (length cs) ?s = runes_fuel (length ?s) ?s"
      using less.IH [of "length cs" ?s] n l less.prems Cons by simp
    ultimately show ?thesis using Cons n d by simp
  qed (cases n; simp)
qed

lemma runes_step:
  assumes "s \<noteq> []" and "DecodeRune s = (r, w)"
  shows "runes s = r # runes (drop w s)"
proof -
  have w: "1 \<le> w" "w \<le> length s" using DecodeRune_width [OF assms] by auto
  obtain k where k: "length s = Suc k" using assms(1) by (cases s) auto
  have "runes_fuel k (drop w s) = runes (drop w s)"
    unfolding runes_def using w k by (intro runes_fuel_enough) simp
  with assms w k show ?thesis by (simp add: runes_def max_def)
qed

text \<open>A string of ASCII bytes is its own sequence of code points.\<close>

lemma runes_ascii: "list_all (\<lambda>c. byte c < 128) s \<Longrightarrow> runes s = map byte s"
proof (induction s)
  case (Cons c s)
  have "DecodeRune (c # s) = (byte c, 1)" using Cons.prems by (simp add: DecodeRune_def)
  from runes_step [OF _ this] Cons show ?case by simp
qed simp

lemma EncodeRune_bytes:
  assumes "b \<in> byte ` set (EncodeRune r)"
  shows "b = r \<or> 128 \<le> b"
proof -
  have q: "r div 64 < 32" if "r < 2048" for r :: nat using that by (simp add: div_less_iff_less_mult)
  have t: "r div 4096 < 16" if "r < 65536" for r :: nat using that by (simp add: div_less_iff_less_mult)
  have f: "r div 262144 < 5" if "\<not> 1114111 < r" for r :: nat using that by (simp add: div_less_iff_less_mult)
  have m: "x mod 64 < 64" for x :: nat by simp
  have c: "byte (byte_char (128 + x mod 64)) = 128 + x mod 64" for x
    by (rule byte_byte_char) (use m [of x] in linarith)
  from assms show ?thesis
    by (auto simp: EncodeRune_def byte_byte_char c add_less_le_mono split: if_splits dest: q t f)
      (auto simp: byte_def)
qed

lemma MapRunes_bytes:
  assumes "b \<in> byte ` set (MapRunes f s)" and "b < 128"
  shows "\<exists>r\<in>set (runes s). b = f r"
proof -
  from assms(1) obtain r where "r \<in> set (runes s)" "b \<in> byte ` set (EncodeRune (f r))"
    by (auto simp: MapRunes_def)
  with EncodeRune_bytes [of b "f r"] assms(2) show ?thesis by auto
qed

lemma MapRunes_ascii:
  assumes "list_all (\<lambda>c. byte c < 128) s" and "\<And>c. c \<in> set s \<Longrightarrow> f (byte c) < 128"
  shows "MapRunes f s = map (\<lambda>c. byte_char (f (byte c))) s"
  unfolding MapRunes_def runes_ascii [OF assms(1)] using assms(2)
  by (induction s) (auto simp: EncodeRune_def)

end
