(* ===== verification/Channels.thy ===== *)
theory Channels
  imports Notify Netip Utf8
begin

text \<open>
  The notification channels: notify/format.go (the text every chat channel shares),
  notify/channels.go (webhook, Slack, Telegram, syslog), notify/hfs.go and hfsbridge/hfsbridge.go.
  \<^verbatim>\<open>json.Marshal\<close>, \<^verbatim>\<open>http.NewRequest\<close>, the HTTP client, the dialer, the host name, the process number
  and the layout of \<^verbatim>\<open>time.Stamp\<close> are arguments; so are the types and the constructor of the schema
  package. What the channels build, and what they make of a response, is modelled in full.
\<close>

subsection \<open>Shared text (notify/format.go)\<close>

definition u_dash :: string where "u_dash = [CHR 0xE2, CHR 0x80, CHR 0x94]"
definition u_arrow :: string where "u_arrow = [CHR 0xE2, CHR 0x86, CHR 0x92]"
definition u_bullet :: string where "u_bullet = [CHR 0xE2, CHR 0x80, CHR 0xA2]"
definition u_ellipsis :: string where "u_ellipsis = [CHR 0xE2, CHR 0x80, CHR 0xA6]"
definition u_check :: string where "u_check = [CHR 0xE2, CHR 0x9C, CHR 0x85]"
definition nl :: string where "nl = [CHR 0x0A]"

definition severityBadge :: "Severity \<Rightarrow> string" where
  "severityBadge s =
     (if s = SeverityCritical then [CHR 0xF0, CHR 0x9F, CHR 0x9F, CHR 0xA5] @ '' CRITICAL''
      else if s = SeverityHigh then [CHR 0xF0, CHR 0x9F, CHR 0x9F, CHR 0xA7] @ '' HIGH''
      else if s = SeverityMedium then [CHR 0xF0, CHR 0x9F, CHR 0x9F, CHR 0xA8] @ '' MEDIUM''
      else if s = SeverityLow then [CHR 0xF0, CHR 0x9F, CHR 0x9F, CHR 0xA6] @ '' LOW''
      else [CHR 0xE2, CHR 0xAC, CHR 0x9C] @ '' INFO'')"

definition productName :: "string \<Rightarrow> string" where
  "productName m =
     (if m = ''certwatch'' then ''CertWatch''
      else if m = ''asm'' then ''Attack Surface Monitor''
      else if m = ''decoy'' then ''Decoy''
      else if m = ''patchlight'' then ''Patchlight''
      else if m = ''rulehawk'' then ''RuleHawk''
      else if m = ''loglight'' then ''Loglight''
      else m)"

definition opened_text :: "Finding \<Rightarrow> string" where
  "opened_text f =
     nl @ severityBadge (fSeverity f) @ '' '' @ fTarget f @ nl @ ''  '' @ fTitle f @ nl @
     ''  '' @ u_arrow @ '' '' @ fRemediation f @ nl"

definition resolved_text :: "Finding \<Rightarrow> string" where
  "resolved_text f = ''  '' @ u_bullet @ '' '' @ fTarget f @ '' '' @ u_dash @ '' '' @ fTitle f @ nl"

definition TrimRightNL :: "string \<Rightarrow> string" where
  "TrimRightNL s = rev (dropWhile (\<lambda>c. c = CHR 0x0A) (rev s))"

definition FormatText :: "Digest \<Rightarrow> string" where
  "FormatText d =
     (let b = (if dgOpened d \<noteq> []
               then productName (dgModule d) @ '' '' @ u_dash @ '' '' @ itoa (int (length (dgOpened d))) @ '' new finding(s)'' @ nl @
                 concat (map opened_text (dgOpened d)) else []);
          b = (if dgResolved d \<noteq> []
               then (if b \<noteq> [] then b @ nl else b) @
                 u_check @ '' '' @ itoa (int (length (dgResolved d))) @ '' finding(s) resolved'' @ nl @
                 concat (map resolved_text (dgResolved d)) else b)
      in TrimRightNL b)"

subsection \<open>HTTP channels (notify/channels.go)\<close>

record request =
  rqURL :: string
  rqHeaders :: "(string \<times> string) list"
  rqBody :: string

text \<open>The environment of an HTTP channel: whether the URL makes a request, and the response (its
  status code and status line) or a transport error.\<close>

record http_env =
  heNewRequest :: "string \<Rightarrow> error option"
  heDo :: "request \<Rightarrow> error + int \<times> string"

definition post :: "http_env \<Rightarrow> string \<Rightarrow> request \<Rightarrow> error option" where
  "post env nm req =
     (case heNewRequest env (rqURL req) of
        Some err \<Rightarrow> Some err
      | None \<Rightarrow>
          (case heDo env req of
             Inl err \<Rightarrow> Some err
           | Inr (code, status) \<Rightarrow>
               if code < 200 \<or> code > 299 then Some (Errorf (nm @ '' returned '' @ status)) else None))"

record webhookFinding =
  wfTarget :: string
  wfCheck :: string
  wfSeverity :: string
  wfTitle :: string
  wfRemediation :: string
  wfEvidence :: "evidence option"

record webhookPayload =
  wpVersion :: int
  wpModule :: string
  wpAt :: time
  wpOpened :: "webhookFinding list"
  wpResolved :: "webhookFinding list"

definition toWire :: "Finding \<Rightarrow> webhookFinding" where
  "toWire f =
     \<lparr>wfTarget = fTarget f, wfCheck = fCheck f, wfSeverity = fSeverity f, wfTitle = fTitle f,
      wfRemediation = fRemediation f, wfEvidence = fEvidence f\<rparr>"

record WebhookChannel =
  wcURL :: string
  wcSecret :: string

definition WebhookChannel_Send :: "(webhookPayload \<Rightarrow> error + string) \<Rightarrow> http_env \<Rightarrow> WebhookChannel \<Rightarrow> Digest \<Rightarrow> error option" where
  "WebhookChannel_Send marshal env w d =
     (case marshal \<lparr>wpVersion = 1, wpModule = dgModule d, wpAt = dgAt d,
                    wpOpened = map toWire (dgOpened d), wpResolved = map toWire (dgResolved d)\<rparr> of
        Inl err \<Rightarrow> Some err
      | Inr body \<Rightarrow>
          post env ''webhook''
            \<lparr>rqURL = wcURL w,
             rqHeaders = (''Content-Type'', ''application/json'') #
               (if wcSecret w \<noteq> [] then [(''X-Hexward-Token'', wcSecret w), (''X-Sentinel-Token'', wcSecret w)] else []),
             rqBody = body\<rparr>)"

text \<open>The chat channels marshal a map of strings.\<close>

type_synonym marshal_map = "(string \<times> string) list \<Rightarrow> error + string"

definition SlackChannel_Send :: "marshal_map \<Rightarrow> http_env \<Rightarrow> string \<Rightarrow> Digest \<Rightarrow> error option" where
  "SlackChannel_Send marshal env webhookURL d =
     (case marshal [(''text'', FormatText d)] of
        Inl err \<Rightarrow> Some err
      | Inr body \<Rightarrow>
          post env ''slack'' \<lparr>rqURL = webhookURL, rqHeaders = [(''Content-Type'', ''application/json'')], rqBody = body\<rparr>)"

record TelegramChannel =
  tgBotToken :: string
  tgChatID :: string
  tgBaseURL :: string

definition TelegramChannel_Send :: "marshal_map \<Rightarrow> http_env \<Rightarrow> TelegramChannel \<Rightarrow> Digest \<Rightarrow> error option" where
  "TelegramChannel_Send marshal env t d =
     (let base = (if tgBaseURL t = [] then ''https://api.telegram.org'' else tgBaseURL t);
          url = base @ ''/bot'' @ tgBotToken t @ ''/sendMessage''
      in case marshal [(''chat_id'', tgChatID t), (''text'', FormatText d)] of
           Inl err \<Rightarrow> Some err
         | Inr body \<Rightarrow>
             post env ''telegram'' \<lparr>rqURL = url, rqHeaders = [(''Content-Type'', ''application/json'')], rqBody = body\<rparr>)"

subsection \<open>Syslog\<close>

record SyslogChannel =
  slAddr :: string
  slNetwork :: string
  slHostname :: string
  slTag :: string
  slFacility :: int

text \<open>What the channel asks of the operating system: the host name, the process number, the clock,
  and the layout of a time stamp.\<close>

record os_env =
  osHostname :: "error + string"
  osPid :: int
  osNow :: time
  osStamp :: "time \<Rightarrow> string"

definition sanitize_rune :: "nat \<Rightarrow> nat" where
  "sanitize_rune r = (if r = 10 \<or> r = 13 \<or> r = 0 then 32 else r)"

definition sanitizeSyslog :: "string \<Rightarrow> string" where
  "sanitizeSyslog s =
     (let s = MapRunes sanitize_rune s
      in if length s > 1600 then take 1600 s @ u_ellipsis else s)"

definition syslogSeverity :: "string \<Rightarrow> int" where
  "syslogSeverity sev =
     (let s = ToLower sev in
      if s = ''critical'' then 2
      else if s = ''high'' then 3
      else if s = ''medium'' then 4
      else if s = ''low'' then 5
      else 6)"

definition statusWord :: "bool \<Rightarrow> string" where
  "statusWord resolved = (if resolved then ''resolved'' else ''open'')"

text \<open>The loop of \<open>evidenceIP\<close> over the keys it knows.\<close>

fun evidence_ip :: "evidence \<Rightarrow> string list \<Rightarrow> string" where
  "evidence_ip ev [] = []"
| "evidence_ip ev (k # ks) =
     (case map_of ev k of
        Some (AStr s) \<Rightarrow> if ParseIP (TrimSpace s) \<noteq> None then TrimSpace s else evidence_ip ev ks
      | _ \<Rightarrow> evidence_ip ev ks)"

definition evidenceIP :: "evidence option \<Rightarrow> string" where
  "evidenceIP ev =
     evidence_ip (case ev of None \<Rightarrow> [] | Some e \<Rightarrow> e) [''source_ip'', ''src_ip'', ''src'', ''actor'', ''client_ip'', ''ip'']"

definition syslogMessage :: "string \<Rightarrow> Finding \<Rightarrow> bool \<Rightarrow> string" where
  "syslogMessage modl f resolved =
     (let b = (if resolved then ''RESOLVED: '' else []) @ fTitle f @ '' | product='' @ modl @ '' severity='' @ fSeverity f @
                '' check='' @ fCheck f @ '' target='' @ fTarget f @ '' status='' @ statusWord resolved;
          ip = evidenceIP (fEvidence f)
      in sanitizeSyslog (if ip \<noteq> [] then b @ '' src='' @ ip else b))"

definition syslog_line :: "int \<Rightarrow> string \<Rightarrow> string \<Rightarrow> string \<Rightarrow> int \<Rightarrow> string \<Rightarrow> string" where
  "syslog_line pri ts host tg pid msg =
     ''<'' @ itoa pri @ ''>'' @ ts @ '' '' @ host @ '' '' @ tg @ ''['' @ itoa pid @ '']: '' @ msg @ nl"

definition syslog_host :: "os_env \<Rightarrow> SyslogChannel \<Rightarrow> string" where
  "syslog_host env s =
     (if slHostname s = [] then (case osHostname env of Inr h \<Rightarrow> if h \<noteq> [] then h else ''-'' | Inl _ \<Rightarrow> ''-'')
      else slHostname s)"

definition SyslogChannel_lines :: "os_env \<Rightarrow> SyslogChannel \<Rightarrow> Digest \<Rightarrow> string list" where
  "SyslogChannel_lines env s d =
     (let host = syslog_host env s;
          tg = (if slTag s = [] then dgModule d else slTag s);
          facility = (if slFacility s = 0 then 16 else slFacility s);
          ts = osStamp env (if IsZero (dgAt d) then osNow env else dgAt d);
          pid = osPid env
      in map (\<lambda>f. syslog_line (facility * 8 + syslogSeverity (fSeverity f)) ts host tg pid (syslogMessage (dgModule d) f False)) (dgOpened d) @
         map (\<lambda>f. syslog_line (facility * 8 + 5) ts host tg pid (syslogMessage (dgModule d) f True)) (dgResolved d))"

text \<open>\<open>Send\<close>: \<open>dial\<close> is the outcome of connecting, \<open>write\<close> of writing the \<open>k\<close>-th line. The lines
  written before an error are part of the result.\<close>

fun write_lines :: "(nat \<Rightarrow> error option) \<Rightarrow> nat \<Rightarrow> string list \<Rightarrow> error option \<times> string list" where
  "write_lines write k [] = (None, [])"
| "write_lines write k (l # ls) =
     (case write k of
        Some err \<Rightarrow> (Some err, [])
      | None \<Rightarrow> apsnd ((#) l) (write_lines write (Suc k) ls))"

definition SyslogChannel_Send ::
    "os_env \<Rightarrow> (string \<Rightarrow> string \<Rightarrow> error option) \<Rightarrow> (nat \<Rightarrow> error option) \<Rightarrow> SyslogChannel \<Rightarrow> Digest \<Rightarrow> error option \<times> string list" where
  "SyslogChannel_Send env dial write s d =
     (if Empty d then (None, [])
      else let network = (if slNetwork s = [] then ''udp'' else slNetwork s)
           in case dial network (slAddr s) of
                Some err \<Rightarrow> (Some err, [])
              | None \<Rightarrow> write_lines write 0 (SyslogChannel_lines env s d))"

subsection \<open>Schema events (notify/hfs.go, hfsbridge/hfsbridge.go)\<close>

record hfs_Source =
  hsID :: string
  hsFingerprint :: string
  hsCheck :: string
  hsTitle :: string
  hsTarget :: string
  hsSeverity :: string
  hsStatus :: string
  hsRemediation :: string
  hsFirstSeen :: time
  hsLastSeen :: time
  hsResolvedAt :: "time option"
  hsGroupID :: "string option"
  hsEvidence :: "evidence option"

definition Source :: "Finding \<Rightarrow> hfs_Source" where
  "Source f =
     \<lparr>hsID = fID f, hsFingerprint = fFingerprint f, hsCheck = fCheck f, hsTitle = fTitle f, hsTarget = fTarget f,
      hsSeverity = fSeverity f, hsStatus = fStatus f, hsRemediation = fRemediation f, hsFirstSeen = fFirstSeen f,
      hsLastSeen = fLastSeen f, hsResolvedAt = fResolvedAt f, hsGroupID = fGroupID f, hsEvidence = fEvidence f\<rparr>"

text \<open>The schema package: its metadata (of which the product name is read and set), the two event
  kinds and the constructor of events.\<close>

record ('meta, 'opt, 'kind, 'ev) hfs =
  hfProduct :: "'meta \<Rightarrow> string"
  hfSetProduct :: "string \<Rightarrow> 'meta \<Rightarrow> 'meta"
  hfKindOpened :: 'kind
  hfKindResolved :: 'kind
  hfNew :: "'kind \<Rightarrow> 'meta \<Rightarrow> hfs_Source \<Rightarrow> time \<Rightarrow> 'opt \<Rightarrow> 'ev"

definition Events :: "('meta, 'opt, 'kind, 'ev) hfs \<Rightarrow> time \<Rightarrow> 'meta \<Rightarrow> Digest \<Rightarrow> 'opt \<Rightarrow> 'ev list" where
  "Events h now meta d opt =
     (let meta = (if hfProduct h meta = [] then hfSetProduct h (dgModule d) meta else meta);
          stamp = (if IsZero (dgAt d) then now else dgAt d)
      in map (\<lambda>f. hfNew h (hfKindOpened h) meta (Source f) stamp opt) (dgOpened d) @
         map (\<lambda>f. hfNew h (hfKindResolved h) meta (Source f) stamp opt) (dgResolved d))"

definition HFSChannel_Send ::
    "('meta, 'opt, 'kind, 'ev) hfs \<Rightarrow> ('ev list \<Rightarrow> error option) \<Rightarrow> time \<Rightarrow> 'meta \<Rightarrow> 'opt \<Rightarrow> Digest \<Rightarrow> error option" where
  "HFSChannel_Send h send now meta opt d = (if Empty d then None else send (Events h now meta d opt))"

subsection \<open>Framing\<close>

lemma sanitize_rune_clean: "sanitize_rune r \<notin> {0, 10, 13}"
  by (simp add: sanitize_rune_def)

lemma sanitizeSyslog_clean: "set (sanitizeSyslog s) \<inter> {CHR 0x00, CHR 0x0A, CHR 0x0D} = {}"
proof -
  have "c \<notin> set (MapRunes sanitize_rune s)" if "byte c \<in> {0, 10, 13}" for c
  proof
    assume "c \<in> set (MapRunes sanitize_rune s)"
    then have "byte c \<in> byte ` set (MapRunes sanitize_rune s)" by simp
    from MapRunes_bytes [OF this] that obtain r where "byte c = sanitize_rune r" by auto
    with that sanitize_rune_clean [of r] show False by simp
  qed
  moreover have "byte (CHR 0x00) = 0" "byte (CHR 0x0A) = 10" "byte (CHR 0x0D) = 13" by (simp_all add: byte_def)
  ultimately have "set (MapRunes sanitize_rune s) \<inter> {CHR 0x00, CHR 0x0A, CHR 0x0D} = {}" by auto
  then show ?thesis
    by (auto simp: sanitizeSyslog_def Let_def u_ellipsis_def dest: in_set_takeD)
qed

lemma sanitizeSyslog_length: "length (sanitizeSyslog s) \<le> 1603"
  by (simp add: sanitizeSyslog_def Let_def u_ellipsis_def)

lemma itoa_no_nl: "CHR 0x0A \<notin> set (itoa n)"
  using digits_of_no_char [of n "CHR 0x0A"] digits_of_no_char [of "- n" "CHR 0x0A"] by (simp add: itoa_def)

lemma syslog_line_frame:
  assumes "CHR 0x0A \<notin> set ts" and "CHR 0x0A \<notin> set host" and "CHR 0x0A \<notin> set tg" and "CHR 0x0A \<notin> set msg"
  shows "\<exists>b. syslog_line pri ts host tg pid msg = b @ nl \<and> CHR 0x0A \<notin> set b"
  using assms itoa_no_nl [of pri] itoa_no_nl [of pid]
  by (intro exI [of _ "''<'' @ itoa pri @ ''>'' @ ts @ '' '' @ host @ '' '' @ tg @ ''['' @ itoa pid @ '']: '' @ msg"])
    (simp add: syslog_line_def)

text \<open>C38. A hostile title, target or evidence value cannot inject syslog frames: when the host name,
  the tag and the time stamp hold no line feed, the stream of a digest holds exactly one frame per
  finding, each ended by its only line feed, and no message is longer than 1603 bytes or holds a
  carriage return, line feed or NUL, whatever bytes (invalid UTF-8 included) the finding holds.\<close>

theorem syslog_one_frame_per_finding:
  assumes "CHR 0x0A \<notin> set (syslog_host env s)" and "CHR 0x0A \<notin> set (if slTag s = [] then dgModule d else slTag s)"
    and "\<forall>t. CHR 0x0A \<notin> set (osStamp env t)"
  shows "length (SyslogChannel_lines env s d) = length (dgOpened d) + length (dgResolved d) \<and>
    (\<forall>l\<in>set (SyslogChannel_lines env s d). \<exists>b. l = b @ nl \<and> CHR 0x0A \<notin> set b) \<and>
    length (syslogMessage m f r) \<le> 1603 \<and> set (syslogMessage m f r) \<inter> {CHR 0x00, CHR 0x0A, CHR 0x0D} = {}"
proof -
  have m: "set (syslogMessage m f r) \<inter> {CHR 0x00, CHR 0x0A, CHR 0x0D} = {}" "length (syslogMessage m f r) \<le> 1603" for m f r
    by (simp_all add: syslogMessage_def Let_def sanitizeSyslog_clean sanitizeSyslog_length)
  then have "CHR 0x0A \<notin> set (syslogMessage m f r)" for m f r by blast
  then have "\<exists>b. syslog_line pri (osStamp env t) (syslog_host env s) (if slTag s = [] then dgModule d else slTag s) pid
      (syslogMessage m f r) = b @ nl \<and> CHR 0x0A \<notin> set b" for pri t pid m f r
    using assms by (intro syslog_line_frame) auto
  then have "\<forall>l\<in>set (SyslogChannel_lines env s d). \<exists>b. l = b @ nl \<and> CHR 0x0A \<notin> set b"
    by (auto simp: SyslogChannel_lines_def Let_def)
  with m show ?thesis by (simp add: SyslogChannel_lines_def Let_def)
qed

definition ex_os :: os_env where
  "ex_os = \<lparr>osHostname = Inr ''gw'', osPid = 7, osNow = 5, osStamp = (\<lambda>_. ''Jan  1 00:00:00'')\<rparr>"

definition ex_syslog :: SyslogChannel where
  "ex_syslog = \<lparr>slAddr = ''127.0.0.1:5514'', slNetwork = [], slHostname = [], slTag = [], slFacility = 0\<rparr>"

definition ex_digest :: Digest where
  "ex_digest = \<lparr>dgModule = ''decoy'', dgOpened = [ex_finding\<lparr>fTitle := ''bait'' @ nl @ ''<0>forged''\<rparr>], dgResolved = [], dgAt = 5\<rparr>"

theorem syslog_one_frame_per_finding_witness:
  "length (filter (\<lambda>c. c = CHR 0x0A) (concat (SyslogChannel_lines ex_os ex_syslog ex_digest))) = 1"
proof -
  have "length (SyslogChannel_lines ex_os ex_syslog ex_digest) = length (dgOpened ex_digest) + length (dgResolved ex_digest)"
    and F: "\<forall>l\<in>set (SyslogChannel_lines ex_os ex_syslog ex_digest). \<exists>b. l = b @ nl \<and> CHR 0x0A \<notin> set b"
    using syslog_one_frame_per_finding [of ex_os ex_syslog ex_digest]
    by (simp_all add: ex_os_def ex_syslog_def ex_digest_def syslog_host_def)
  then have "length (SyslogChannel_lines ex_os ex_syslog ex_digest) = 1" by (simp add: ex_digest_def)
  then obtain l where "SyslogChannel_lines ex_os ex_syslog ex_digest = [l]"
    by (auto simp: length_Suc_conv)
  with F show ?thesis by (auto simp: nl_def filter_empty_conv)
qed

end
