(* ===== verification/Go_Time.thy ===== *)
theory Go_Time
  imports Netip
begin

text \<open>
  The civil calendar and the two layouts of \<^verbatim>\<open>time.Parse\<close> that the parsers use. A \<^typ>\<open>time\<close>
  counts nanoseconds since 1 January of year 1 UTC, so \<open>Date\<close> is plain arithmetic; \<open>civil\<close> is the
  inverse, by the 400/100/4/1 year cycles. The parsers follow the layout scanner of package time:
  \<open>getnum\<close>, the case-insensitive month lookup, the tolerant spaces of \<open>skip\<close>, the fractional
  second that may follow the seconds of any layout, and the final check of the day.
\<close>

subsection \<open>The calendar\<close>

definition is_leap :: "int \<Rightarrow> bool" where
  "is_leap y \<longleftrightarrow> y mod 4 = 0 \<and> (y mod 100 \<noteq> 0 \<or> y mod 400 = 0)"

definition days_before_year :: "int \<Rightarrow> int" where
  "days_before_year y = 365 * (y - 1) + (y - 1) div 4 - (y - 1) div 100 + (y - 1) div 400"

definition month_lengths :: "int \<Rightarrow> int list" where
  "month_lengths y = [31, if is_leap y then 29 else 28, 31, 30, 31, 30, 31, 31, 30, 31, 30, 31]"

definition daysIn :: "nat \<Rightarrow> int \<Rightarrow> int" where
  "daysIn m y = month_lengths y ! (m - 1)"

definition days_before_month :: "int \<Rightarrow> nat \<Rightarrow> int" where
  "days_before_month y m = sum_list (take (m - 1) (month_lengths y))"

definition day_ns :: int where
  "day_ns = 86400 * second"

definition Date :: "int \<Rightarrow> nat \<Rightarrow> int \<Rightarrow> int \<Rightarrow> int \<Rightarrow> int \<Rightarrow> int \<Rightarrow> time" where
  "Date y m d hh mi ss ns =
     (days_before_year y + days_before_month y m + (d - 1)) * day_ns + (hh * 3600 + mi * 60 + ss) * second + ns"

text \<open>The year and the day of the year of a day number.\<close>

definition year_day :: "int \<Rightarrow> int \<times> int" where
  "year_day d =
     (let n400 = d div 146097; d = d mod 146097;
          n100 = min 3 (d div 36524); d = d - 36524 * n100;
          n4 = d div 1461; d = d mod 1461;
          n1 = min 3 (d div 365); d = d - 365 * n1
      in (400 * n400 + 100 * n100 + 4 * n4 + n1 + 1, d))"

fun month_day :: "int list \<Rightarrow> nat \<Rightarrow> int \<Rightarrow> nat \<times> int" where
  "month_day [] m d = (m, d + 1)"
| "month_day (l # ls) m d = (if d < l then (m, d + 1) else month_day ls (Suc m) (d - l))"

definition Year :: "time \<Rightarrow> int" where
  "Year t = fst (year_day (t div day_ns))"

text \<open>\<open>t.AddDate(years, 0, 0)\<close>: the same month, day and time of day in another year, where a day
  beyond the end of the month runs over into the next.\<close>

definition AddYears :: "time \<Rightarrow> int \<Rightarrow> time" where
  "AddYears t years =
     (let (y, yd) = year_day (t div day_ns); (m, d) = month_day (month_lengths y) 1 yd
      in (days_before_year (y + years) + days_before_month (y + years) m + (d - 1)) * day_ns + t mod day_ns)"

subsection \<open>Scanning\<close>

definition getnum :: "string \<Rightarrow> bool \<Rightarrow> (int \<times> string) option" where
  "getnum s fixed =
     (case s of
        [] \<Rightarrow> None
      | a # s1 \<Rightarrow>
          if \<not> is_digit a then None
          else (case s1 of
                  b # s2 \<Rightarrow> if is_digit b then Some (undigits [a, b], s2)
                            else if fixed then None else Some (undigits [a], s1)
                | [] \<Rightarrow> if fixed then None else Some (undigits [a], s1)))"

definition in_range :: "int \<Rightarrow> int \<Rightarrow> (int \<times> string) option \<Rightarrow> (int \<times> string) option" where
  "in_range lo hi r = (case r of None \<Rightarrow> None | Some (n, s) \<Rightarrow> if lo \<le> n \<and> n \<le> hi then Some (n, s) else None)"

definition skip_char :: "char \<Rightarrow> string \<Rightarrow> string option" where
  "skip_char c s = (case s of [] \<Rightarrow> None | a # s' \<Rightarrow> if a = c then Some s' else None)"

text \<open>A space of a layout stands for any number of spaces, none only at the end of the value.\<close>

definition skip_space :: "string \<Rightarrow> string option" where
  "skip_space s = (if s \<noteq> [] \<and> hd s \<noteq> CHR '' '' then None else Some (dropWhile (\<lambda>c. c = CHR '' '') s))"

text \<open>The fractional second, cut to nine digits and scaled to nanoseconds.\<close>

definition frac_ns :: "string \<Rightarrow> int" where
  "frac_ns ds = undigits (take 9 ds) * 10 ^ (9 - length (take 9 ds))"

definition frac_second :: "string \<Rightarrow> int \<times> string" where
  "frac_second s =
     (case s of
        c # d # _ \<Rightarrow>
          if (c = CHR ''.'' \<or> c = CHR '','') \<and> is_digit d
          then let ds = takeWhile is_digit (tl s) in (frac_ns ds, drop (length ds) (tl s))
          else (0, s)
      | _ \<Rightarrow> (0, s))"

definition lower_ascii :: "char \<Rightarrow> char" where
  "lower_ascii c = (if 65 \<le> (of_char c :: nat) \<and> (of_char c :: nat) \<le> 90 then char_of ((of_char c :: nat) + 32) else c)"

definition month_names :: "string list" where
  "month_names = [''jan'', ''feb'', ''mar'', ''apr'', ''may'', ''jun'', ''jul'', ''aug'', ''sep'', ''oct'', ''nov'', ''dec'']"

definition lookup_month :: "string \<Rightarrow> (nat \<times> string) option" where
  "lookup_month s =
     map_option (\<lambda>i. (Suc i, drop 3 s)) (find (\<lambda>i. month_names ! i = map lower_ascii (take 3 s)) [0..<12])"

text \<open>\<^verbatim>\<open>15:04:05\<close> with the optional fraction: seconds of the day and nanoseconds.\<close>

definition parse_clock :: "string \<Rightarrow> (int \<times> int \<times> int \<times> int \<times> string) option" where
  "parse_clock s =
     (case in_range 0 23 (getnum s False) of None \<Rightarrow> None | Some (hh, s) \<Rightarrow>
      case skip_char CHR '':'' s of None \<Rightarrow> None | Some s \<Rightarrow>
      case in_range 0 59 (getnum s True) of None \<Rightarrow> None | Some (mi, s) \<Rightarrow>
      case skip_char CHR '':'' s of None \<Rightarrow> None | Some s \<Rightarrow>
      case in_range 0 59 (getnum s True) of None \<Rightarrow> None | Some (ss, s) \<Rightarrow>
        (let (ns, s) = frac_second s in Some (hh, mi, ss, ns, s)))"

text \<open>\<^verbatim>\<open>time.Parse(time.Stamp, v)\<close>: the result is in year 0.\<close>

definition parse_stamp :: "string \<Rightarrow> time option" where
  "parse_stamp v =
     (case lookup_month v of None \<Rightarrow> None | Some (m, s) \<Rightarrow>
      case skip_space s of None \<Rightarrow> None | Some s \<Rightarrow>
      case getnum s False of None \<Rightarrow> None | Some (d, s) \<Rightarrow>
      case skip_space s of None \<Rightarrow> None | Some s \<Rightarrow>
      case parse_clock s of None \<Rightarrow> None | Some (hh, mi, ss, ns, s) \<Rightarrow>
        if s \<noteq> [] \<or> d < 1 \<or> d > daysIn m 0 then None else Some (Date 0 m d hh mi ss ns))"

text \<open>The zone of \<^verbatim>\<open>time.RFC3339\<close>, in seconds east of UTC.\<close>

definition parse_zone :: "string \<Rightarrow> (int \<times> string) option" where
  "parse_zone s =
     (if s \<noteq> [] \<and> hd s = CHR ''Z'' then Some (0, tl s)
      else if length s < 6 \<or> s ! 3 \<noteq> CHR '':'' then None
      else case (in_range 0 24 (getnum (take 2 (drop 1 s)) True), in_range 0 60 (getnum (take 2 (drop 4 s)) True)) of
             (Some (zh, _), Some (zm, _)) \<Rightarrow>
               if s ! 0 = CHR ''+'' then Some ((zh * 60 + zm) * 60, drop 6 s)
               else if s ! 0 = CHR ''-'' then Some (- ((zh * 60 + zm) * 60), drop 6 s)
               else None
           | _ \<Rightarrow> None)"

definition parse_rfc3339 :: "string \<Rightarrow> time option" where
  "parse_rfc3339 v =
     (if length v < 4 \<or> \<not> list_all is_digit (take 4 v) then None
      else let y = undigits (take 4 v); s = drop 4 v in
      case skip_char CHR ''-'' s of None \<Rightarrow> None | Some s \<Rightarrow>
      case in_range 1 12 (getnum s True) of None \<Rightarrow> None | Some (m, s) \<Rightarrow>
      case skip_char CHR ''-'' s of None \<Rightarrow> None | Some s \<Rightarrow>
      case getnum s True of None \<Rightarrow> None | Some (d, s) \<Rightarrow>
      case skip_char CHR ''T'' s of None \<Rightarrow> None | Some s \<Rightarrow>
      case parse_clock s of None \<Rightarrow> None | Some (hh, mi, ss, ns, s) \<Rightarrow>
      case parse_zone s of None \<Rightarrow> None | Some (off, s) \<Rightarrow>
        if s \<noteq> [] \<or> d < 1 \<or> d > daysIn (nat m) y then None
        else Some (Date y (nat m) d hh mi ss ns - off * second))"

subsection \<open>Laws\<close>

lemma month_lengths_sum: "sum_list (month_lengths y) = (if is_leap y then 366 else 365)"
  by (simp add: month_lengths_def)

lemma days_before_year_ge: "1 \<le> y \<Longrightarrow> 365 * (y - 1) \<le> days_before_year y"
proof -
  assume "1 \<le> y"
  then have "(y - 1) div 100 \<le> (y - 1) div 4" "0 \<le> (y - 1) div 400"
    by (simp_all add: zdiv_mono2 pos_imp_zdiv_nonneg_iff)
  then show ?thesis by (simp add: days_before_year_def)
qed

lemma days_before_month_nonneg: "0 \<le> days_before_month y m"
proof -
  have "\<forall>l\<in>set (month_lengths y). 0 \<le> l" by (simp add: month_lengths_def)
  then have "\<forall>l\<in>set (take (m - 1) (month_lengths y)). 0 \<le> l" by (meson in_set_takeD)
  then show ?thesis unfolding days_before_month_def by (simp add: sum_list_nonneg)
qed

text \<open>Year 0 is the last year of a cycle of 400, and a leap year.\<close>

lemma year_day_zero:
  assumes "0 \<le> k" "k < 366"
  shows "year_day (k - 366) = (0, k)"
proof -
  have e: "k - 366 = (145731 + k) + (- 1) * 146097" by simp
  have a: "(k - 366) div 146097 = - 1" "(k - 366) mod 146097 = 145731 + k"
    unfolding e div_mult_self1 [OF numeral_neq_zero] mod_mult_self1 using assms by auto
  define n where "n = min 3 ((145731 + k) div 36524)"
  have n: "n = 3" unfolding n_def using assms by linarith
  have b: "(36159 + k) div 1461 = 24" using assms by linarith
  then have "(36159 + k) mod 1461 = 1095 + k" by (simp add: minus_div_mult_eq_mod [symmetric])
  note b = b this
  have c: "min 3 ((1095 + k) div 365) = 3" using assms by linarith
  show ?thesis unfolding year_day_def a Let_def n_def [symmetric] n using b c by simp
qed

lemma month_day_zero:
  assumes "1 \<le> m" "m \<le> 12" "1 \<le> d" "d \<le> daysIn m 0"
  shows "month_day (month_lengths 0) 1 (days_before_month 0 m + (d - 1)) = (m, d) \<and> days_before_month 0 m + d \<le> 366"
proof -
  from assms(1,2) have "m = 1 \<or> m = 2 \<or> m = 3 \<or> m = 4 \<or> m = 5 \<or> m = 6 \<or> m = 7 \<or> m = 8 \<or> m = 9 \<or> m = 10 \<or> m = 11 \<or> m = 12"
    by presburger
  then show ?thesis
    using assms(3,4) by (elim disjE) (simp_all add: month_lengths_def is_leap_def daysIn_def days_before_month_def numeral_eq_Suc)
qed

text \<open>A stamp read in year 0 and moved to another year is that day and time in the year.\<close>

lemma AddYears_stamp:
  assumes "1 \<le> m" "m \<le> 12" "1 \<le> d" "d \<le> daysIn m 0"
    and "0 \<le> (hh * 3600 + mi * 60 + ss) * second + ns" "(hh * 3600 + mi * 60 + ss) * second + ns < day_ns"
  shows "AddYears (Date 0 m d hh mi ss ns) y = Date y m d hh mi ss ns"
proof -
  let ?k = "days_before_month 0 m + (d - 1)"
  let ?r = "(hh * 3600 + mi * 60 + ss) * second + ns"
  have k: "0 \<le> ?k" "?k < 366" using month_day_zero [OF assms(1-4)] days_before_month_nonneg [of 0 m] assms(3) by auto
  have e: "Date 0 m d hh mi ss ns = ?r + (?k - 366) * day_ns"
    by (simp add: Date_def days_before_year_def algebra_simps)
  have day: "day_ns \<noteq> 0" by (simp add: day_ns_def second_def)
  have q: "Date 0 m d hh mi ss ns div day_ns = ?k - 366" "Date 0 m d hh mi ss ns mod day_ns = ?r"
    unfolding e div_mult_self1 [OF day] mod_mult_self1 using assms(5,6) by simp_all
  show ?thesis
    unfolding AddYears_def q year_day_zero [OF k] using month_day_zero [OF assms(1-4)] by (simp add: Date_def)
qed

lemma getnum_nonneg: "getnum s f = Some (n, s') \<Longrightarrow> 0 \<le> n"
  by (auto simp: getnum_def undigits_def is_digit_def split: list.splits if_splits)

lemma in_range_Some: "in_range lo hi r = Some (n, s) \<Longrightarrow> lo \<le> n \<and> n \<le> hi"
  by (auto simp: in_range_def split: option.splits if_splits)

lemma undigits_snoc: "undigits (ds @ [c]) = 10 * undigits ds + (int (of_char c) - 48)"
  by (simp add: undigits_def)

lemma undigits_bound: "list_all is_digit ds \<Longrightarrow> 0 \<le> undigits ds \<and> undigits ds < 10 ^ length ds"
proof (induction ds rule: rev_induct)
  case (snoc c ds)
  then have "0 \<le> int (of_char c) - 48" "int (of_char c) - 48 \<le> 9" by (auto simp: is_digit_def)
  with snoc show ?case by (simp add: undigits_snoc)
qed (simp add: undigits_def)

lemma frac_ns_range:
  assumes "list_all is_digit ds"
  shows "0 \<le> frac_ns ds \<and> frac_ns ds < second"
proof -
  let ?e = "take 9 ds"
  have l: "length ?e \<le> 9" by simp
  have "list_all is_digit ?e" using assms by (auto simp: list_all_iff dest: in_set_takeD)
  from undigits_bound [OF this] have b: "0 \<le> undigits ?e" "undigits ?e < 10 ^ length ?e" by auto
  have "undigits ?e * 10 ^ (9 - length ?e) < 10 ^ length ?e * 10 ^ (9 - length ?e)" using b by simp
  also have "\<dots> = (10 :: int) ^ 9" using l by (simp only: power_add [symmetric] le_add_diff_inverse)
  finally show ?thesis using b by (simp add: frac_ns_def second_def)
qed

lemma frac_second_range: "frac_second s = (ns, s') \<Longrightarrow> 0 \<le> ns \<and> ns < second"
proof -
  have "list_all is_digit (takeWhile is_digit (tl s))" by (auto simp: list_all_iff dest: set_takeWhileD)
  from frac_ns_range [OF this] show "frac_second s = (ns, s') \<Longrightarrow> 0 \<le> ns \<and> ns < second"
    unfolding frac_second_def Let_def by (cases s; cases "tl s") (auto simp: second_def split: if_splits)
qed

lemma parse_clock_range:
  assumes "parse_clock s = Some (hh, mi, ss, ns, s')"
  shows "0 \<le> (hh * 3600 + mi * 60 + ss) * second + ns \<and> (hh * 3600 + mi * 60 + ss) * second + ns < day_ns"
proof -
  from assms obtain s1 s2 s3 s4 s5 where
    r: "in_range 0 23 (getnum s False) = Some (hh, s1)" "in_range 0 59 (getnum s2 True) = Some (mi, s3)"
      "in_range 0 59 (getnum s4 True) = Some (ss, s5)" "frac_second s5 = (ns, s')"
    unfolding parse_clock_def by (auto split: option.splits prod.splits)
  from in_range_Some [OF r(1)] in_range_Some [OF r(2)] in_range_Some [OF r(3)] frac_second_range [OF r(4)]
  show ?thesis by (auto simp: second_def day_ns_def)
qed

lemma lookup_month_range: "lookup_month s = Some (m, s') \<Longrightarrow> 1 \<le> m \<and> m \<le> 12"
  by (auto simp: lookup_month_def find_Some_iff)

lemma parse_stamp_date:
  assumes "parse_stamp v = Some t"
  shows "\<exists>m d hh mi ss ns. t = Date 0 m d hh mi ss ns \<and> 1 \<le> m \<and> m \<le> 12 \<and> 1 \<le> d \<and> d \<le> daysIn m 0 \<and>
    0 \<le> (hh * 3600 + mi * 60 + ss) * second + ns \<and> (hh * 3600 + mi * 60 + ss) * second + ns < day_ns"
proof -
  from assms obtain m s1 s2 d hh mi ss ns where
    r: "lookup_month v = Some (m, s1)" "parse_clock s2 = Some (hh, mi, ss, ns, [])" "1 \<le> d" "d \<le> daysIn m 0" "t = Date 0 m d hh mi ss ns"
    unfolding parse_stamp_def by (auto simp: not_less split: option.splits if_splits)
  with lookup_month_range [OF r(1)] parse_clock_range [OF r(2)] show ?thesis by blast
qed

text \<open>A time in a year after the first is after the zero time.\<close>

lemma Date_pos:
  assumes "2 \<le> y" "1 \<le> d" "0 \<le> (hh * 3600 + mi * 60 + ss) * second + ns"
  shows "0 < Date y m d hh mi ss ns"
proof -
  have "0 < days_before_year y + days_before_month y m + (d - 1)"
    using days_before_year_ge [of y] days_before_month_nonneg [of y m] assms by simp
  then have "0 < (days_before_year y + days_before_month y m + (d - 1)) * day_ns" by (simp add: day_ns_def second_def)
  then show ?thesis using assms(3) by (simp add: Date_def)
qed

end
