(* ===== verification/Log_Parse.thy ===== *)
theory Log_Parse
  imports Log_Event Go_Time Utf8 Core_Finding
begin

text \<open>
  logingest/syslog.go, logingest/fields.go and logingest/vendor.go: from a raw line to a normalized
  event. Framing (RFC 5424, then RFC 3164), the regular expressions of the field extraction, and the
  alerts that carry their own fields as JSON. \<^verbatim>\<open>time.Parse\<close> and \<^verbatim>\<open>regexp\<close> are defined in Go_Time and
  Regexp; the local year, \<^verbatim>\<open>json.Unmarshal\<close> into the two alert types and the shortest float rendering
  of \<^verbatim>\<open>strconv.FormatFloat\<close> are the fields of the environment. A \<^verbatim>\<open>*Event\<close> that a function
  updates is passed and returned.
\<close>

subsection \<open>Strings and numbers\<close>

definition TrimRightCRLF :: "string \<Rightarrow> string" where
  "TrimRightCRLF s = rev (dropWhile (\<lambda>c. c = CHR 0x0A \<or> c = CHR 0x0D) (rev s))"

text \<open>\<open>strings.SplitN(s, d, n)\<close> for a one-byte separator.\<close>

fun SplitN :: "nat \<Rightarrow> char \<Rightarrow> string \<Rightarrow> string list" where
  "SplitN 0 d s = []"
| "SplitN (Suc 0) d s = [s]"
| "SplitN (Suc (Suc n)) d s =
     (case index_byte d s of
        None \<Rightarrow> [s]
      | Some i \<Rightarrow> take i s # SplitN (Suc n) d (drop (i + 1) s))"

text \<open>\<open>strconv.Atoi\<close> and \<open>strconv.ParseInt(s, 10, 64)\<close>: an optional sign and digits, within 64 bits.\<close>

definition Atoi :: "string \<Rightarrow> int option" where
  "Atoi s =
     (let neg = (s \<noteq> [] \<and> hd s = CHR ''-'');
          ds = (if s \<noteq> [] \<and> (hd s = CHR ''-'' \<or> hd s = CHR ''+'') then tl s else s)
      in if ds = [] \<or> \<not> list_all is_digit ds then None
         else let n = (if neg then - undigits ds else undigits ds)
              in if n < minInt64 \<or> maxInt64 < n then None else Some n)"

text \<open>\<open>strings.Fields\<close>: the maximal runs without a Unicode space. The lead byte of an encoded space is
  never a continuation byte, so looking at every byte position is looking at every rune.\<close>

fun ws_fields :: "nat \<Rightarrow> string \<Rightarrow> string \<Rightarrow> string list" where
  "ws_fields 0 cur s = (if cur = [] then [] else [cur])"
| "ws_fields (Suc n) cur s =
     (case s of
        [] \<Rightarrow> if cur = [] then [] else [cur]
      | c # s' \<Rightarrow>
          (case find (HasPrefix s) space_seqs of
             Some p \<Rightarrow> (if cur = [] then [] else [cur]) @ ws_fields n [] (drop (length p) s)
           | None \<Rightarrow> ws_fields n (cur @ [c]) s'))"

definition Fields :: "string \<Rightarrow> string list" where
  "Fields s = ws_fields (length s) [] s"

definition oneLine :: "string \<Rightarrow> string" where
  "oneLine s = join '' '' (Fields s)"

fun firstNonEmpty :: "string list \<Rightarrow> string" where
  "firstNonEmpty [] = []"
| "firstNonEmpty (s # ss) = (if s \<noteq> [] then s else firstNonEmpty ss)"

subsection \<open>Vendor alerts\<close>

record wazuhAlert =
  waLevel :: int
  waRuleID :: string
  waDescription :: string
  waGroups :: "string list"
  waAgentName :: string
  waAgentIP :: string
  waHostname :: string
  waData :: "(string \<times> any) list"
  waFullLog :: string

record hfsEvent =
  hvSchema :: string
  hvEvent :: string
  hvProduct :: string
  hvSrcIP :: string
  hvCheck :: string
  hvTitle :: string
  hvTarget :: string
  hvSeverity :: string

record parse_env =
  pvYear :: "time \<Rightarrow> int"
  pvWazuh :: "string \<Rightarrow> wazuhAlert option"
  pvHFS :: "string \<Rightarrow> hfsEvent option"
  pvFloat :: "f64 \<Rightarrow> string"

definition isHexwardRule :: "string \<Rightarrow> bool" where
  "isHexwardRule rid = (case Atoi rid of None \<Rightarrow> False | Some n \<Rightarrow> n \<ge> 100500 \<and> n \<le> 100599)"

definition wazuhSyslogSeverity :: "int \<Rightarrow> int" where
  "wazuhSyslogSeverity level =
     (if level \<ge> 12 then 2 else if level \<ge> 10 then 3 else if level \<ge> 7 then 4 else if level \<ge> 4 then 5 else 6)"

fun stringField :: "parse_env \<Rightarrow> (string \<times> any) list \<Rightarrow> string list \<Rightarrow> string" where
  "stringField env m [] = []"
| "stringField env m (k # ks) =
     (case map_of m k of
        Some (AStr v) \<Rightarrow> if v \<noteq> [] then v else stringField env m ks
      | Some (AFloat v) \<Rightarrow> pvFloat env v
      | _ \<Rightarrow> stringField env m ks)"

definition ipField :: "parse_env \<Rightarrow> (string \<times> any) list \<Rightarrow> string list \<Rightarrow> string" where
  "ipField env m ks = (case ParseIP (stringField env m ks) of Some ip \<Rightarrow> IPString ip | None \<Rightarrow> [])"

definition group_auth :: "string \<Rightarrow> AuthOutcome \<Rightarrow> AuthOutcome" where
  "group_auth g a =
     (if g = ''authentication_failed'' \<or> g = ''invalid_login'' then AuthFailure
      else if g = ''authentication_success'' then (if a = AuthNone then AuthSuccess else a)
      else a)"

definition wazuh_alert :: "parse_env \<Rightarrow> Event \<Rightarrow> wazuhAlert \<Rightarrow> Event" where
  "wazuh_alert env e a =
     (let e = e\<lparr>evVendor := ''wazuh'', evVendorRule := waRuleID a, evVendorLevel := waLevel a, evParsed := True\<rparr>;
          h = firstNonEmpty [waHostname a, waAgentName a];
          e = (if h \<noteq> [] then e\<lparr>evHost := h\<rparr> else e);
          e = e\<lparr>evSeverity := wazuhSyslogSeverity (waLevel a),
                evMessage := ''wazuh rule '' @ waRuleID a @ '' (level '' @ itoa (waLevel a) @ ''): '' @ waDescription a\<rparr>;
          e = (if waFullLog a \<noteq> [] then e\<lparr>evMessage := evMessage e @ '' | '' @ oneLine (waFullLog a)\<rparr> else e)
      in if isHexwardRule (waRuleID a) then e
         else let e = e\<lparr>evSrcIP := ipField env (waData a) [''srcip'', ''src_ip''],
                        evDstIP := ipField env (waData a) [''dstip'', ''dst_ip'']\<rparr>;
                  e = (case Atoi (stringField env (waData a) [''dstport'', ''dst_port'']) of
                         Some p \<Rightarrow> if p > 0 \<and> p < 65536 then e\<lparr>evDstPort := p\<rparr> else e
                       | None \<Rightarrow> e);
                  e = e\<lparr>evUser := stringField env (waData a) [''srcuser'', ''dstuser'', ''user'']\<rparr>
              in e\<lparr>evAuth := fold group_auth (waGroups a) (evAuth e)\<rparr>)"

definition fromWazuh :: "parse_env \<Rightarrow> Event \<Rightarrow> bool \<times> Event" where
  "fromWazuh env e =
     (let msg = TrimSpace (evMessage e)
      in if \<not> HasPrefix msg ''{'' \<or> \<not> Contains msg (CHR 0x22 # ''rule'' @ [CHR 0x22]) then (False, e)
         else let a = ToLower (evApp e)
              in if a \<noteq> [] \<and> a \<noteq> ''ossec'' \<and> a \<noteq> ''wazuh'' then (False, e)
                 else case pvWazuh env msg of
                        None \<Rightarrow> (False, e)
                      | Some al \<Rightarrow> if waRuleID al = [] then (False, e) else (True, wazuh_alert env e al))"

definition hfs_event :: "Event \<Rightarrow> hfsEvent \<Rightarrow> Event" where
  "hfs_event e h =
     (let status = (if hvEvent h = ''resolved'' then ''resolved'' else ''open'');
          e = e\<lparr>evVendor := ''hexward'', evVendorRule := hvCheck h, evParsed := True,
                evMessage := oneLine (hvTitle h) @ '' | product='' @ hvProduct h @ '' severity='' @ hvSeverity h @
                  '' check='' @ hvCheck h @ '' target='' @ hvTarget h @ '' status='' @ status\<rparr>
      in case ParseIP (hvSrcIP h) of
           Some ip \<Rightarrow> (let e = e\<lparr>evSrcIP := IPString ip\<rparr> in e\<lparr>evMessage := evMessage e @ '' src='' @ evSrcIP e\<rparr>)
         | None \<Rightarrow> e)"

definition fromHFS :: "parse_env \<Rightarrow> Event \<Rightarrow> bool \<times> Event" where
  "fromHFS env e =
     (let msg = TrimSpace (evMessage e)
      in if \<not> HasPrefix msg ''{'' \<or> \<not> Contains msg (CHR 0x22 # ''hexward.finding/'') then (False, e)
         else case pvHFS env msg of
                None \<Rightarrow> (False, e)
              | Some h \<Rightarrow> if \<not> HasPrefix (hvSchema h) ''hexward.finding/'' then (False, e) else (True, hfs_event e h))"

subsection \<open>Field extraction\<close>

definition name_cls :: "(nat \<times> nat) list" where
  "name_cls = [(65, 90), (97, 122), (48, 57), (46, 46), (95, 95), (45, 45), (92, 92), (36, 36)]"

definition opt_of :: "string \<Rightarrow> re" where
  "opt_of cs = ropt (RCls (map (\<lambda>c. (Regexp.byte c, Regexp.byte c)) cs))"

definition reFrom :: re where
  "reFrom = rseq
     [ralts [rlit_ci ''from'', rlit_ci ''rhost='', rlit_ci ''src='', rlit_ci ''client=''],
      rstar space_re, opt_of '':['',
      RGroup (rplus (cls_ci [(48, 57), (97, 102), (65, 70), (46, 46), (58, 58)]))]"

definition reAnyIP :: re where
  "reAnyIP =
     (let d = RRep digit_re 1 (Some 3); dot = rchar CHR ''.''
      in rseq [RWordB, RGroup (rseq [d, dot, d, dot, d, dot, d]), RWordB])"

definition reUser :: re where
  "reUser = rseq
     [ralts [RSeq (rlit_ci ''for'') (ropt (rlit_ci '' invalid user'')),
             RSeq (rlit_ci ''user'') (opt_of ''=''),
             rseq [rlit_ci ''account'', ropt (rlit_ci '' name''), opt_of '':'']],
      rplus space_re, opt_of [CHR 0x22], RGroup (rplus (cls_ci name_cls)), opt_of [CHR 0x22]]"

definition reDPTeq :: re where
  "reDPTeq = RSeq
     (RAlt (rlit_ci ''DPT='') (RSeq (rlit_ci ''dport'') (RCls [(32, 32), (61, 61)])))
     (RGroup (RRep digit_re 1 (Some 5)))"

definition reBytes :: re where
  "reBytes = rseq
     [ralts [RSeq (rlit_ci ''bytes'') (opt_of ''=:''), rlit_ci ''BYTES='', RSeq (rlit_ci ''sent'') (opt_of ''=:'')],
      rstar space_re, RGroup (RRep digit_re 2 None)]"

definition reNameKV :: re where
  "reNameKV = rseq [RWordB, rlit_ci ''name='', opt_of [CHR 0x22, CHR 0x27], RGroup (rplus (cls_ci name_cls))]"

definition reEventID :: "string \<Rightarrow> re" where
  "reEventID eid = rseq
     [ralts [rseq [rlit_ci ''event'', rstar space_re, rlit_ci ''id'', opt_of '':='', rstar space_re],
             rseq [rlit_ci ''eventid'', opt_of '':='', rstar space_re],
             RWordB],
      rlit_ci eid, RWordB]"

definition findSrcIP :: "string \<Rightarrow> string" where
  "findSrcIP msg =
     (case group1 reFrom msg of
        Some m \<Rightarrow> if looksLikeIP m then Trim m ''[]''
                  else (case group1 reAnyIP msg of Some m \<Rightarrow> m | None \<Rightarrow> [])
      | None \<Rightarrow> (case group1 reAnyIP msg of Some m \<Rightarrow> m | None \<Rightarrow> []))"

definition findUser :: "string \<Rightarrow> string" where
  "findUser msg =
     (case group1 reUser msg of
        Some m \<Rightarrow> (let u = Trim m [CHR 0x22] in if u \<noteq> [] \<and> \<not> looksLikeIP u then u else [])
      | None \<Rightarrow> [])"

definition findDstPort :: "string \<Rightarrow> int" where
  "findDstPort msg =
     (case group1 reDPTeq msg of
        Some m \<Rightarrow> (case Atoi m of Some n \<Rightarrow> if n > 0 \<and> n < 65536 then n else 0 | None \<Rightarrow> 0)
      | None \<Rightarrow> 0)"

definition findBytes :: "string \<Rightarrow> int" where
  "findBytes msg =
     (case group1 reBytes msg of
        Some m \<Rightarrow> (case Atoi m of Some n \<Rightarrow> n | None \<Rightarrow> 0)
      | None \<Rightarrow> 0)"

definition containsEventID :: "string \<Rightarrow> string \<Rightarrow> bool" where
  "containsEventID msg eid =
     (let low = ToLower msg
      in if \<not> Contains low ''event'' \<and> \<not> Contains low ''microsoft-windows'' \<and> \<not> Contains low ''security'' then False
         else MatchString (reEventID eid) msg)"

text \<open>The stages of \<^verbatim>\<open>extractFields\<close>, in order.\<close>

definition extract_identity :: "string \<Rightarrow> Event \<Rightarrow> Event" where
  "extract_identity msg e =
     (let ip = findSrcIP msg; e = (if ip \<noteq> [] then e\<lparr>evSrcIP := ip\<rparr> else e);
          u = findUser msg; e = (if u \<noteq> [] then e\<lparr>evUser := u\<rparr> else e)
      in if evUser e = []
         then (case group1 reNameKV msg of Some m \<Rightarrow> e\<lparr>evUser := m\<rparr> | None \<Rightarrow> e)
         else e)"

definition extract_windows :: "string \<Rightarrow> Event \<Rightarrow> Event" where
  "extract_windows msg e =
     (if containsEventID msg ''4625'' then e\<lparr>evAuth := AuthFailure\<rparr>
      else if containsEventID msg ''4624'' then e\<lparr>evAuth := AuthSuccess\<rparr>
      else if containsEventID msg ''4720'' \<or> containsEventID msg ''4728'' \<or> containsEventID msg ''4732''
      then e\<lparr>evAction := ''new_admin''\<rparr>
      else e)"

definition extract_unix_auth :: "string \<Rightarrow> Event \<Rightarrow> Event" where
  "extract_unix_auth low e =
     (if evAuth e = AuthNone
      then if Contains low ''failed password'' \<or> Contains low ''authentication failure'' \<or> Contains low ''invalid user'' \<or>
              Contains low ''failed publickey'' \<or> Contains low ''permission denied''
           then e\<lparr>evAuth := AuthFailure\<rparr>
           else if Contains low ''accepted password'' \<or> Contains low ''accepted publickey'' \<or> Contains low ''session opened for user''
           then e\<lparr>evAuth := AuthSuccess\<rparr>
           else e
      else e)"

definition extract_admin :: "string \<Rightarrow> Event \<Rightarrow> Event" where
  "extract_admin low e =
     (if evAction e = []
      then let appLow = ToLower (evApp e);
               e = (if (appLow = ''useradd'' \<or> Contains low ''useradd'') \<and> (Contains low ''new user'' \<or> Contains low ''new account'')
                    then e\<lparr>evAction := ''new_admin''\<rparr> else e);
               e = (if (Contains low ''usermod'' \<or> Contains low ''gpasswd'') \<and>
                       (Contains low ''sudo'' \<or> Contains low ''wheel'' \<or> Contains low ''admin'')
                    then e\<lparr>evAction := ''new_admin''\<rparr> else e)
           in if Contains low (''to group '' @ [CHR 0x27] @ ''sudo'' @ [CHR 0x27]) \<or> Contains low (''to group '' @ [CHR 0x27] @ ''wheel'' @ [CHR 0x27])
              then e\<lparr>evAction := ''new_admin''\<rparr> else e
      else e)"

definition extract_numbers :: "string \<Rightarrow> Event \<Rightarrow> Event" where
  "extract_numbers msg e =
     (let p = findDstPort msg; e = (if p \<noteq> 0 then e\<lparr>evDstPort := p\<rparr> else e);
          b = findBytes msg
      in if b \<noteq> 0 then e\<lparr>evBytesOut := b\<rparr> else e)"

definition extract_action :: "string \<Rightarrow> Event \<Rightarrow> Event" where
  "extract_action low e =
     (if evAction e = []
      then if Contains low '' deny'' \<or> Contains low ''blocked'' \<or> Contains low ''drop'' then e\<lparr>evAction := ''deny''\<rparr>
           else if Contains low '' accept'' \<or> Contains low ''allow'' \<or> Contains low ''pass '' then e\<lparr>evAction := ''accept''\<rparr>
           else e
      else e)"

definition extract_text :: "Event \<Rightarrow> Event" where
  "extract_text e =
     (let msg = (if evMessage e = [] then evRaw e else evMessage e); low = ToLower msg
      in extract_action low (extract_numbers msg (extract_admin low (extract_unix_auth low
           (extract_windows msg (extract_identity msg e))))))"

definition extractFields :: "parse_env \<Rightarrow> Event \<Rightarrow> Event" where
  "extractFields env e =
     (let (ok, e) = fromWazuh env e
      in if ok then e
         else let (ok, e) = fromHFS env e
              in if ok then e else extract_text e)"

subsection \<open>Framing\<close>

definition splitPriority :: "string \<Rightarrow> (int \<times> string) option" where
  "splitPriority line =
     (if \<not> HasPrefix line ''<'' then None
      else case index_byte CHR ''>'' line of
             None \<Rightarrow> None
           | Some end' \<Rightarrow>
               if end' < 2 \<or> end' > 4 then None
               else case Atoi (drop 1 (take end' line)) of
                      None \<Rightarrow> None
                    | Some n \<Rightarrow> if n < 0 \<or> n > 191 then None else Some (n, drop (end' + 1) line))"

definition dashToEmpty :: "string \<Rightarrow> string" where
  "dashToEmpty s = (if s = ''-'' then [] else s)"

fun sd_loop :: "int \<Rightarrow> string \<Rightarrow> string option" where
  "sd_loop depth [] = None"
| "sd_loop depth (c # s) =
     (if c = CHR ''['' then sd_loop (depth + 1) s
      else if c = CHR '']'' then (if depth - 1 = 0 then Some (TrimSpace s) else sd_loop (depth - 1) s)
      else sd_loop depth s)"

definition stripStructuredData :: "string \<Rightarrow> string" where
  "stripStructuredData s =
     (let s = TrimSpace s
      in if HasPrefix s ''- '' then drop 2 s
         else if s = ''-'' then []
         else if HasPrefix s ''['' then (case sd_loop 0 s of Some m \<Rightarrow> m | None \<Rightarrow> s)
         else s)"

definition parse5424 :: "string \<Rightarrow> Event \<Rightarrow> Event option" where
  "parse5424 rest e =
     (if \<not> HasPrefix rest ''1 '' then None
      else let f = SplitN 7 CHR '' '' rest
           in if length f < 7 then None
              else let e = (case parse_rfc3339 (f ! 1) of Some ts \<Rightarrow> e\<lparr>evTimestamp := ts\<rparr> | None \<Rightarrow> e)
                   in Some (e\<lparr>evHost := dashToEmpty (f ! 2), evApp := dashToEmpty (f ! 3), evParsed := True,
                              evMessage := stripStructuredData (f ! 6)\<rparr>))"

definition parse_tag :: "string \<Rightarrow> Event \<Rightarrow> Event" where
  "parse_tag tail e =
     (case index_byte CHR '':'' tail of
        Some colon \<Rightarrow>
          if colon > 0 \<and> colon < 64
          then let tag = take colon tail;
                   tag = (case index_byte CHR ''['' tag of Some br \<Rightarrow> take br tag | None \<Rightarrow> tag)
               in e\<lparr>evApp := tag, evMessage := TrimSpace (drop (colon + 1) tail)\<rparr>
          else e\<lparr>evMessage := tail\<rparr>
      | None \<Rightarrow> e\<lparr>evMessage := tail\<rparr>)"

definition parse3164 :: "parse_env \<Rightarrow> string \<Rightarrow> Event \<Rightarrow> Event option" where
  "parse3164 env rest e =
     (if length rest < 16 then None
      else case parse_stamp (take 15 rest) of
             None \<Rightarrow> None
           | Some ts \<Rightarrow>
               (let e = e\<lparr>evTimestamp := AddYears ts (pvYear env (evTimestamp e))\<rparr>;
                    remain = TrimSpace (drop 15 rest)
                in case index_byte CHR '' '' remain of
                     None \<Rightarrow> Some (e\<lparr>evMessage := remain, evParsed := True\<rparr>)
                   | Some sp \<Rightarrow>
                       (let e = e\<lparr>evHost := take sp remain\<rparr>;
                            e = parse_tag (TrimSpace (drop (sp + 1) remain)) e
                        in Some (e\<lparr>evParsed := True\<rparr>))))"

definition ParseSyslog :: "parse_env \<Rightarrow> string \<Rightarrow> time \<Rightarrow> Event" where
  "ParseSyslog env line now =
     (let line = TrimRightCRLF line;
          e = zero_event\<lparr>evSource := SourceSyslog, evSeverity := -1, evRaw := line, evTimestamp := now\<rparr>;
          e = (case splitPriority line of
                 Some (pri, rest) \<Rightarrow>
                   (let e = e\<lparr>evSeverity := pri mod 8\<rparr>
                    in case parse5424 rest e of
                         Some ev \<Rightarrow> ev
                       | None \<Rightarrow> (case parse3164 env rest e of
                                    Some ev \<Rightarrow> ev
                                  | None \<Rightarrow> e\<lparr>evMessage := rest\<rparr>))
               | None \<Rightarrow> e\<lparr>evMessage := line\<rparr>)
      in extractFields env e)"

definition ParseLine :: "parse_env \<Rightarrow> SourceType \<Rightarrow> string \<Rightarrow> string \<Rightarrow> string \<Rightarrow> string \<Rightarrow> time \<Rightarrow> Event" where
  "ParseLine env srcType srcID host app line now =
     (let trimmed = TrimRightCRLF line;
          e = zero_event\<lparr>evSource := srcType, evSourceID := srcID, evHost := host, evApp := app, evSeverity := -1,
                evMessage := trimmed, evRaw := line, evParsed := True, evTimestamp := now\<rparr>;
          e = (case parse3164 env trimmed e of
                 Some ev \<Rightarrow>
                   (let ev = ev\<lparr>evSource := srcType, evSourceID := srcID\<rparr>;
                        ev = (if host \<noteq> [] then ev\<lparr>evHost := host\<rparr> else ev);
                        ev = (if app \<noteq> [] then ev\<lparr>evApp := app\<rparr> else ev)
                    in ev\<lparr>evMessage := TrimSpace (evMessage ev), evParsed := True\<rparr>)
               | None \<Rightarrow> e)
      in extractFields env e)"

end
