(* ===== verification/Log_Parse_Laws.thy ===== *)
theory Log_Parse_Laws
  imports Log_Parse
begin

text \<open>
  What every parsed event satisfies, whatever the line: its origin and its raw text are kept, its time
  is never the zero time, and its numeric and enumerated fields are in the ranges the detectors
  rely on.
\<close>

subsection \<open>Fields that extraction keeps\<close>

definition same_origin :: "Event \<Rightarrow> Event \<Rightarrow> bool" where
  "same_origin e e' \<longleftrightarrow> evTimestamp e' = evTimestamp e \<and> evSource e' = evSource e \<and> evSourceID e' = evSourceID e \<and> evRaw e' = evRaw e"

lemma same_origin_trans: "same_origin a b \<Longrightarrow> same_origin b c \<Longrightarrow> same_origin a c"
  by (simp add: same_origin_def)

lemma same_origin_refl [simp]: "same_origin e e"
  by (simp add: same_origin_def)

lemma same_origin_stages [simp]:
  "same_origin e (extract_identity msg e)" "same_origin e (extract_windows msg e)" "same_origin e (extract_unix_auth low e)"
  "same_origin e (extract_admin low e)" "same_origin e (extract_numbers msg e)" "same_origin e (extract_action low e)"
  by (simp_all add: same_origin_def extract_identity_def extract_windows_def extract_unix_auth_def extract_admin_def
      extract_numbers_def extract_action_def Let_def split: option.splits)

lemma same_origin_text: "same_origin e (extract_text e)"
  unfolding extract_text_def Let_def by (meson same_origin_trans same_origin_stages)

lemma same_origin_vendor:
  "same_origin e (wazuh_alert env e a)" "same_origin e (hfs_event e h)"
  by (simp_all add: same_origin_def wazuh_alert_def hfs_event_def Let_def split: option.splits)

lemma fromWazuh_result:
  "fromWazuh env e = (False, e) \<or> HasPrefix (TrimSpace (evMessage e)) ''{'' \<and> (\<exists>a. fromWazuh env e = (True, wazuh_alert env e a))"
  unfolding fromWazuh_def Let_def by (simp split: option.split) blast

lemma fromHFS_result:
  "fromHFS env e = (False, e) \<or> HasPrefix (TrimSpace (evMessage e)) ''{'' \<and> (\<exists>h. fromHFS env e = (True, hfs_event e h))"
  unfolding fromHFS_def Let_def by (simp split: option.split) blast

lemma extractFields_cases:
  obtains a where "extractFields env e = wazuh_alert env e a" "HasPrefix (TrimSpace (evMessage e)) ''{''"
  | h where "extractFields env e = hfs_event e h" "HasPrefix (TrimSpace (evMessage e)) ''{''"
  | "extractFields env e = extract_text e"
  using fromWazuh_result [of env e] fromHFS_result [of env e] by (elim disjE conjE exE) (simp_all add: extractFields_def)

lemma extractFields_origin: "same_origin e (extractFields env e)"
  by (rule extractFields_cases [of env e]) (simp_all add: same_origin_vendor same_origin_text)

lemma parse_tag_keeps [simp]:
  "evTimestamp (parse_tag t e) = evTimestamp e" "evSource (parse_tag t e) = evSource e" "evSourceID (parse_tag t e) = evSourceID e"
  "evRaw (parse_tag t e) = evRaw e" "evSeverity (parse_tag t e) = evSeverity e" "evAuth (parse_tag t e) = evAuth e"
  "evDstPort (parse_tag t e) = evDstPort e" "evBytesOut (parse_tag t e) = evBytesOut e" "evAction (parse_tag t e) = evAction e"
  by (simp_all add: parse_tag_def Let_def split: option.splits)

lemma parse3164_keeps:
  assumes "parse3164 env rest e = Some e'"
  shows "\<exists>ts. parse_stamp (take 15 rest) = Some ts \<and> evTimestamp e' = AddYears ts (pvYear env (evTimestamp e))"
    and "evRaw e' = evRaw e" "evSource e' = evSource e" "evSourceID e' = evSourceID e" "evSeverity e' = evSeverity e" "evAuth e' = evAuth e"
    "evDstPort e' = evDstPort e" "evBytesOut e' = evBytesOut e" "evAction e' = evAction e" "evParsed e'"
  using assms by (auto simp: parse3164_def Let_def split: if_splits option.splits)

subsection \<open>Time\<close>

lemma stamp_in_year:
  assumes "parse_stamp v = Some ts"
  shows "\<exists>m d hh mi ss ns. ts = Date 0 m d hh mi ss ns \<and> AddYears ts y = Date y m d hh mi ss ns \<and> (2 \<le> y \<longrightarrow> 0 < AddYears ts y)"
proof -
  from parse_stamp_date [OF assms] obtain m d hh mi ss ns where
    r: "ts = Date 0 m d hh mi ss ns" "1 \<le> m" "m \<le> 12" "1 \<le> d" "d \<le> daysIn m 0"
      "0 \<le> (hh * 3600 + mi * 60 + ss) * second + ns" "(hh * 3600 + mi * 60 + ss) * second + ns < day_ns" by blast
  have "AddYears ts y = Date y m d hh mi ss ns" unfolding r(1) by (rule AddYears_stamp [OF r(2-7)])
  with r(1) Date_pos [OF _ r(4,6)] show ?thesis by metis
qed

text \<open>C17. Every event read from a file, a journal or a container carries a usable time and its origin: the
  time is never the zero time; it is the moment of reading, or, when the line has a BSD header, the
  month, day and clock time of the header in the current year. The source and the raw line are kept
  and the event counts as parsed, whatever the line holds.\<close>

theorem ParseLine_time_and_origin:
  assumes "0 < now" and "2 \<le> pvYear env now"
  shows "0 < evTimestamp (ParseLine env ty sid host app line now) \<and>
    (evTimestamp (ParseLine env ty sid host app line now) = now \<or>
     (\<exists>m d hh mi ss ns. parse_stamp (take 15 (TrimRightCRLF line)) = Some (Date 0 m d hh mi ss ns) \<and>
        evTimestamp (ParseLine env ty sid host app line now) = Date (pvYear env now) m d hh mi ss ns)) \<and>
    evSource (ParseLine env ty sid host app line now) = ty \<and> evSourceID (ParseLine env ty sid host app line now) = sid \<and>
    evRaw (ParseLine env ty sid host app line now) = line"
proof -
  define e0 where "e0 = zero_event\<lparr>evSource := ty, evSourceID := sid, evHost := host, evApp := app, evSeverity := -1,
    evMessage := TrimRightCRLF line, evRaw := line, evParsed := True, evTimestamp := now\<rparr>"
  obtain e1 where e1: "ParseLine env ty sid host app line now = extractFields env e1"
    "evSource e1 = ty" "evSourceID e1 = sid" "evRaw e1 = line"
    "evTimestamp e1 = now \<or> (\<exists>ts. parse_stamp (take 15 (TrimRightCRLF line)) = Some ts \<and> evTimestamp e1 = AddYears ts (pvYear env now))"
  proof (cases "parse3164 env (TrimRightCRLF line) e0")
    case None
    then show ?thesis using that [of e0] by (simp add: ParseLine_def Let_def e0_def)
  next
    case (Some e')
    note k = parse3164_keeps [OF Some]
    let ?e = "e'\<lparr>evSource := ty, evSourceID := sid\<rparr>"
    let ?e2 = "if host \<noteq> [] then ?e\<lparr>evHost := host\<rparr> else ?e"
    let ?e3 = "if app \<noteq> [] then ?e2\<lparr>evApp := app\<rparr> else ?e2"
    show ?thesis
      by (rule that [of "?e3\<lparr>evMessage := TrimSpace (evMessage ?e3), evParsed := True\<rparr>"])
        (use k Some in \<open>auto simp: ParseLine_def Let_def e0_def\<close>)
  qed
  have o: "same_origin e1 (extractFields env e1)" by (rule extractFields_origin)
  have t: "0 < evTimestamp e1 \<and> (evTimestamp e1 = now \<or>
     (\<exists>m d hh mi ss ns. parse_stamp (take 15 (TrimRightCRLF line)) = Some (Date 0 m d hh mi ss ns) \<and>
        evTimestamp e1 = Date (pvYear env now) m d hh mi ss ns))"
    using e1(5) assms stamp_in_year by metis
  show ?thesis using o t e1(2-4) unfolding e1(1) same_origin_def by simp
qed

definition ex_parse_env :: parse_env where
  "ex_parse_env = \<lparr>pvYear = Year, pvWazuh = (\<lambda>_. None), pvHFS = (\<lambda>_. None), pvFloat = (\<lambda>_. [])\<rparr>"

definition ex_now :: time where
  "ex_now = Date 2026 7 1 12 0 0 0"

lemma ex_now_simps: "0 < ex_now" "Year ex_now = 2026"
  by code_simp+

theorem ParseLine_time_and_origin_witness:
  "0 < evTimestamp (ParseLine ex_parse_env SourceFile ''auth'' [] [] ''Oct 11 22:14:15 web sshd[7]: Failed password for root'' ex_now) \<and>
   evSourceID (ParseLine ex_parse_env SourceFile ''auth'' [] [] ''Oct 11 22:14:15 web sshd[7]: Failed password for root'' ex_now) = ''auth''"
  using ParseLine_time_and_origin [of ex_now ex_parse_env SourceFile "''auth''" "[]" "[]" "''Oct 11 22:14:15 web sshd[7]: Failed password for root''"]
  by (simp add: ex_now_simps ex_parse_env_def)

text \<open>A syslog sender has no such guarantee: an RFC 5424 header may carry the zero time, which the parser takes.\<close>

lemma zero_time_accepted: "parse_rfc3339 ''0001-01-01T00:00:00Z'' = Some zero_time"
  by code_simp

lemma syslog_zero_time:
  "evTimestamp (ParseSyslog env ''<34>1 0001-01-01T00:00:00Z h app - - - m'' now) = zero_time"
proof -
  let ?l = "''<34>1 0001-01-01T00:00:00Z h app - - - m''"
  have t: "TrimRightCRLF ?l = ?l" by code_simp
  have p: "splitPriority ?l = Some (34, drop 4 ?l)" by code_simp
  have f: "SplitN 7 CHR '' '' (drop 4 ?l) = [''1'', ''0001-01-01T00:00:00Z'', ''h'', ''app'', ''-'', ''-'', ''- m'']" by code_simp
  have h: "HasPrefix (drop 4 ?l) ''1 ''" by code_simp
  define e where "e = zero_event\<lparr>evSource := SourceSyslog, evSeverity := -1, evRaw := ?l, evTimestamp := now\<rparr>"
  obtain ev where ev: "parse5424 (drop 4 ?l) (e\<lparr>evSeverity := 34 mod 8\<rparr>) = Some ev" "evTimestamp ev = zero_time"
    unfolding parse5424_def f Let_def using h zero_time_accepted by simp
  have "ParseSyslog env ?l now = extractFields env ev"
    unfolding ParseSyslog_def Let_def t p option.case prod.case e_def [symmetric] ev(1) by (rule refl)
  then show ?thesis using extractFields_origin [of ev env] ev(2) by (simp add: same_origin_def)
qed

subsection \<open>Ranges\<close>

lemma cls_group_text:
  assumes "(j, x) \<in> set (rep (rmatch (RCls rs) s) lo n k)"
  shows "\<forall>c\<in>set (slice s k j). in_cls rs c"
proof
  from rep_cls [where f = "rmatch (RCls rs) s", OF _ assms(1), of s "in_cls rs"]
  have r: "\<forall>n. k \<le> n \<and> n < j \<longrightarrow> n < length s \<and> in_cls rs (s ! n)" by auto
  fix c
  assume "c \<in> set (slice s k j)"
  then obtain n where n: "n < length (slice s k j)" "c = slice s k j ! n" by (metis in_set_conv_nth)
  then have "k \<le> length (take j s)" "k + n < length s" "k + n < j" by (auto simp: slice_def)
  moreover from this n have "c = s ! (k + n)" by (simp add: slice_def)
  ultimately show "in_cls rs c" using r by simp
qed

lemma group1_last:
  assumes "group1 (RSeq a (RSeq b (RGroup r))) s = Some m"
  shows "\<exists>k j x. m = slice s k j \<and> (j, x) \<in> set (rmatch r s k)"
proof -
  from assms obtain i j c where F: "FindSubmatch (RSeq a (RSeq b (RGroup r))) s = Some (i, j, c)"
    by (auto simp: group1_def split: option.splits)
  from FindSubmatch_match [OF F] obtain k x where k: "c = Some (k, j)" "(j, x) \<in> set (rmatch r s k)"
    by (fastforce simp: then_match_iff later_def)
  have "m = slice s k j" using assms F k(1) by (simp add: group1_def)
  with k(2) show ?thesis by blast
qed

lemma digits_group:
  assumes "group1 (RSeq a (RSeq b (RGroup (RRep digit_re lo hi)))) s = Some m"
  shows "list_all is_digit m"
proof -
  from group1_last [OF assms] obtain k j x where "m = slice s k j" "(j, x) \<in> set (rmatch (RRep digit_re lo hi) s k)" by blast
  then show ?thesis using cls_group_text [of j x "[(48, 57)]" s lo _ k]
    by (fastforce simp: digit_re_def list_all_iff in_cls_def is_digit_def Regexp.byte_def simp del: rmatch.simps(1))
qed

lemma Atoi_range: "Atoi s = Some n \<Longrightarrow> minInt64 \<le> n \<and> n \<le> maxInt64"
  by (auto simp: Atoi_def Let_def split: if_splits)

lemma Atoi_digits: "list_all is_digit s \<Longrightarrow> Atoi s = Some n \<Longrightarrow> 0 \<le> n"
  using undigits_bound [of s] by (cases s) (auto simp: Atoi_def Let_def is_digit_def split: if_splits)

lemma findDstPort_range: "0 \<le> findDstPort msg \<and> findDstPort msg < 65536"
  by (simp add: findDstPort_def split: option.splits)

lemma findBytes_range: "0 \<le> findBytes msg \<and> findBytes msg \<le> maxInt64"
proof (cases "group1 reBytes msg")
  case None
  then show ?thesis by (simp add: findBytes_def maxInt64_def)
next
  case (Some m)
  then have "list_all is_digit m" unfolding reBytes_def rseq.simps by (rule digits_group)
  then show ?thesis using Some Atoi_range [of m] Atoi_digits [of m] by (simp add: findBytes_def maxInt64_def split: option.splits)
qed

definition event_wf :: "Event \<Rightarrow> bool" where
  "event_wf e \<longleftrightarrow> 0 \<le> evDstPort e \<and> evDstPort e < 65536 \<and> 0 \<le> evBytesOut e \<and> evBytesOut e \<le> maxInt64 \<and>
     -1 \<le> evSeverity e \<and> evSeverity e \<le> 7 \<and> evAuth e \<in> {AuthNone, AuthFailure, AuthSuccess} \<and>
     evAction e \<in> {[], ''new_admin'', ''deny'', ''accept''}"

lemma event_wf_stages:
  "event_wf e \<Longrightarrow> event_wf (extract_identity msg e)" "event_wf e \<Longrightarrow> event_wf (extract_windows msg e)"
  "event_wf e \<Longrightarrow> event_wf (extract_unix_auth low e)" "event_wf e \<Longrightarrow> event_wf (extract_numbers msg e)"
  "event_wf e \<Longrightarrow> event_wf (extract_action low e)"
  using findDstPort_range [of msg] findBytes_range [of msg]
  by (auto simp: event_wf_def extract_identity_def extract_windows_def extract_unix_auth_def extract_numbers_def
      extract_action_def Let_def split: option.splits)

lemma extract_admin_result: "extract_admin low e = e \<or> extract_admin low e = e\<lparr>evAction := ''new_admin''\<rparr>"
  by (simp add: extract_admin_def Let_def)

lemma event_wf_admin: "event_wf e \<Longrightarrow> event_wf (extract_admin low e)"
  using extract_admin_result [of low e] by (auto simp: event_wf_def)

lemma event_wf_text: "event_wf e \<Longrightarrow> event_wf (extract_text e)"
  unfolding extract_text_def Let_def by (intro event_wf_stages event_wf_admin)

lemma group_auth_values: "a \<in> {AuthNone, AuthFailure, AuthSuccess} \<Longrightarrow> fold group_auth gs a \<in> {AuthNone, AuthFailure, AuthSuccess}"
  by (induction gs arbitrary: a) (auto simp: group_auth_def)

lemma wazuh_alert_fields:
  "evBytesOut (wazuh_alert env e a) = evBytesOut e" "evAction (wazuh_alert env e a) = evAction e"
  "evSeverity (wazuh_alert env e a) = wazuhSyslogSeverity (waLevel a)"
  "evAuth (wazuh_alert env e a) = (if isHexwardRule (waRuleID a) then evAuth e else fold group_auth (waGroups a) (evAuth e))"
  "evDstPort (wazuh_alert env e a) = evDstPort e \<or> 0 < evDstPort (wazuh_alert env e a) \<and> evDstPort (wazuh_alert env e a) < 65536"
  by (simp_all add: wazuh_alert_def Let_def split: option.split)

lemma event_wf_wazuh: "event_wf e \<Longrightarrow> event_wf (wazuh_alert env e a)"
  using group_auth_values [of "evAuth e" "waGroups a"] wazuh_alert_fields(5) [of env e a]
  unfolding event_wf_def wazuh_alert_fields by (auto simp: wazuhSyslogSeverity_def)

lemma event_wf_hfs: "event_wf e \<Longrightarrow> event_wf (hfs_event e h)"
  by (simp add: event_wf_def hfs_event_def Let_def split: option.splits)

lemma event_wf_fields: "event_wf e \<Longrightarrow> event_wf (extractFields env e)"
  by (rule extractFields_cases [of env e]) (simp_all add: event_wf_wazuh event_wf_hfs event_wf_text)

lemma parse3164_wf: "parse3164 env rest e = Some e' \<Longrightarrow> event_wf e \<Longrightarrow> event_wf e'"
  using parse3164_keeps [of env rest e e'] by (simp add: event_wf_def)

lemma parse5424_wf: "parse5424 rest e = Some e' \<Longrightarrow> event_wf e \<Longrightarrow> event_wf e'"
  by (auto simp: parse5424_def Let_def event_wf_def split: if_splits option.splits)

text \<open>C16. No line, however hostile, gives a detector a malformed event: in every event the parsers
  produce, the destination port is 0 or a port, the byte count is a non-negative 64-bit number, the
  severity is a syslog severity or \<open>-1\<close>, and the authentication outcome and the action are among the
  values the detectors know.\<close>

theorem parsed_events_wf:
  "event_wf (ParseSyslog env line now) \<and> event_wf (ParseLine env ty sid host app line now)"
proof
  have z: "event_wf (zero_event\<lparr>evSource := a, evSourceID := b, evHost := c, evApp := d, evSeverity := -1,
      evMessage := m, evRaw := r, evParsed := p, evTimestamp := t\<rparr>)" for a b c d m r p t
    by (simp add: event_wf_def zero_event_def maxInt64_def)
  let ?l = "TrimRightCRLF line"
  define e where "e = zero_event\<lparr>evSource := SourceSyslog, evSeverity := -1, evRaw := ?l, evTimestamp := now\<rparr>"
  have e: "event_wf (e\<lparr>evSeverity := n mod 8\<rparr>)" "event_wf (e\<lparr>evMessage := x\<rparr>)" "event_wf (e\<lparr>evSeverity := n mod 8, evMessage := x\<rparr>)" for n x
    using pos_mod_bound [of 8 n] pos_mod_sign [of 8 n] by (auto simp: event_wf_def zero_event_def maxInt64_def e_def)
  have "event_wf (case splitPriority ?l of
      Some (pri, rest) \<Rightarrow>
        (case parse5424 rest (e\<lparr>evSeverity := pri mod 8\<rparr>) of
           Some ev \<Rightarrow> ev
         | None \<Rightarrow> (case parse3164 env rest (e\<lparr>evSeverity := pri mod 8\<rparr>) of
                      Some ev \<Rightarrow> ev
                    | None \<Rightarrow> e\<lparr>evSeverity := pri mod 8, evMessage := rest\<rparr>))
    | None \<Rightarrow> e\<lparr>evMessage := ?l\<rparr>)"
    using parse3164_wf parse5424_wf e by (auto split: option.splits)
  then show "event_wf (ParseSyslog env line now)"
    unfolding ParseSyslog_def Let_def e_def by (rule event_wf_fields)
  let ?e = "zero_event\<lparr>evSource := ty, evSourceID := sid, evHost := host, evApp := app, evSeverity := -1,
      evMessage := ?l, evRaw := line, evParsed := True, evTimestamp := now\<rparr>"
  show "event_wf (ParseLine env ty sid host app line now)"
  proof (cases "parse3164 env ?l ?e")
    case None
    then show ?thesis unfolding ParseLine_def Let_def by (simp add: event_wf_fields z)
  next
    case (Some ev)
    have "event_wf ev" using parse3164_wf [OF Some z] .
    then show ?thesis unfolding ParseLine_def Let_def Some option.case
      by (intro event_wf_fields) (simp add: event_wf_def)
  qed
qed

end
