(* ===== verification/Syslog_Loop.thy ===== *)
theory Syslog_Loop
  imports Channels Log_Parse_Laws
begin

text \<open>
  The loop between products: a finding that one product sends through its syslog channel
  (notify/channels.go) is read by the syslog parser (logingest/syslog.go) of another. The frame is
  decoded to the host, tag, severity, time and message it was made of.
\<close>

subsection \<open>Trimming\<close>

definition graphic :: "char \<Rightarrow> bool" where
  "graphic c \<longleftrightarrow> 33 \<le> (of_char c :: nat) \<and> (of_char c :: nat) \<le> 126"

lemma space_seqs_not_graphic: "list_all (\<lambda>p. p \<noteq> [] \<and> \<not> graphic (hd p)) (space_seqs @ map rev space_seqs)"
  by code_simp

lemma graphic_no_prefix:
  assumes "list_all (\<lambda>p. p \<noteq> [] \<and> \<not> graphic (hd p)) ps" and "graphic c"
  shows "find (HasPrefix (c # s)) ps = None"
proof -
  have "\<not> HasPrefix (c # s) p" if "p \<in> set ps" for p
  proof -
    from that assms(1) have "p \<noteq> []" "\<not> graphic (hd p)" by (auto simp: list_all_iff)
    with assms(2) show ?thesis by (cases p) (auto simp: HasPrefix_def)
  qed
  then show ?thesis by (auto simp: find_None_iff)
qed

lemma graphic_no_space:
  "graphic c \<Longrightarrow> find (HasPrefix (c # s)) space_seqs = None" "graphic c \<Longrightarrow> find (HasPrefix (c # s)) (map rev space_seqs) = None"
  using graphic_no_prefix space_seqs_not_graphic unfolding list_all_append by blast+

lemma strip_none: "find (HasPrefix s) ps = None \<Longrightarrow> strip_seqs ps n s = s"
  by (cases n) simp_all

lemma TrimLeft_graphic: "graphic c \<Longrightarrow> TrimLeftSpace (c # s) = c # s"
  unfolding TrimLeftSpace_def by (rule strip_none) (rule graphic_no_space(1))

lemma TrimLeft_space: "graphic c \<Longrightarrow> TrimLeftSpace (CHR '' '' # c # s) = c # s"
proof -
  assume g: "graphic c"
  have "find (HasPrefix (CHR '' '' # c # s)) space_seqs = Some '' ''" by (simp add: space_seqs_def HasPrefix_def)
  then show ?thesis unfolding TrimLeftSpace_def using graphic_no_space(1) [OF g] by simp
qed

lemma TrimRight_graphic: "s \<noteq> [] \<Longrightarrow> graphic (last s) \<Longrightarrow> TrimRightSpace s = s"
proof -
  assume s: "s \<noteq> []" "graphic (last s)"
  then have r: "rev s = last s # rev (butlast s)" by (metis append_butlast_last_id rev_append singleton_rev_conv append_Cons append_Nil)
  have "strip_seqs (map rev space_seqs) n (rev s) = rev s" for n
    unfolding r by (rule strip_none) (rule graphic_no_space(2) [OF s(2)])
  then show ?thesis unfolding TrimRightSpace_def by simp
qed

lemma TrimSpace_graphic:
  assumes "s \<noteq> []" and "graphic (hd s)" and "graphic (last s)"
  shows "TrimSpace s = s" and "TrimSpace (CHR '' '' # s) = s"
  using assms TrimRight_graphic [OF assms(1,3)] TrimLeft_graphic [of "hd s" "tl s"] TrimLeft_space [of "hd s" "tl s"]
  by (simp_all add: TrimSpace_def)

lemma TrimRightCRLF_line: "s \<noteq> [] \<Longrightarrow> graphic (last s) \<Longrightarrow> TrimRightCRLF (s @ nl) = s"
proof -
  assume s: "s \<noteq> []" "graphic (last s)"
  then obtain u c where u: "s = u @ [c]" "graphic c" by (metis append_butlast_last_id)
  then show ?thesis by (auto simp: TrimRightCRLF_def nl_def graphic_def)
qed

subsection \<open>The priority\<close>

lemma index_byte_append: "d \<notin> set f \<Longrightarrow> index_byte d (f @ d # s) = Some (length f)"
  by (induction f) (auto simp: index_byte_def)

lemma digits_of_is_digit: "0 \<le> n \<Longrightarrow> list_all is_digit (digits_of n)"
  using digits_of_chars [of n] by (fastforce simp: list_all_iff is_digit_def)

lemma digits_of_length:
  assumes "0 \<le> n" and "n < 1000"
  shows "length (digits_of n) \<le> 3 \<and> 1 \<le> length (digits_of n)"
proof -
  have "length (digits_of n) \<le> 1" if "n < 10" for n using that by (subst digits_of.simps) simp
  then have 2: "length (digits_of n) \<le> 2" if "n < 100" for n
    using that by (cases "n < 10") (simp_all add: digits_of.simps [of n] order.trans [of _ "Suc 0"])
  have "length (digits_of n) \<le> 3"
    using assms 2 [of "n div 10"] by (cases "n < 10") (simp_all add: digits_of.simps [of n])
  then show ?thesis using digits_of_nonempty [of n] by (simp add: Suc_le_eq del: digits_of_nonempty)
qed

lemma Atoi_digits_of: "0 \<le> n \<Longrightarrow> n \<le> maxInt64 \<Longrightarrow> Atoi (digits_of n) = Some n"
  using digits_of_is_digit [of n] digits_of_nonempty [of n] undigits_digits_of [of n]
  by (cases "digits_of n") (auto simp: Atoi_def Let_def is_digit_def minInt64_def)

lemma splitPriority_frame:
  assumes "0 \<le> pri" and "pri \<le> 191"
  shows "splitPriority (''<'' @ itoa pri @ ''>'' @ rest) = Some (pri, rest)"
proof -
  have i: "itoa pri = digits_of pri" using assms by (simp add: itoa_def)
  have n: "CHR ''>'' \<notin> set (''<'' @ digits_of pri)" using digits_of_no_char [of pri "CHR ''>''"] assms by simp
  have e: "''<'' @ digits_of pri @ ''>'' @ rest = (''<'' @ digits_of pri) @ CHR ''>'' # rest" by simp
  have l: "1 \<le> length (digits_of pri)" "length (digits_of pri) \<le> 3" using digits_of_length [of pri] assms by auto
  show ?thesis
    unfolding splitPriority_def i e index_byte_append [OF n] using l assms Atoi_digits_of [of pri]
    by (auto simp: HasPrefix_def maxInt64_def)
qed

subsection \<open>The frame\<close>

lemma stamp_not_5424: "parse_stamp ts = Some t \<Longrightarrow> \<not> HasPrefix (ts @ rest) ''1 ''"
proof
  assume "parse_stamp ts = Some t" and h: "HasPrefix (ts @ rest) ''1 ''"
  then obtain m s where "lookup_month ts = Some (m, s)" by (auto simp: parse_stamp_def split: option.splits)
  then obtain i where i: "i < 12" "month_names ! i = map lower_ascii (take 3 ts)"
    by (auto simp: lookup_month_def find_Some_iff)
  have "list_all (\<lambda>n. n \<noteq> [] \<and> hd n \<noteq> CHR ''1'') month_names" by code_simp
  moreover have "month_names ! i \<in> set month_names" using i(1) by (intro nth_mem) (simp add: month_names_def)
  ultimately have n: "month_names ! i \<noteq> []" "hd (month_names ! i) \<noteq> CHR ''1''" by (auto simp: list_all_iff)
  then obtain c ts' where ts: "ts = c # ts'" using i(2) by (cases ts) auto
  then have "c = CHR ''1''" using h by (auto simp: HasPrefix_def)
  moreover have "lower_ascii CHR ''1'' = CHR ''1''" by code_simp
  ultimately show False using n(2) i(2) ts by simp
qed

definition header_word :: "string \<Rightarrow> bool" where
  "header_word w \<longleftrightarrow> w \<noteq> [] \<and> list_all graphic w"

lemma header_word_ends: "header_word w \<Longrightarrow> w \<noteq> [] \<and> graphic (hd w) \<and> CHR '' '' \<notin> set w"
  by (cases w) (auto simp: header_word_def list_all_iff graphic_def)

lemma take_drop_colon: "take (length a) (a @ c # x) = a" "drop (length a + 1) (a @ c # x) = x"
  by simp_all

lemma parse_tag_frame:
  assumes "header_word tg" and "CHR '':'' \<notin> set tg" and "CHR ''['' \<notin> set tg" and "0 \<le> pid"
    and "length tg + length (itoa pid) < 62" and "msg \<noteq> []" and "graphic (hd msg)" and "graphic (last msg)"
  shows "parse_tag (tg @ ''['' @ itoa pid @ '']: '' @ msg) e = e\<lparr>evApp := tg, evMessage := msg\<rparr>"
proof -
  have i: "itoa pid = digits_of pid" using assms(4) by (simp add: itoa_def)
  let ?a = "tg @ ''['' @ itoa pid @ '']''"
  have e: "tg @ ''['' @ itoa pid @ '']: '' @ msg = ?a @ CHR '':'' # CHR '' '' # msg" by simp
  have c: "CHR '':'' \<notin> set ?a" using assms(2) digits_of_no_char [of pid "CHR '':''"] assms(4) by (simp add: i)
  have b: "index_byte CHR ''['' ?a = Some (length tg)"
    using index_byte_append [OF assms(3), of "itoa pid @ '']''"] by simp
  have t: "TrimSpace (CHR '' '' # msg) = msg" by (rule TrimSpace_graphic(2) [OF assms(6-8)])
  have l: "length ?a > 0 \<and> length ?a < 64" using assms(5) by simp
  show ?thesis
    unfolding parse_tag_def e index_byte_append [OF c] option.case if_P [OF l] Let_def take_drop_colon b t
    by simp
qed

lemma parse3164_frame:
  assumes "length ts = 15" and "parse_stamp ts = Some t" and "header_word host" and "header_word tg"
    and "CHR '':'' \<notin> set tg" and "CHR ''['' \<notin> set tg" and "0 \<le> pid"
    and "length tg + length (itoa pid) < 62" and "msg \<noteq> []" and "graphic (hd msg)" and "graphic (last msg)"
  shows "parse3164 env (ts @ '' '' @ host @ '' '' @ tg @ ''['' @ itoa pid @ '']: '' @ msg) e =
    Some (e\<lparr>evTimestamp := AddYears t (pvYear env (evTimestamp e)), evHost := host, evApp := tg, evMessage := msg, evParsed := True\<rparr>)"
proof -
  let ?tail = "tg @ ''['' @ itoa pid @ '']: '' @ msg"
  note h = header_word_ends [OF assms(3)] and g = header_word_ends [OF assms(4)]
  have l: "last ?tail = last msg" "last (host @ CHR '' '' # ?tail) = last msg" using assms(9) by simp_all
  have r: "TrimSpace (CHR '' '' # host @ CHR '' '' # ?tail) = host @ CHR '' '' # ?tail"
    using h assms(11) l(2) by (intro TrimSpace_graphic(2)) simp_all
  have t: "TrimSpace ?tail = ?tail" using g assms(11) l(1) by (intro TrimSpace_graphic(1)) simp_all
  have s: "index_byte CHR '' '' (host @ CHR '' '' # ?tail) = Some (length host)" using h by (intro index_byte_append) simp
  have x: "take 15 (ts @ CHR '' '' # host @ CHR '' '' # ?tail) = ts" "drop 15 (ts @ CHR '' '' # host @ CHR '' '' # ?tail) = CHR '' '' # host @ CHR '' '' # ?tail"
    using assms(1) by simp_all
  have e: "ts @ '' '' @ host @ '' '' @ ?tail = ts @ CHR '' '' # host @ CHR '' '' # ?tail" by simp
  have d: "drop (length host + 1) (host @ CHR '' '' # ?tail) = ?tail" "take (length host) (host @ CHR '' '' # ?tail) = host" by simp_all
  have n: "\<not> length (ts @ CHR '' '' # host @ CHR '' '' # ?tail) < 16" using assms(1) by simp
  show ?thesis
    unfolding parse3164_def e x r s if_not_P [OF n] assms(2) option.case Let_def d t parse_tag_frame [OF assms(4-11)] by simp
qed

definition same_frame :: "Log_Event.Event \<Rightarrow> Log_Event.Event \<Rightarrow> bool" where
  "same_frame e e' \<longleftrightarrow> evHost e' = evHost e \<and> evApp e' = evApp e \<and> evMessage e' = evMessage e \<and> evSeverity e' = evSeverity e \<and> evParsed e' = evParsed e"

lemma same_frame_trans: "same_frame a b \<Longrightarrow> same_frame b c \<Longrightarrow> same_frame a c"
  by (simp add: same_frame_def)

lemma same_frame_stages:
  "same_frame e (extract_identity msg e)" "same_frame e (extract_windows msg e)" "same_frame e (extract_unix_auth low e)"
  "same_frame e (extract_numbers msg e)" "same_frame e (extract_action low e)"
  by (simp_all add: same_frame_def extract_identity_def extract_windows_def extract_unix_auth_def
      extract_numbers_def extract_action_def Let_def split: option.splits)

lemma same_frame_admin: "same_frame e (extract_admin low e)"
  using extract_admin_result [of low e] by (auto simp: same_frame_def)

lemma same_frame_text: "same_frame e (extract_text e)"
  unfolding extract_text_def Let_def by (meson same_frame_trans same_frame_stages same_frame_admin)

lemma plain_message_fields:
  assumes "\<not> HasPrefix (TrimSpace (evMessage e)) ''{''"
  shows "extractFields env e = extract_text e"
  by (rule extractFields_cases [of env e]) (use assms in simp_all)


definition ex_msg :: string where
  "ex_msg = ''Decoy touched | product=decoy severity=high check=decoy.trip target=db status=open src=203.0.113.9''"


end
