(* ===== verification/Ingest.thy ===== *)
theory Ingest
  imports Log_Parse_Laws Log_Store
begin

text \<open>
  logingest/engine.go, logingest/source.go, the constructors of logingest/command_source.go, the
  tagging of logingest/syslog_source.go and loglight/sources.go. The engine keeps one cancellable
  instance per source and counts parsed events; an instance is a number, its context is cancelled or
  not. The file tailer is a function of what it finds on disk at each tick: the file at the path, whether
  it can be opened, and the bytes of every inode, so that a held handle keeps reading a rotated file.
  \<open>None\<close> is the nil dereference of a reader that was never opened.
\<close>

subsection \<open>The engine\<close>

record engineState =
  parseHit :: "string \<Rightarrow> int"
  parseTot :: "string \<Rightarrow> int"

definition newEngineState :: engineState where
  "newEngineState = \<lparr>parseHit = (\<lambda>_. 0), parseTot = (\<lambda>_. 0)\<rparr>"

definition es_record :: "Event \<Rightarrow> engineState \<Rightarrow> engineState" where
  "es_record e s =
     (let s = s\<lparr>parseTot := (parseTot s)(evSourceID e := parseTot s (evSourceID e) + 1)\<rparr>
      in if evParsed e then s\<lparr>parseHit := (parseHit s)(evSourceID e := parseHit s (evSourceID e) + 1)\<rparr> else s)"

definition es_ParseRate :: "engineState \<Rightarrow> string \<Rightarrow> f64" where
  "es_ParseRate s sid =
     (if parseTot s sid = 0 then Fin 1 else f64_div (f64_of_int (parseHit s sid)) (f64_of_int (parseTot s sid)))"

text \<open>\<open>inIDs ! n\<close> is the source that instance \<open>n\<close> runs; \<open>inBound\<close> and \<open>inDone\<close> say whether a base
  context was set and whether it is done.\<close>

record ingestEngine =
  inState :: engineState
  inRunning :: "(string, nat) gomap"
  inIDs :: "string list"
  inCancelled :: "nat set"
  inBound :: bool
  inDone :: bool

definition NewIngestEngine :: ingestEngine where
  "NewIngestEngine = \<lparr>inState = newEngineState, inRunning = [], inIDs = [], inCancelled = {}, inBound = False, inDone = False\<rparr>"

definition Ingest_Start :: "ingestEngine \<Rightarrow> ingestEngine" where
  "Ingest_Start g = g\<lparr>inBound := True\<rparr>"

definition Ingest_done :: "ingestEngine \<Rightarrow> ingestEngine" where
  "Ingest_done g =
     (if inBound g
      then g\<lparr>inDone := True, inCancelled := inCancelled g \<union> snd ` set (inRunning g), inRunning := []\<rparr>
      else g)"

definition Ingest_Add :: "string \<Rightarrow> ingestEngine \<Rightarrow> ingestEngine" where
  "Ingest_Add sid g =
     (let g = (case map_of (inRunning g) sid of Some n \<Rightarrow> g\<lparr>inCancelled := insert n (inCancelled g)\<rparr> | None \<Rightarrow> g);
          n = length (inIDs g)
      in g\<lparr>inIDs := inIDs g @ [sid],
           inCancelled := (if inBound g \<and> inDone g then insert n (inCancelled g) else inCancelled g),
           inRunning := map_put sid n (inRunning g)\<rparr>)"

definition Ingest_Remove :: "string \<Rightarrow> ingestEngine \<Rightarrow> ingestEngine" where
  "Ingest_Remove sid g =
     (case map_of (inRunning g) sid of
        Some n \<Rightarrow> g\<lparr>inCancelled := insert n (inCancelled g), inRunning := map_del sid (inRunning g)\<rparr>
      | None \<Rightarrow> g)"

text \<open>The \<open>emit\<close> callback of an instance: the event that reaches the handler.\<close>

definition Ingest_emit :: "nat \<Rightarrow> Event \<Rightarrow> ingestEngine \<Rightarrow> Event \<times> ingestEngine" where
  "Ingest_emit n ev g =
     (let ev = (if evSourceID ev = [] then ev\<lparr>evSourceID := inIDs g ! n\<rparr> else ev)
      in (ev, g\<lparr>inState := es_record ev (inState g)\<rparr>))"

definition Ingest_ParseRate :: "ingestEngine \<Rightarrow> string \<Rightarrow> f64" where
  "Ingest_ParseRate g sid = es_ParseRate (inState g) sid"

subsection \<open>The file tailer\<close>

record FileSource =
  fsSourceID :: string
  fsPath :: string
  fsHost :: string
  fsApp :: string
  fsKind :: SourceType
  fsFromStart :: bool

definition FileSource_Type :: "FileSource \<Rightarrow> SourceType" where
  "FileSource_Type f = (if fsKind f \<noteq> [] then fsKind f else SourceFile)"

record disk =
  dkStat :: "nat option"
  dkOpen :: bool
  dkFstat :: bool
  dkData :: "nat \<Rightarrow> string"

record tailer =
  tlFile :: "(nat \<times> nat) option"
  tlOffset :: int
  tlInode :: nat

definition new_tailer :: tailer where
  "new_tailer = \<lparr>tlFile = None, tlOffset = 0, tlInode = 0\<rparr>"

definition tail_open :: "FileSource \<Rightarrow> disk \<Rightarrow> tailer \<Rightarrow> tailer" where
  "tail_open f d t =
     (let t = t\<lparr>tlFile := None\<rparr>
      in case dkStat d of
           None \<Rightarrow> t
         | Some i \<Rightarrow>
             if \<not> dkOpen d then t
             else let t = t\<lparr>tlFile := Some (i, 0)\<rparr>
                  in if dkFstat d
                     then let t = t\<lparr>tlInode := i\<rparr>
                          in if fsFromStart f then t\<lparr>tlOffset := 0\<rparr>
                             else t\<lparr>tlOffset := int (length (dkData d i)), tlFile := Some (i, length (dkData d i))\<rparr>
                     else t)"

text \<open>Repeated \<open>ReadString('\n')\<close> up to the end of the file: the complete lines, and the bytes of the
  last, incomplete one, which the reader has consumed as well.\<close>

fun lines_of :: "string \<Rightarrow> string \<Rightarrow> string list \<times> string" where
  "lines_of cur [] = ([], cur)"
| "lines_of cur (c # s) =
     (if c = CHR 0x0A then apfst ((#) (cur @ [c])) (lines_of [] s) else lines_of (cur @ [c]) s)"

definition tail_read :: "parse_env \<Rightarrow> FileSource \<Rightarrow> time \<Rightarrow> disk \<Rightarrow> tailer \<Rightarrow> (Event list \<times> tailer) option" where
  "tail_read env f now d t =
     (case tlFile t of
        None \<Rightarrow> None
      | Some (h, pos) \<Rightarrow>
          (let (ls, part) = lines_of [] (drop pos (dkData d h))
           in Some (map (\<lambda>l. ParseLine env (FileSource_Type f) (fsSourceID f) (fsHost f) (fsApp f) l now) ls,
                    t\<lparr>tlOffset := tlOffset t + int (length (concat ls)),
                      tlFile := Some (h, max pos (length (dkData d h)))\<rparr>)))"

definition tail_tick :: "parse_env \<Rightarrow> FileSource \<Rightarrow> time \<Rightarrow> disk \<Rightarrow> tailer \<Rightarrow> (Event list \<times> tailer) option" where
  "tail_tick env f now d t =
     (if tlFile t = None then Some ([], tail_open f d t)
      else case dkStat d of
             None \<Rightarrow> Some ([], t)
           | Some i \<Rightarrow>
               let t = (if int (length (dkData d i)) < tlOffset t \<or> i \<noteq> tlInode t then tail_open f d t else t)
               in tail_read env f now d t)"

fun tail_run :: "parse_env \<Rightarrow> FileSource \<Rightarrow> (time \<times> disk) list \<Rightarrow> tailer \<Rightarrow> (Event list \<times> tailer) option" where
  "tail_run env f [] t = Some ([], t)"
| "tail_run env f ((now, d) # ds) t =
     (case tail_tick env f now d t of
        None \<Rightarrow> None
      | Some (es, t) \<Rightarrow> (case tail_run env f ds t of None \<Rightarrow> None | Some (es', t) \<Rightarrow> Some (es @ es', t)))"

subsection \<open>Other sources\<close>

record CommandSource =
  cmSourceID :: string
  cmKind :: SourceType
  cmHost :: string
  cmApp :: string
  cmName :: string
  cmArgs :: "string list"

definition NewJournaldSource :: "string \<Rightarrow> string \<Rightarrow> CommandSource" where
  "NewJournaldSource sid u =
     \<lparr>cmSourceID = sid, cmKind = SourceJournald, cmHost = [], cmApp = [], cmName = ''journalctl'',
      cmArgs = [''-f'', ''-o'', ''cat'', ''--no-pager''] @ (if u \<noteq> [] then [''-u'', u] else [])\<rparr>"

definition NewDockerSource :: "string \<Rightarrow> string \<Rightarrow> CommandSource" where
  "NewDockerSource sid container =
     \<lparr>cmSourceID = sid, cmKind = SourceDocker, cmHost = [], cmApp = container, cmName = ''docker'',
      cmArgs = [''logs'', ''-f'', ''--since'', ''0m'', container]\<rparr>"

record SyslogSource =
  ssSourceID :: string
  ssUDPAddr :: string
  ssTCPAddr :: string
  ssKind :: SourceType

definition SyslogSource_Type :: "SyslogSource \<Rightarrow> SourceType" where
  "SyslogSource_Type s = (if ssKind s \<noteq> [] then ssKind s else SourceSyslog)"

definition SyslogSource_tag :: "SyslogSource \<Rightarrow> Event \<Rightarrow> Event" where
  "SyslogSource_tag s e =
     (let e = e\<lparr>evSourceID := ssSourceID s\<rparr>
      in if ssKind s = SourceWindows then e\<lparr>evSource := SourceWindows\<rparr> else e)"

text \<open>What a datagram or a line of a connection becomes.\<close>

definition SyslogSource_event :: "parse_env \<Rightarrow> SyslogSource \<Rightarrow> time \<Rightarrow> string \<Rightarrow> Event" where
  "SyslogSource_event env s now msg = SyslogSource_tag s (ParseSyslog env msg now)"

datatype source =
    Syslog SyslogSource
  | File FileSource
  | Command CommandSource
  | NetflowUDP string string

fun source_ID :: "source \<Rightarrow> string" where
  "source_ID (Syslog s) = ssSourceID s"
| "source_ID (File f) = fsSourceID f"
| "source_ID (Command c) = cmSourceID c"
| "source_ID (NetflowUDP sid addr) = sid"

fun source_Type :: "source \<Rightarrow> SourceType" where
  "source_Type (Syslog s) = SyslogSource_Type s"
| "source_Type (File f) = FileSource_Type f"
| "source_Type (Command c) = cmKind c"
| "source_Type (NetflowUDP sid addr) = SourceNetflow"

definition param :: "(string \<rightharpoonup> string) \<Rightarrow> string \<Rightarrow> string" where
  "param m k = (case m k of Some v \<Rightarrow> v | None \<Rightarrow> [])"

text \<open>\<open>quoted\<close> is the rendering of \<^verbatim>\<open>%q\<close>.\<close>

definition validateSource :: "(string \<Rightarrow> string) \<Rightarrow> string \<Rightarrow> (string \<rightharpoonup> string) \<Rightarrow> error option" where
  "validateSource quoted typ params =
     (if typ = ''syslog'' \<or> typ = ''windows'' then
        (if param params ''udp'' = [] \<and> param params ''tcp'' = []
         then Some (Errorf (''a '' @ typ @ '' source needs a udp and/or tcp listen address (e.g. 0.0.0.0:5514)'')) else None)
      else if typ = ''file'' then (if param params ''path'' = [] then Some (Errorf ''a file source needs a path'') else None)
      else if typ = ''docker'' then
        (if param params ''container'' = [] then Some (Errorf ''a docker source needs a container name or id'') else None)
      else if typ = ''journald'' then None
      else if typ = ''netflow'' then
        (if param params ''udp'' = [] then Some (Errorf ''a netflow source needs a udp listen address (e.g. 0.0.0.0:2055)'') else None)
      else Some (Errorf (''unknown source type '' @ quoted typ)))"

definition BuildSourceWith :: "(string \<Rightarrow> string) \<Rightarrow> SourceConfig \<Rightarrow> error + source" where
  "BuildSourceWith quoted s =
     (case validateSource quoted (scType s) (scParams s) of
        Some err \<Rightarrow> Inl err
      | None \<Rightarrow>
          (let p = param (scParams s) in
           if scType s = ''syslog'' then
             Inr (Syslog \<lparr>ssSourceID = scName s, ssUDPAddr = p ''udp'', ssTCPAddr = p ''tcp'', ssKind = SourceSyslog\<rparr>)
           else if scType s = ''windows'' then
             Inr (Syslog \<lparr>ssSourceID = scName s, ssUDPAddr = p ''udp'', ssTCPAddr = p ''tcp'', ssKind = SourceWindows\<rparr>)
           else if scType s = ''file'' then
             Inr (File \<lparr>fsSourceID = scName s, fsPath = p ''path'', fsHost = p ''host'', fsApp = p ''app'', fsKind = [], fsFromStart = False\<rparr>)
           else if scType s = ''journald'' then Inr (Command (NewJournaldSource (scName s) (p ''unit'')))
           else if scType s = ''docker'' then Inr (Command (NewDockerSource (scName s) (p ''container'')))
           else if scType s = ''netflow'' then Inr (NetflowUDP (scName s) (p ''udp''))
           else Inl (Errorf (''unknown source type '' @ quoted (scType s)))))"

subsection \<open>The tailer reads every line once\<close>

definition whole :: "string \<Rightarrow> bool" where
  "whole s \<longleftrightarrow> s = [] \<or> last s = CHR 0x0A"

definition one_line :: "string \<Rightarrow> bool" where
  "one_line l \<longleftrightarrow> l \<noteq> [] \<and> last l = CHR 0x0A \<and> CHR 0x0A \<notin> set (butlast l)"

lemma lines_of_concat: "lines_of cur s = (ls, part) \<Longrightarrow> concat ls @ part = cur @ s"
  by (induction cur s arbitrary: ls rule: lines_of.induct) (auto simp: apfst_def map_prod_def split: if_splits prod.splits)

lemma lines_of_whole: "lines_of cur s = (ls, part) \<Longrightarrow> s = [] \<and> cur = [] \<or> s \<noteq> [] \<and> last s = CHR 0x0A \<Longrightarrow> part = []"
  by (induction cur s arbitrary: ls rule: lines_of.induct) (auto simp: apfst_def map_prod_def split: if_splits prod.splits)

lemma lines_of_lines: "lines_of cur s = (ls, part) \<Longrightarrow> CHR 0x0A \<notin> set cur \<Longrightarrow> \<forall>l\<in>set ls. one_line l"
  by (induction cur s arbitrary: ls rule: lines_of.induct) (auto simp: apfst_def map_prod_def one_line_def split: if_splits prod.splits)

text \<open>A file that is only appended to, in whole lines between two ticks.\<close>

fun grows :: "nat \<Rightarrow> string \<Rightarrow> (time \<times> disk) list \<Rightarrow> bool" where
  "grows i c [] = True"
| "grows i c ((now, d) # ds) =
     (dkStat d = Some i \<and> prefix c (dkData d i) \<and> whole (drop (length c) (dkData d i)) \<and> grows i (dkData d i) ds)"

fun final_data :: "nat \<Rightarrow> string \<Rightarrow> (time \<times> disk) list \<Rightarrow> string" where
  "final_data i c [] = c"
| "final_data i c ((now, d) # ds) = final_data i (dkData d i) ds"

lemma grows_prefix: "grows i c ds \<Longrightarrow> prefix c (final_data i c ds)"
  by (induction ds arbitrary: c) (auto intro: prefix_order.trans)

lemma ParseLine_raw: "evRaw (ParseLine env ty sid h a l now) = l"
proof -
  let ?e = "zero_event\<lparr>evSource := ty, evSourceID := sid, evHost := h, evApp := a, evSeverity := -1,
      evMessage := TrimRightCRLF l, evRaw := l, evParsed := True, evTimestamp := now\<rparr>"
  have k: "evRaw (extractFields env e) = evRaw e" for e using extractFields_origin [of e env] by (simp add: same_origin_def)
  show ?thesis
    by (cases "parse3164 env (TrimRightCRLF l) ?e") (auto simp: ParseLine_def Let_def k parse3164_keeps(2))
qed

lemma tail_tick_grows:
  assumes "tlFile t = Some (i, length c)" and "tlInode t = i" and "tlOffset t = int (length c)"
    and "dkStat d = Some i" and "prefix c (dkData d i)" and "whole (drop (length c) (dkData d i))"
  shows "\<exists>es t'. tail_tick env f now d t = Some (es, t') \<and> tlFile t' = Some (i, length (dkData d i)) \<and> tlInode t' = i \<and>
    tlOffset t' = int (length (dkData d i)) \<and> concat (map evRaw es) = drop (length c) (dkData d i) \<and> (\<forall>e\<in>set es. one_line (evRaw e))"
proof -
  let ?new = "drop (length c) (dkData d i)"
  obtain ls part where l: "lines_of [] ?new = (ls, part)" by fastforce
  have p: "part = []" using lines_of_whole [OF l] assms(6) by (auto simp: whole_def)
  have c: "concat ls = ?new" using lines_of_concat [OF l] p by simp
  have n: "length c \<le> length (dkData d i)" using assms(5) by (rule prefix_length_le)
  have s: "\<not> int (length (dkData d i)) < tlOffset t" using assms(3) n by simp
  let ?es = "map (\<lambda>l. ParseLine env (FileSource_Type f) (fsSourceID f) (fsHost f) (fsApp f) l now) ls"
  have raw: "map evRaw ?es = ls" by (simp add: ParseLine_raw o_def)
  have "tail_tick env f now d t = Some (?es, t\<lparr>tlOffset := tlOffset t + int (length ?new), tlFile := Some (i, max (length c) (length (dkData d i)))\<rparr>)"
    using assms(1,2,4) s l by (simp add: tail_tick_def tail_read_def c)
  moreover have "\<forall>e\<in>set ?es. one_line (evRaw e)" using lines_of_lines [OF l] by (simp add: ParseLine_raw)
  ultimately show ?thesis using assms(2,3) n raw c by (simp add: of_nat_diff)
qed

lemma tail_run_grows:
  assumes "tlFile t = Some (i, length c)" and "tlInode t = i" and "tlOffset t = int (length c)" and "grows i c ds"
  shows "\<exists>es t'. tail_run env f ds t = Some (es, t') \<and> concat (map evRaw es) = drop (length c) (final_data i c ds) \<and> (\<forall>e\<in>set es. one_line (evRaw e))"
  using assms
proof (induction ds arbitrary: c t)
  case (Cons nd ds)
  obtain now d where nd: "nd = (now, d)" by fastforce
  from Cons.prems(4) have g: "dkStat d = Some i" "prefix c (dkData d i)" "whole (drop (length c) (dkData d i))" "grows i (dkData d i) ds"
    by (simp_all add: nd)
  obtain es t' where 1: "tail_tick env f now d t = Some (es, t')" "tlFile t' = Some (i, length (dkData d i))" "tlInode t' = i"
    "tlOffset t' = int (length (dkData d i))" "concat (map evRaw es) = drop (length c) (dkData d i)" "\<forall>e\<in>set es. one_line (evRaw e)"
    using tail_tick_grows [OF Cons.prems(1-3) g(1-3), of env f now] by blast
  obtain es' t'' where 2: "tail_run env f ds t' = Some (es', t'')"
    "concat (map evRaw es') = drop (length (dkData d i)) (final_data i (dkData d i) ds)" "\<forall>e\<in>set es'. one_line (evRaw e)"
    using Cons.IH [OF 1(2-4) g(4)] by blast
  have "drop (length c) (dkData d i) @ drop (length (dkData d i)) (final_data i (dkData d i) ds) = drop (length c) (final_data i (dkData d i) ds)"
    using grows_prefix [OF g(4)] g(2) by (auto simp: prefix_def)
  then show ?case using 1 2 by (auto simp: nd)
qed simp

text \<open>C13. Nothing a program appends to a followed log is lost or read twice: while a file is only
  appended to, in whole lines between two polls, the tailer never fails, and the raw texts of the
  events it emits, in order, are exactly the text appended since it opened the file, one line each.\<close>

theorem tailer_exactly_once:
  assumes "dkStat d = Some i" and "dkOpen d" and "dkFstat d" and "\<not> fsFromStart f" and "grows i (dkData d i) ds"
  shows "\<exists>es t. tail_run env f ds (tail_open f d new_tailer) = Some (es, t) \<and>
    concat (map evRaw es) = drop (length (dkData d i)) (final_data i (dkData d i) ds) \<and> (\<forall>e\<in>set es. one_line (evRaw e))"
  using assms(1-4) by (intro tail_run_grows [OF _ _ _ assms(5)]) (simp_all add: tail_open_def new_tailer_def)

definition ex_disk :: "string \<Rightarrow> disk" where
  "ex_disk s = \<lparr>dkStat = Some 1, dkOpen = True, dkFstat = True, dkData = (\<lambda>_. s)\<rparr>"

definition ex_file :: FileSource where
  "ex_file = \<lparr>fsSourceID = ''auth'', fsPath = ''/var/log/auth.log'', fsHost = [], fsApp = [], fsKind = [], fsFromStart = False\<rparr>"

definition LF :: string where
  "LF = [CHR 0x0A]"

theorem tailer_exactly_once_witness:
  "\<exists>es t. tail_run ex_parse_env ex_file [(1, ex_disk (''a'' @ LF @ ''b'' @ LF)), (2, ex_disk (''a'' @ LF @ ''b'' @ LF @ ''c'' @ LF))]
       (tail_open ex_file (ex_disk (''a'' @ LF)) new_tailer) = Some (es, t) \<and>
     concat (map evRaw es) = ''b'' @ LF @ ''c'' @ LF"
  using tailer_exactly_once [of "ex_disk (''a'' @ LF)" 1 ex_file
      "[(1, ex_disk (''a'' @ LF @ ''b'' @ LF)), (2, ex_disk (''a'' @ LF @ ''b'' @ LF @ ''c'' @ LF))]" ex_parse_env]
  by (auto simp: ex_disk_def ex_file_def LF_def whole_def prefix_def)

text \<open>Outside that discipline the tailer does lose input. A line that is complete only at the next poll is
  emitted without its first part; lines written to a rotated file before the poll that notices it are
  skipped, because reopening seeks to the end; and a rotated file that cannot be opened leaves the reader
  nil, which the next read dereferences.\<close>

lemma partial_line_is_cut:
  "map_option (map evRaw \<circ> fst) (tail_run env ex_file [(1, ex_disk ''ab''), (2, ex_disk (''abcd'' @ LF))] (tail_open ex_file (ex_disk []) new_tailer))
     = Some [''cd'' @ LF]"
  by (simp add: tail_tick_def tail_read_def tail_open_def new_tailer_def ex_disk_def ex_file_def LF_def ParseLine_raw)

lemma rotated_lines_are_skipped:
  assumes "dkStat d = Some j" and "dkOpen d" and "dkFstat d" and "\<not> fsFromStart f" and "tlFile t \<noteq> None" and "j \<noteq> tlInode t"
  shows "\<exists>t'. tail_tick env f now d t = Some ([], t') \<and> tlFile t' = Some (j, length (dkData d j))"
  using assms by (simp add: tail_tick_def tail_read_def tail_open_def)

lemma unreadable_rotation_panics:
  assumes "dkStat d = Some j" and "\<not> dkOpen d" and "tlFile t \<noteq> None" and "j \<noteq> tlInode t"
  shows "tail_tick env f now d t = None"
  using assms by (simp add: tail_tick_def tail_read_def tail_open_def)

subsection \<open>The engine runs one instance per source and counts every event\<close>

datatype iop = IStart | IDone | IAdd string | IRemove string | IEmit nat Event

fun ingest_step :: "iop \<Rightarrow> ingestEngine \<Rightarrow> Event list \<times> ingestEngine" where
  "ingest_step IStart g = ([], Ingest_Start g)"
| "ingest_step IDone g = ([], Ingest_done g)"
| "ingest_step (IAdd sid) g = ([], Ingest_Add sid g)"
| "ingest_step (IRemove sid) g = ([], Ingest_Remove sid g)"
| "ingest_step (IEmit n ev) g = (let (ev, g) = Ingest_emit n ev g in ([ev], g))"

fun ingest_run :: "iop list \<Rightarrow> ingestEngine \<Rightarrow> Event list \<times> ingestEngine" where
  "ingest_run [] g = ([], g)"
| "ingest_run (x # xs) g = (let (es, g) = ingest_step x g; (es', g) = ingest_run xs g in (es @ es', g))"

definition live :: "ingestEngine \<Rightarrow> nat \<Rightarrow> bool" where
  "live g n \<longleftrightarrow> n < length (inIDs g) \<and> n \<notin> inCancelled g"

definition ingest_inv :: "ingestEngine \<Rightarrow> bool" where
  "ingest_inv g \<longleftrightarrow> wf_map (inRunning g) \<and>
     (\<forall>sid n. map_of (inRunning g) sid = Some n \<longrightarrow> n < length (inIDs g) \<and> inIDs g ! n = sid) \<and>
     (\<forall>n. live g n \<longrightarrow> map_of (inRunning g) (inIDs g ! n) = Some n)"

lemma ingest_inv_new: "ingest_inv NewIngestEngine"
  by (simp add: ingest_inv_def NewIngestEngine_def live_def)

lemma ingest_inv_Add:
  assumes "ingest_inv g"
  shows "ingest_inv (Ingest_Add sid g)"
proof -
  define g' where "g' = Ingest_Add sid g"
  let ?n = "length (inIDs g)"
  have ids: "inIDs g' = inIDs g @ [sid]" and run: "inRunning g' = map_put sid ?n (inRunning g)"
    and old: "\<And>m. map_of (inRunning g) sid = Some m \<Longrightarrow> m \<in> inCancelled g'" and more: "inCancelled g \<subseteq> inCancelled g'"
    by (auto simp: g'_def Ingest_Add_def Let_def split: option.split)
  note inv = assms [unfolded ingest_inv_def]
  have "map_of (inRunning g') (inIDs g' ! m) = Some m" if "live g' m" for m
  proof (cases "m = ?n")
    case False
    with that ids more have "live g m" "inIDs g' ! m = inIDs g ! m" by (auto simp: live_def nth_append)
    with inv have "map_of (inRunning g) (inIDs g' ! m) = Some m" by simp
    moreover have "inIDs g' ! m \<noteq> sid" using old calculation that by (auto simp: live_def)
    ultimately show ?thesis by (simp add: run gomap_simps)
  qed (simp add: ids run gomap_simps)
  moreover have "m < length (inIDs g') \<and> inIDs g' ! m = k" if "map_of (inRunning g') k = Some m" for k m
    using that inv by (cases "k = sid") (auto simp: ids run gomap_simps nth_append less_Suc_eq)
  ultimately show ?thesis using inv by (auto simp: ingest_inv_def g'_def [symmetric] run)
qed

lemma ingest_inv_Remove: "ingest_inv g \<Longrightarrow> ingest_inv (Ingest_Remove sid g)"
  by (auto simp: ingest_inv_def Ingest_Remove_def live_def gomap_simps split: option.splits)

lemma ingest_inv_done: "ingest_inv g \<Longrightarrow> ingest_inv (Ingest_done g)"
proof -
  assume i: "ingest_inv g"
  then have "n \<in> snd ` set (inRunning g)" if "live g n" for n
    using that by (force simp: ingest_inv_def dest: map_of_SomeD)
  then show ?thesis using i by (auto simp: ingest_inv_def Ingest_done_def live_def)
qed

lemma ingest_inv_step: "ingest_inv g \<Longrightarrow> ingest_step x g = (es, g') \<Longrightarrow> ingest_inv g'"
  by (cases x) (auto simp: ingest_inv_Add ingest_inv_Remove ingest_inv_done Ingest_Start_def Ingest_emit_def Let_def,
      auto simp: ingest_inv_def live_def)

lemma ingest_inv_run: "ingest_inv g \<Longrightarrow> ingest_run xs g = (es, g') \<Longrightarrow> ingest_inv g'"
  by (induction xs arbitrary: g es) (auto split: prod.splits dest: ingest_inv_step)

definition tot_of :: "string \<Rightarrow> Event list \<Rightarrow> nat" where
  "tot_of sid es = length (filter (\<lambda>e. evSourceID e = sid) es)"

definition hit_of :: "string \<Rightarrow> Event list \<Rightarrow> nat" where
  "hit_of sid es = length (filter (\<lambda>e. evSourceID e = sid \<and> evParsed e) es)"

lemma ingest_counts_step:
  assumes "ingest_step x g = (es, g')"
  shows "parseTot (inState g') sid = parseTot (inState g) sid + int (tot_of sid es) \<and>
    parseHit (inState g') sid = parseHit (inState g) sid + int (hit_of sid es)"
  using assms
  by (cases x) (auto simp: Ingest_Start_def Ingest_done_def Ingest_Add_def Ingest_Remove_def Ingest_emit_def Let_def es_record_def
      tot_of_def hit_of_def split: option.splits)

lemma ingest_counts:
  "ingest_run xs g = (es, g') \<Longrightarrow> parseTot (inState g') sid = parseTot (inState g) sid + int (tot_of sid es) \<and>
    parseHit (inState g') sid = parseHit (inState g) sid + int (hit_of sid es)"
proof (induction xs arbitrary: g es)
  case (Cons x xs)
  obtain e1 g1 where 1: "ingest_step x g = (e1, g1)" by fastforce
  obtain e2 g2 where 2: "ingest_run xs g1 = (e2, g2)" by fastforce
  have "es = e1 @ e2" "g2 = g'" using Cons.prems 1 2 by simp_all
  then show ?case using ingest_counts_step [OF 1, of sid] Cons.IH [OF 2 [unfolded \<open>g2 = g'\<close>]] by (simp add: tot_of_def hit_of_def)
qed (simp add: tot_of_def hit_of_def)

text \<open>C18. Reconfiguring the sources while they run keeps the books straight: after any sequence of additions,
  replacements, removals, deliveries and shutdown, at most one instance of every source is live, and only
  if the source is registered; removing a source leaves none; and the reported parse rate of a source is
  the number of its delivered events that parsed over the number delivered, 1 when there were none.\<close>

theorem ingest_engine_sound:
  assumes "ingest_run xs NewIngestEngine = (es, g)"
  shows "(\<forall>m n. live g m \<and> live g n \<and> inIDs g ! m = inIDs g ! n \<longrightarrow> m = n) \<and>
    (\<forall>n. live g n \<longrightarrow> map_of (inRunning g) (inIDs g ! n) = Some n) \<and>
    (\<forall>n. live (Ingest_Remove sid g) n \<longrightarrow> inIDs g ! n \<noteq> sid) \<and>
    Ingest_ParseRate g sid =
      (if tot_of sid es = 0 then Fin 1 else f64_div (f64_of_int (int (hit_of sid es))) (f64_of_int (int (tot_of sid es))))"
proof -
  have i: "ingest_inv g" using ingest_inv_run [OF ingest_inv_new assms] .
  have r: "ingest_inv (Ingest_Remove sid g)" by (rule ingest_inv_Remove [OF i])
  have "inIDs g ! n \<noteq> sid" if "live (Ingest_Remove sid g) n" for n
  proof -
    have "inIDs (Ingest_Remove sid g) = inIDs g" by (simp add: Ingest_Remove_def split: option.splits)
    moreover have "map_of (inRunning (Ingest_Remove sid g)) sid = None" by (simp add: Ingest_Remove_def gomap_simps split: option.splits)
    ultimately show ?thesis using r that by (metis ingest_inv_def option.distinct(1))
  qed
  moreover have "m = n" if "live g m" "live g n" "inIDs g ! m = inIDs g ! n" for m n
    using i that by (metis ingest_inv_def option.inject)
  ultimately show ?thesis
    using i ingest_counts [OF assms, of sid]
    by (simp add: ingest_inv_def Ingest_ParseRate_def es_ParseRate_def NewIngestEngine_def newEngineState_def)
qed

theorem ingest_engine_sound_witness:
  "\<not> live (snd (ingest_run [IStart, IAdd ''a'', IAdd ''a''] NewIngestEngine)) 0 \<and> live (snd (ingest_run [IStart, IAdd ''a'', IAdd ''a''] NewIngestEngine)) 1"
proof -
  let ?g = "snd (ingest_run [IStart, IAdd ''a'', IAdd ''a''] NewIngestEngine)"
  have r: "inIDs ?g = [''a'', ''a'']" "inRunning ?g = [(''a'', 1)]" "1 \<notin> inCancelled ?g"
    by (simp_all add: Ingest_Start_def Ingest_Add_def NewIngestEngine_def Let_def)
  then have 1: "live ?g 1" by (simp add: live_def)
  with ingest_engine_sound [of "[IStart, IAdd ''a'', IAdd ''a'']", OF surjective_pairing] r(1) show ?thesis by fastforce
qed

subsection \<open>Building sources\<close>

lemma BuildSourceWith_validates: "validateSource quoted (scType s) (scParams s) = Some err \<Longrightarrow> BuildSourceWith quoted s = Inl err"
  by (simp add: BuildSourceWith_def)

lemma validateSource_types:
  "validateSource quoted ty ps = None \<Longrightarrow> ty \<in> {''syslog'', ''windows'', ''file'', ''docker'', ''journald'', ''netflow''}"
  by (auto simp: validateSource_def split: if_split_asm)

text \<open>A configuration that passes validation always builds, and the source runs under its name and type.\<close>

lemma BuildSourceWith_identity:
  assumes "validateSource quoted (scType s) (scParams s) = None"
  shows "\<exists>src. BuildSourceWith quoted s = Inr src \<and> source_ID src = scName s \<and> source_Type src = scType s"
  using validateSource_types [OF assms] assms
  by (elim insertE emptyE)
    (simp_all add: BuildSourceWith_def Let_def NewJournaldSource_def NewDockerSource_def SyslogSource_Type_def FileSource_Type_def source_consts)

end
