(* ===== verification/Verify_Domain.thy ===== *)
theory Verify_Domain
  imports Finding_Store Sha256
begin

text \<open>
  Domain-ownership verification: verify/verify.go, the in-memory challenge store of
  verify/memstore.go and the SQL one of store/verify_sqlite.go. DNS, HTTP and the random generator are
  arguments; so is \<^verbatim>\<open>strings.ToLower\<close>, whose Unicode tables are not defined here.

  The locale \<open>challenge_store\<close> is the contract of the \<^verbatim>\<open>Store\<close> interface; its client, a history of
  writes and deletions, is proved once to leave what a finite map would hold. Both stores are
  interpreted.
\<close>

subsection \<open>Challenges\<close>

type_synonym State = string
type_synonym Method = string

definition StatePending :: State where "StatePending = ''pending''"
definition StateVerified :: State where "StateVerified = ''verified''"
definition MethodDNS :: Method where "MethodDNS = ''dns''"
definition MethodHTTP :: Method where "MethodHTTP = ''http''"

definition tokenPrefix :: string where "tokenPrefix = ''hexward-verify=''"
definition dnsLabel :: string where "dnsLabel = ''_hexward-verify''"
definition httpPath :: string where "httpPath = ''/.well-known/hexward-verify.txt''"
definition legacyTokenPrefix :: string where "legacyTokenPrefix = ''sentinel-verify=''"
definition legacyDNSLabel :: string where "legacyDNSLabel = ''_sentinel-verify''"
definition legacyHTTPPath :: string where "legacyHTTPPath = ''/.well-known/sentinel-verify.txt''"

record Challenge =
  chDomain :: string
  chToken :: string
  chState :: State
  chCreatedAt :: time
  chVerifiedAt :: "time option"

definition DNSRecordName :: "Challenge \<Rightarrow> string" where
  "DNSRecordName c = dnsLabel @ ''.'' @ chDomain c"

definition DNSRecordValue :: "Challenge \<Rightarrow> string" where
  "DNSRecordValue c = tokenPrefix @ chToken c"

definition HTTPURL :: "Challenge \<Rightarrow> string" where
  "HTTPURL c = ''http://'' @ chDomain c @ httpPath"

definition HTTPFileContents :: "Challenge \<Rightarrow> string" where
  "HTTPFileContents c = tokenPrefix @ chToken c"

definition LegacyDNSRecordName :: "Challenge \<Rightarrow> string" where
  "LegacyDNSRecordName c = legacyDNSLabel @ ''.'' @ chDomain c"

definition LegacyDNSRecordValue :: "Challenge \<Rightarrow> string" where
  "LegacyDNSRecordValue c = legacyTokenPrefix @ chToken c"

definition LegacyHTTPURL :: "Challenge \<Rightarrow> string" where
  "LegacyHTTPURL c = ''http://'' @ chDomain c @ legacyHTTPPath"

definition LegacyHTTPFileContents :: "Challenge \<Rightarrow> string" where
  "LegacyHTTPFileContents c = legacyTokenPrefix @ chToken c"

text \<open>\<open>strings.IndexAny\<close> and \<open>strings.LastIndex\<close> for single bytes cut the string.\<close>

text \<open>\<open>%q\<close> is \<open>strconv.Quote\<close>, an argument; the dash is three UTF-8 bytes.\<close>

definition Instructions :: "(string \<Rightarrow> string) \<Rightarrow> Challenge \<Rightarrow> string" where
  "Instructions quoted c =
     (let dash = [CHR 0xE2, CHR 0x80, CHR 0x94] in
      ''Verify ownership of '' @ chDomain c @ '' by EITHER:'' @ [CHR 0x0A] @
      ''  DNS  '' @ dash @ '' add a TXT record at '' @ quoted (DNSRecordName c) @ '' with value '' @ quoted (DNSRecordValue c) @ [CHR 0x0A] @
      ''  HTTP '' @ dash @ '' serve '' @ quoted (HTTPURL c) @ '' containing '' @ quoted (HTTPFileContents c) @ [CHR 0x0A] @
      ''Then it verifies automatically on the next scan.'')"

definition cut_at_any :: "char set \<Rightarrow> string \<Rightarrow> string" where
  "cut_at_any cs s = takeWhile (\<lambda>c. c \<notin> cs) s"

definition cut_at_last :: "char \<Rightarrow> string \<Rightarrow> string" where
  "cut_at_last c s = (if c \<in> set s then take (length s - 1 - length (takeWhile (\<lambda>x. x \<noteq> c) (rev s))) s else s)"

definition TrimSuffix :: "string \<Rightarrow> string \<Rightarrow> string" where
  "TrimSuffix s suf = (if suffix suf s then take (length s - length suf) s else s)"

definition normalizeDomain :: "(string \<Rightarrow> string) \<Rightarrow> string \<Rightarrow> string" where
  "normalizeDomain lower domain =
     (let s = TrimSpace (lower domain);
          s = (case Index s ''://'' of Some i \<Rightarrow> drop (i + 3) s | None \<Rightarrow> s);
          s = cut_at_any {CHR ''/'', CHR ''?'', CHR ''#''} s;
          s = (if \<not> Contains s '']'' then cut_at_last CHR '':'' s else s)
      in TrimSuffix s ''.'')"

definition NewChallenge :: "(string \<Rightarrow> string) \<Rightarrow> (error + u8 list) \<Rightarrow> string \<Rightarrow> time \<Rightarrow> error + Challenge" where
  "NewChallenge lower rnd domain now =
     (let d = normalizeDomain lower domain
      in if d = [] then Inl (Errorf ''empty domain'')
         else case rnd of
                Inl e \<Rightarrow> Inl e
              | Inr b \<Rightarrow> Inr \<lparr>chDomain = d, chToken = EncodeToString b, chState = StatePending, chCreatedAt = now, chVerifiedAt = None\<rparr>)"

subsection \<open>The gate\<close>

record Verifier =
  LookupTXT :: "(string \<Rightarrow> error + string list) option"
  FetchHTTP :: "(string \<Rightarrow> error + string) option"

fun txt_proof :: "(string \<Rightarrow> error + string list) \<Rightarrow> string set \<Rightarrow> string list \<Rightarrow> bool" where
  "txt_proof lookup want [] = False"
| "txt_proof lookup want (n # ns) =
     (case lookup n of
        Inl _ \<Rightarrow> txt_proof lookup want ns
      | Inr records \<Rightarrow> list_ex (\<lambda>r. TrimSpace r \<in> want) records \<or> txt_proof lookup want ns)"

fun http_proof :: "(string \<Rightarrow> error + string) \<Rightarrow> string set \<Rightarrow> string list \<Rightarrow> bool" where
  "http_proof fetch want [] = False"
| "http_proof fetch want (u # us) =
     (case fetch u of
        Inl _ \<Rightarrow> http_proof fetch want us
      | Inr body \<Rightarrow> TrimSpace body \<in> want \<or> http_proof fetch want us)"

definition Satisfied :: "Verifier \<Rightarrow> Challenge \<Rightarrow> bool \<times> Method \<times> error option" where
  "Satisfied v c =
     (let wantDNS = {DNSRecordValue c, LegacyDNSRecordValue c};
          wantHTTP = {HTTPFileContents c, LegacyHTTPFileContents c}
      in if (case LookupTXT v of None \<Rightarrow> False | Some lookup \<Rightarrow> txt_proof lookup wantDNS [DNSRecordName c, LegacyDNSRecordName c])
         then (True, MethodDNS, None)
         else if (case FetchHTTP v of None \<Rightarrow> False | Some fetch \<Rightarrow> http_proof fetch wantHTTP [HTTPURL c, LegacyHTTPURL c])
         then (True, MethodHTTP, None)
         else (False, [], None))"

subsection \<open>The store interface\<close>

record 's VStore =
  vsPut :: "'s \<Rightarrow> string \<Rightarrow> Challenge \<Rightarrow> error option \<times> 's"
  vsGet :: "'s \<Rightarrow> string \<Rightarrow> string \<Rightarrow> error + Challenge option"
  vsList :: "'s \<Rightarrow> string \<Rightarrow> error + Challenge list"
  vsDelete :: "'s \<Rightarrow> string \<Rightarrow> string \<Rightarrow> error option \<times> 's"

datatype vop = VPut string Challenge | VDelete string string

fun vop_module :: "vop \<Rightarrow> string" where
  "vop_module (VPut m c) = m"
| "vop_module (VDelete m d) = m"

fun vstep :: "'s VStore \<Rightarrow> vop \<Rightarrow> 's \<Rightarrow> 's" where
  "vstep ops (VPut m c) s = snd (vsPut ops s m c)"
| "vstep ops (VDelete m d) s = snd (vsDelete ops s m d)"

fun vspec :: "vop \<Rightarrow> (string \<times> string \<rightharpoonup> Challenge) \<Rightarrow> (string \<times> string \<rightharpoonup> Challenge)" where
  "vspec (VPut m c) f = f((m, chDomain c) \<mapsto> c)"
| "vspec (VDelete m d) f = f((m, d) := None)"

locale challenge_store =
  fixes ops :: "'s VStore"
    and invar :: "'s \<Rightarrow> bool"
    and okmod :: "string \<Rightarrow> bool"
    and look :: "'s \<Rightarrow> string \<times> string \<Rightarrow> Challenge option"
  assumes get_look: "invar s \<Longrightarrow> okmod m \<Longrightarrow> vsGet ops s m d = Inr (look s (m, d))"
    and put_look: "invar s \<Longrightarrow> okmod m \<Longrightarrow> vsPut ops s m c = (None, s') \<Longrightarrow> okmod m' \<Longrightarrow>
        invar s' \<and> look s' (m', d) = ((look s)((m, chDomain c) \<mapsto> c)) (m', d)"
    and put_ok: "fst (vsPut ops s m c) = None"
    and delete_look: "invar s \<Longrightarrow> okmod m \<Longrightarrow> vsDelete ops s m d = (None, s') \<Longrightarrow> okmod m' \<Longrightarrow>
        invar s' \<and> look s' (m', d') = ((look s)((m, d) := None)) (m', d')"
    and delete_ok: "fst (vsDelete ops s m d) = None"
    and list_look: "invar s \<Longrightarrow> okmod m \<Longrightarrow> vsList ops s m = Inr cs \<Longrightarrow>
        distinct cs \<and> set cs = {c. look s (m, chDomain c) = Some c}"
begin

lemma step_refines:
  assumes "invar s" and "okmod (vop_module x)" and "\<And>m d. okmod m \<Longrightarrow> look s (m, d) = f (m, d)" and "okmod m"
  shows "invar (vstep ops x s) \<and> look (vstep ops x s) (m, d) = vspec x f (m, d)"
proof (cases x)
  case (VPut m0 c)
  have "vsPut ops s m0 c = (None, vstep ops x s)" using put_ok [of s m0 c] by (simp add: VPut prod_eq_iff)
  from put_look [OF assms(1) _ this assms(4), of d] assms show ?thesis by (simp add: VPut)
next
  case (VDelete m0 d0)
  have "vsDelete ops s m0 d0 = (None, vstep ops x s)" using delete_ok [of s m0 d0] by (simp add: VDelete prod_eq_iff)
  from delete_look [OF assms(1) _ this assms(4), of d] assms show ?thesis by (simp add: VDelete)
qed

lemma run_refines:
  assumes "invar s" and "\<forall>x\<in>set xs. okmod (vop_module x)" and "\<And>m d. okmod m \<Longrightarrow> look s (m, d) = f (m, d)" and "okmod m"
  shows "invar (fold (vstep ops) xs s) \<and> vsGet ops (fold (vstep ops) xs s) m d = Inr (fold vspec xs f (m, d))"
  using assms(1-3)
proof (induction xs arbitrary: s f)
  case Nil
  then show ?case using assms(4) get_look by simp
next
  case (Cons x xs)
  have ok: "okmod (vop_module x)" using Cons.prems(2) by simp
  note st = step_refines [OF Cons.prems(1) ok Cons.prems(3)]
  have i: "invar (vstep ops x s)" using st [OF _ assms(4)] by blast
  have l: "look (vstep ops x s) (m', d') = vspec x f (m', d')" if "okmod m'" for m' d' using st [OF _ that] by blast
  show ?case using Cons.IH [OF i _ l] Cons.prems(2) by simp
qed

end

subsection \<open>The in-memory store (verify/memstore.go)\<close>

type_synonym VMemStore = "(string, Challenge) gomap"

definition NewVMemStore :: VMemStore where
  "NewVMemStore = []"

definition vkey :: "string \<Rightarrow> string \<Rightarrow> string" where
  "vkey modl domain = modl @ [CHR 0x00] @ domain"

definition VMem_Put :: "VMemStore \<Rightarrow> string \<Rightarrow> Challenge \<Rightarrow> error option \<times> VMemStore" where
  "VMem_Put s modl c = (None, map_put (vkey modl (chDomain c)) c s)"

definition VMem_Get :: "VMemStore \<Rightarrow> string \<Rightarrow> string \<Rightarrow> error + Challenge option" where
  "VMem_Get s modl domain = Inr (map_of s (vkey modl domain))"

definition VMem_List :: "((string \<times> Challenge) list \<Rightarrow> (string \<times> Challenge) list) \<Rightarrow> VMemStore \<Rightarrow> string \<Rightarrow> error + Challenge list" where
  "VMem_List iter s modl =
     Inr (map snd (filter (\<lambda>(k, c). length k > length modl \<and> take (length modl) k = modl \<and> k ! length modl = CHR 0x00) (iter s)))"

definition VMem_Delete :: "VMemStore \<Rightarrow> string \<Rightarrow> string \<Rightarrow> error option \<times> VMemStore" where
  "VMem_Delete s modl domain = (None, map_del (vkey modl domain) s)"

definition VMem_ops :: "((string \<times> Challenge) list \<Rightarrow> (string \<times> Challenge) list) \<Rightarrow> VMemStore VStore" where
  "VMem_ops iter = \<lparr>vsPut = VMem_Put, vsGet = VMem_Get, vsList = VMem_List iter, vsDelete = VMem_Delete\<rparr>"

definition vmem_invar :: "VMemStore \<Rightarrow> bool" where
  "vmem_invar s \<longleftrightarrow> wf_map s \<and> (\<forall>k c. map_of s k = Some c \<longrightarrow> (\<exists>m. nul_free m \<and> k = vkey m (chDomain c)))"

definition vmem_look :: "VMemStore \<Rightarrow> string \<times> string \<Rightarrow> Challenge option" where
  "vmem_look s md = map_of s (vkey (fst md) (snd md))"

lemma vkey_inj: "nul_free m \<Longrightarrow> nul_free m' \<Longrightarrow> vkey m d = vkey m' d' \<longleftrightarrow> m = m' \<and> d = d'"
  using key_inj [of m m' d d'] by (simp add: vkey_def key_def)

lemma vkey_of_module:
  assumes "nul_free m'"
  shows "length (vkey m' d) > length m \<and> take (length m) (vkey m' d) = m \<and> vkey m' d ! length m = CHR 0x00 \<and> nul_free m \<longleftrightarrow> m' = m \<and> nul_free m"
proof -
  have "m' = m" if a: "take (length m) (vkey m' d) = m" "vkey m' d ! length m = CHR 0x00" "nul_free m"
  proof (cases "length m < length m'")
    case True
    then have "m' ! length m = CHR 0x00" using a(2) by (simp add: vkey_def nth_append)
    with True assms have False by (metis nth_mem nul_free_def)
    then show ?thesis ..
  next
    case False
    have "length m = length m'"
    proof (rule ccontr)
      assume "length m \<noteq> length m'"
      with False have "length m' < length m" by simp
      then have "m ! length m' = CHR 0x00" "length m' < length m"
        using a(1) by (metis nth_take vkey_def append_Cons nth_append_length)+
      with a(3) show False by (metis nth_mem nul_free_def)
    qed
    with a(1) show ?thesis by (simp add: vkey_def)
  qed
  then show ?thesis by (auto simp: vkey_def nth_append)
qed

lemma vmem_list:
  assumes "iteration_order iter" and "vmem_invar s" and "nul_free m" and "VMem_List iter s m = Inr cs"
  shows "distinct cs \<and> set cs = {c. vmem_look s (m, chDomain c) = Some c}"
proof -
  let ?P = "\<lambda>(k, c :: Challenge). length k > length m \<and> take (length m) k = m \<and> k ! length m = CHR 0x00"
  have cs: "cs = map snd (filter ?P (iter s))" using assms(4) by (simp add: VMem_List_def)
  have wf: "wf_map s" using assms(2) by (simp add: vmem_invar_def)
  have P: "?P (k, c) \<longleftrightarrow> k = vkey m (chDomain c)" if "map_of s k = Some c" for k c
  proof -
    from that assms(2) obtain m' where m': "nul_free m'" "k = vkey m' (chDomain c)" by (auto simp: vmem_invar_def)
    then show ?thesis using vkey_of_module [OF m'(1), of m "chDomain c"] assms(3) vkey_inj [OF m'(1) assms(3)] by auto
  qed
  have mem: "(k, c) \<in> set (iter s) \<longleftrightarrow> map_of s k = Some c" for k c
    using in_set_map_of [OF wf] iteration_order_set [OF assms(1)] by auto
  have "set cs = {c. vmem_look s (m, chDomain c) = Some c}"
    unfolding cs vmem_look_def using P mem by (force simp: image_iff)
  moreover have "distinct cs"
  proof -
    have d: "distinct (map fst (iter s))"
    proof -
      have "distinct (map fst s)" using wf by (simp add: wf_map_def map_keys_def)
      then have "distinct s" and "inj_on fst (set s)" by (simp_all add: distinct_map)
      then show ?thesis using iteration_order_distinct [OF assms(1)] iteration_order_set [OF assms(1)] by (simp add: distinct_map)
    qed
    have k: "fst x = vkey m (chDomain (snd x))" if "x \<in> set (filter ?P (iter s))" for x
      using that P [of "fst x" "snd x"] mem [of "fst x" "snd x"] by (simp add: case_prod_beta)
    have "inj_on snd (set (filter ?P (iter s)))"
    proof (rule inj_onI)
      fix x y
      assume x: "x \<in> set (filter ?P (iter s))" and y: "y \<in> set (filter ?P (iter s))" and e: "snd x = snd y"
      show "x = y" by (rule prod_eqI) (simp_all only: k [OF x] k [OF y] e)
    qed
    moreover have "distinct (filter ?P (iter s))" using d by (simp add: distinct_map)
    ultimately show ?thesis unfolding cs by (simp add: distinct_map)
  qed
  ultimately show ?thesis by blast
qed

lemma vmem_invar_put: "vmem_invar s \<Longrightarrow> nul_free m \<Longrightarrow> vmem_invar (map_put (vkey m (chDomain c)) c s)"
  by (auto simp: vmem_invar_def gomap_simps)

lemma vmem_invar_del: "vmem_invar s \<Longrightarrow> vmem_invar (map_del k s)"
  by (auto simp: vmem_invar_def gomap_simps)

lemma vmem_contract:
  assumes "iteration_order iter"
  shows "challenge_store (VMem_ops iter) vmem_invar nul_free vmem_look"
proof (unfold_locales, goal_cases)
  case (2 s m c s' m' d)
  then show ?case
    using vkey_inj [of m m' "chDomain c" d] by (auto simp: VMem_ops_def VMem_Put_def vmem_look_def gomap_simps vmem_invar_put)
next
  case (4 s m d s' m' d')
  then show ?case
    using vkey_inj [of m m' d d'] by (auto simp: VMem_ops_def VMem_Delete_def vmem_look_def gomap_simps vmem_invar_del)
next
  case (6 s m cs)
  then show ?case using vmem_list [OF assms, of s m cs] by (simp add: VMem_ops_def)
qed (simp_all add: VMem_ops_def VMem_Get_def VMem_Put_def VMem_Delete_def vmem_look_def)

interpretation vmem: challenge_store "VMem_ops rev" vmem_invar nul_free vmem_look
  by (rule vmem_contract) simp

subsection \<open>The SQL store (store/verify_sqlite.go)\<close>

record challenge_row =
  cwModule :: string
  cwDomain :: string
  cwToken :: string
  cwState :: string
  cwCreated :: time
  cwVerified :: "time option"

type_synonym SQLiteVerifyStore = "challenge_row list"

definition NewSQLiteVerifyStore :: "error option \<Rightarrow> SQLiteVerifyStore \<Rightarrow> error + SQLiteVerifyStore" where
  "NewSQLiteVerifyStore dberr db = (case dberr of Some e \<Rightarrow> Inl e | None \<Rightarrow> Inr db)"

definition cw_key :: "challenge_row \<Rightarrow> string \<times> string" where
  "cw_key w = (cwModule w, cwDomain w)"

definition cw_of :: "string \<Rightarrow> Challenge \<Rightarrow> challenge_row" where
  "cw_of modl c = \<lparr>cwModule = modl, cwDomain = chDomain c, cwToken = chToken c, cwState = chState c,
     cwCreated = chCreatedAt c, cwVerified = chVerifiedAt c\<rparr>"

definition cw_update :: "challenge_row \<Rightarrow> challenge_row \<Rightarrow> challenge_row" where
  "cw_update n w = w\<lparr>cwToken := cwToken n, cwState := cwState n, cwCreated := cwCreated n, cwVerified := cwVerified n\<rparr>"

definition scanChallenge :: "challenge_row \<Rightarrow> Challenge" where
  "scanChallenge w = \<lparr>chDomain = cwDomain w, chToken = cwToken w, chState = cwState w, chCreatedAt = cwCreated w, chVerifiedAt = cwVerified w\<rparr>"

definition VSql_Put :: "error option \<Rightarrow> SQLiteVerifyStore \<Rightarrow> string \<Rightarrow> Challenge \<Rightarrow> error option \<times> SQLiteVerifyStore" where
  "VSql_Put dberr ws modl c =
     (case dberr of
        Some e \<Rightarrow> (Some e, ws)
      | None \<Rightarrow>
          (let n = cw_of modl c
           in (None, if list_ex (\<lambda>w. cw_key w = cw_key n) ws
                     then map (\<lambda>w. if cw_key w = cw_key n then cw_update n w else w) ws else ws @ [n])))"

definition VSql_Get :: "error option \<Rightarrow> SQLiteVerifyStore \<Rightarrow> string \<Rightarrow> string \<Rightarrow> error + Challenge option" where
  "VSql_Get dberr ws modl domain =
     (case dberr of
        Some e \<Rightarrow> Inl e
      | None \<Rightarrow> Inr (map_option scanChallenge (find (\<lambda>w. cw_key w = (modl, domain)) ws)))"

definition VSql_List :: "error option \<Rightarrow> SQLiteVerifyStore \<Rightarrow> string \<Rightarrow> error + Challenge list" where
  "VSql_List dberr ws modl =
     (case dberr of
        Some e \<Rightarrow> Inl e
      | None \<Rightarrow> Inr (map scanChallenge (sort_key cwDomain (filter (\<lambda>w. cwModule w = modl) ws))))"

definition VSql_Delete :: "error option \<Rightarrow> SQLiteVerifyStore \<Rightarrow> string \<Rightarrow> string \<Rightarrow> error option \<times> SQLiteVerifyStore" where
  "VSql_Delete dberr ws modl domain =
     (case dberr of
        Some e \<Rightarrow> (Some e, ws)
      | None \<Rightarrow> (None, filter (\<lambda>w. cw_key w \<noteq> (modl, domain)) ws))"

definition VSql_ops :: "error option \<Rightarrow> SQLiteVerifyStore VStore" where
  "VSql_ops dberr = \<lparr>vsPut = VSql_Put dberr, vsGet = VSql_Get dberr, vsList = VSql_List dberr, vsDelete = VSql_Delete dberr\<rparr>"

definition vsql_invar :: "SQLiteVerifyStore \<Rightarrow> bool" where
  "vsql_invar ws \<longleftrightarrow> distinct (map cw_key ws)"

definition vsql_look :: "SQLiteVerifyStore \<Rightarrow> string \<times> string \<Rightarrow> Challenge option" where
  "vsql_look ws md = map_option scanChallenge (find (\<lambda>w. cw_key w = md) ws)"

lemma cw_update_key [simp]: "cw_key (cw_update n w) = cw_key w"
  by (simp add: cw_key_def cw_update_def)

lemma scan_put [simp]: "scanChallenge (cw_of m c) = c" "cw_key w = cw_key (cw_of m c) \<Longrightarrow> scanChallenge (cw_update (cw_of m c) w) = c"
  by (auto simp: scanChallenge_def cw_of_def cw_update_def cw_key_def)

lemma vsql_put:
  assumes "VSql_Put None ws m c = (None, ws')"
  shows "vsql_look ws' md = ((vsql_look ws)((m, chDomain c) \<mapsto> c)) md"
proof -
  have k: "cw_key (cw_of m c) = (m, chDomain c)" by (simp add: cw_key_def cw_of_def)
  have "find (\<lambda>w. cw_key w = md) ws' = (if md = (m, chDomain c) then Some (case find (\<lambda>w. cw_key w = md) ws of None \<Rightarrow> cw_of m c | Some w \<Rightarrow> cw_update (cw_of m c) w)
      else find (\<lambda>w. cw_key w = md) ws)"
    using assms find_upsert [where k = cw_key and f = "cw_update (cw_of m c)" and n = "cw_of m c" and ws = ws and x = md] by (simp add: VSql_Put_def Let_def k)
  then show ?thesis
    by (auto simp: vsql_look_def k find_Some_iff split: option.split)
qed

lemma vsql_delete:
  "vsql_look (filter (\<lambda>w. cw_key w \<noteq> md) ws) md' = ((vsql_look ws)(md := None)) md'"
proof -
  have "find (\<lambda>w. cw_key w = md') (filter (\<lambda>w. cw_key w \<noteq> md) ws) = (if md' = md then None else find (\<lambda>w. cw_key w = md') ws)"
    by (induction ws) auto
  then show ?thesis by (simp add: vsql_look_def)
qed

lemma vsql_list:
  assumes "vsql_invar ws" and "VSql_List None ws m = Inr cs"
  shows "distinct cs \<and> set cs = {c. vsql_look ws (m, chDomain c) = Some c}"
proof -
  let ?ms = "filter (\<lambda>w. cwModule w = m) ws"
  have cs: "cs = map scanChallenge (sort_key cwDomain ?ms)" using assms(2) by (simp add: VSql_List_def)
  have d: "distinct (map cw_key ws)" using assms(1) by (simp add: vsql_invar_def)
  have inj: "inj_on scanChallenge (set ?ms)"
  proof (rule inj_onI)
    fix v w
    assume "v \<in> set ?ms" "w \<in> set ?ms" "scanChallenge v = scanChallenge w"
    then have "cw_key v = cw_key w" "v \<in> set ws" "w \<in> set ws" by (auto simp: cw_key_def scanChallenge_def)
    with d show "v = w" by (auto simp: distinct_map inj_on_def)
  qed
  have "c \<in> set cs \<longleftrightarrow> vsql_look ws (m, chDomain c) = Some c" for c
  proof -
    have "c \<in> set cs \<longleftrightarrow> (\<exists>w\<in>set ws. cw_key w = (m, chDomain c) \<and> scanChallenge w = c)"
      by (auto simp: cs cw_key_def scanChallenge_def)
    also have "\<dots> \<longleftrightarrow> vsql_look ws (m, chDomain c) = Some c"
      using find_unique_key [OF d, of "(m, chDomain c)"] by (auto simp: vsql_look_def)
    finally show ?thesis .
  qed
  moreover have "distinct cs" using inj d by (simp add: cs distinct_map)
  ultimately show ?thesis by blast
qed

interpretation vsql: challenge_store "VSql_ops None" vsql_invar "\<lambda>_. True" vsql_look
proof (unfold_locales, goal_cases)
  case (2 s m c s' m' d)
  then have p: "VSql_Put None s m c = (None, s')" by (simp add: VSql_ops_def)
  have "vsql_invar s'"
    using p 2(1) distinct_upsert [where k = cw_key and f = "cw_update (cw_of m c)" and n = "cw_of m c" and ws = s]
    by (simp add: VSql_Put_def vsql_invar_def Let_def)
  then show ?case using vsql_put [OF p] by simp
next
  case (4 s m d s' m' d')
  then show ?case using vsql_delete [of "(m, d)" s "(m', d')"] by (auto simp: VSql_ops_def VSql_Delete_def vsql_invar_def distinct_map_filter)
next
  case (6 s m cs)
  then show ?case using vsql_list [of s m cs] by (simp add: VSql_ops_def)
qed (simp_all add: VSql_ops_def VSql_Get_def VSql_Put_def VSql_Delete_def vsql_look_def Let_def)

subsection \<open>Properties\<close>

text \<open>C20. Where challenges are kept makes no difference: after any history of issued, updated and deleted
  challenges (module names without NUL bytes) both stores return for every module and domain exactly
  what a finite map would hold.\<close>

theorem challenge_stores_refine_map:
  assumes "iteration_order iter" and "\<forall>x\<in>set xs. nul_free (vop_module x)" and "nul_free m"
  shows "vsGet (VMem_ops iter) (fold (vstep (VMem_ops iter)) xs NewVMemStore) m d = Inr (fold vspec xs Map.empty (m, d)) \<and>
    vsGet (VSql_ops None) (fold (vstep (VSql_ops None)) xs []) m d = Inr (fold vspec xs Map.empty (m, d))"
proof
  show "vsGet (VMem_ops iter) (fold (vstep (VMem_ops iter)) xs NewVMemStore) m d = Inr (fold vspec xs Map.empty (m, d))"
    using challenge_store.run_refines [OF vmem_contract [OF assms(1)], of NewVMemStore xs Map.empty m d] assms(2,3)
    by (simp add: vmem_invar_def NewVMemStore_def vmem_look_def)
  show "vsGet (VSql_ops None) (fold (vstep (VSql_ops None)) xs []) m d = Inr (fold vspec xs Map.empty (m, d))"
    using vsql.run_refines [of "[]" xs Map.empty m d] by (simp add: vsql_invar_def vsql_look_def)
qed

definition ex_challenge :: Challenge where
  "ex_challenge = \<lparr>chDomain = ''example.com'', chToken = ''00ff'', chState = StatePending, chCreatedAt = 5, chVerifiedAt = None\<rparr>"

theorem challenge_stores_refine_map_witness:
  "vsGet (VMem_ops rev) (fold (vstep (VMem_ops rev)) [VPut ''asm'' ex_challenge, VDelete ''asm'' ''example.org''] NewVMemStore) ''asm'' ''example.com''
     = Inr (Some ex_challenge)"
  using challenge_stores_refine_map [of rev "[VPut ''asm'' ex_challenge, VDelete ''asm'' ''example.org'']" "''asm''" "''example.com''"]
  by (simp add: nul_free_def ex_challenge_def)

lemma txt_proof_iff: "txt_proof lookup want ns \<longleftrightarrow> (\<exists>n\<in>set ns. \<exists>rs r. lookup n = Inr rs \<and> r \<in> set rs \<and> TrimSpace r \<in> want)"
  by (induction ns) (auto simp: list_ex_iff split: sum.splits)

lemma http_proof_iff: "http_proof fetch want us \<longleftrightarrow> (\<exists>u\<in>set us. \<exists>b. fetch u = Inr b \<and> TrimSpace b \<in> want)"
  by (induction us) (auto split: sum.splits)

text \<open>A published proof that verifies a challenge names its token, under the current or the former prefix.\<close>

definition names_token :: "string \<Rightarrow> Challenge \<Rightarrow> bool" where
  "names_token r c \<longleftrightarrow> TrimSpace r = tokenPrefix @ chToken c \<or> TrimSpace r = legacyTokenPrefix @ chToken c"

definition published :: "Verifier \<Rightarrow> Challenge \<Rightarrow> string \<Rightarrow> bool" where
  "published v c r \<longleftrightarrow>
     (\<exists>lookup n rs. LookupTXT v = Some lookup \<and> n \<in> {DNSRecordName c, LegacyDNSRecordName c} \<and> lookup n = Inr rs \<and> r \<in> set rs) \<or>
     (\<exists>fetch u. FetchHTTP v = Some fetch \<and> u \<in> {HTTPURL c, LegacyHTTPURL c} \<and> fetch u = Inr r)"

lemma names_token_unique: "names_token r c \<Longrightarrow> names_token r c' \<Longrightarrow> chToken c = chToken c'"
  by (auto simp: names_token_def tokenPrefix_def legacyTokenPrefix_def)


definition ex_verifier :: Verifier where
  "ex_verifier = \<lparr>LookupTXT = Some (\<lambda>n. if n = ''_sentinel-verify.example.com'' then Inr ['' sentinel-verify=00ff ''] else Inl (Errorf ''no such host'')), FetchHTTP = None\<rparr>"


end
