(* ===== verification/Http_Api.thy ===== *)
theory Http_Api
  imports Core_Finding
begin

text \<open>
  What the two groups of HTTP handlers (web/server.go and loglight/console.go) share. A handler is a
  function from the decoded request and the state to a reply: the status code and the value that is
  encoded as the JSON body. Decoding and encoding of JSON belong to \<^verbatim>\<open>encoding/json\<close>: a request is
  the outcome of the decoder, a body the value given to the encoder.
\<close>

record 'b reply =
  rpCode :: nat
  rpBody :: 'b

definition answer :: "nat \<Rightarrow> 'b \<Rightarrow> 'b reply" where
  "answer code v = \<lparr>rpCode = code, rpBody = v\<rparr>"

lemma answer_simps [simp]: "rpCode (answer code v) = code" "rpBody (answer code v) = v"
  by (simp_all add: answer_def)

abbreviation "StatusOK \<equiv> 200"
abbreviation "StatusBadRequest \<equiv> 400"
abbreviation "StatusPaymentRequired \<equiv> 402"
abbreviation "StatusForbidden \<equiv> 403"
abbreviation "StatusNotFound \<equiv> 404"
abbreviation "StatusConflict \<equiv> 409"
abbreviation "StatusInternalServerError \<equiv> 500"

text \<open>\<open>err.Error()\<close>.\<close>

fun errString :: "error \<Rightarrow> string" where
  "errString (Errorf msg) = msg"
| "errString ContextCanceled = ''context canceled''"
| "errString DeadlineExceeded = ''context deadline exceeded''"
| "errString (IngestError f r) = IngestErrorString (IngestError f r)"

end
