(* ===== verification/Trim_Laws.thy ===== *)
theory Trim_Laws
  imports Go_Base "HOL-Library.Sublist"
begin

text \<open>
  Laws of \<open>strings.TrimSpace\<close>: trimming twice is trimming once, and a trimmed text survives the
  newline a file ends with. The license file, the console and the challenge files rely on them.
\<close>

lemma strip_seqs_stable: "find (HasPrefix s) ps = None \<Longrightarrow> strip_seqs ps n s = s"
  by (cases n) simp_all

lemma strip_seqs_suffix: "suffix (strip_seqs ps n s) s"
proof (induction ps n s rule: strip_seqs.induct)
  case (2 ps n s)
  show ?case
  proof (cases "find (HasPrefix s) ps")
    case (Some p)
    then show ?thesis using 2 [OF Some] by (auto intro: suffix_order.trans [OF _ suffix_drop])
  qed simp
qed simp

lemma strip_seqs_stops:
  "[] \<notin> set ps \<Longrightarrow> length s \<le> n \<Longrightarrow> find (HasPrefix (strip_seqs ps n s)) ps = None"
proof (induction ps n s rule: strip_seqs.induct)
  case (1 ps s)
  then show ?case by (auto simp: find_None_iff HasPrefix_def)
next
  case (2 ps n s)
  show ?case
  proof (cases "find (HasPrefix s) ps")
    case (Some p)
    then have "p \<in> set ps" by (auto simp: find_Some_iff)
    then have "p \<noteq> []" using 2(2) by auto
    then have "length (drop (length p) s) \<le> n" using 2(3) by (cases p) auto
    with 2(1) [OF Some 2(2)] Some show ?thesis by simp
  qed simp
qed

text \<open>Texts with no space in front, or at the end.\<close>

definition left_trimmed :: "string \<Rightarrow> bool" where
  "left_trimmed s \<longleftrightarrow> find (HasPrefix s) space_seqs = None"

definition right_trimmed :: "string \<Rightarrow> bool" where
  "right_trimmed s \<longleftrightarrow> find (HasPrefix (rev s)) (map rev space_seqs) = None"

lemma space_seqs_nonempty: "[] \<notin> set space_seqs" "[] \<notin> set (map rev space_seqs)"
  by (simp_all add: space_seqs_def)

lemma left_trimmed_Trim [simp]: "left_trimmed (TrimLeftSpace s)"
  unfolding left_trimmed_def TrimLeftSpace_def using space_seqs_nonempty(1) by (rule strip_seqs_stops) simp

lemma right_trimmed_Trim [simp]: "right_trimmed (TrimRightSpace s)"
  unfolding right_trimmed_def TrimRightSpace_def rev_rev_ident using space_seqs_nonempty(2) by (rule strip_seqs_stops) simp

lemma TrimLeft_id: "left_trimmed s \<Longrightarrow> TrimLeftSpace s = s"
  unfolding left_trimmed_def TrimLeftSpace_def by (rule strip_seqs_stable)

lemma TrimRight_id: "right_trimmed s \<Longrightarrow> TrimRightSpace s = s"
  unfolding right_trimmed_def TrimRightSpace_def by (simp add: strip_seqs_stable)

lemma TrimRight_prefix: "prefix (TrimRightSpace s) s"
  using strip_seqs_suffix [of "map rev space_seqs" "length s" "rev s"]
  by (simp add: TrimRightSpace_def suffix_to_prefix)

lemma left_trimmed_prefix: "left_trimmed s \<Longrightarrow> prefix t s \<Longrightarrow> left_trimmed t"
  by (auto simp: left_trimmed_def find_None_iff HasPrefix_prefix intro: prefix_order.trans)

lemma TrimSpace_trimmed [simp]: "left_trimmed (TrimSpace s)" "right_trimmed (TrimSpace s)"
  unfolding TrimSpace_def using left_trimmed_prefix [OF left_trimmed_Trim TrimRight_prefix] by simp_all

lemma TrimSpace_id: "left_trimmed s \<Longrightarrow> right_trimmed s \<Longrightarrow> TrimSpace s = s"
  by (simp add: TrimSpace_def TrimLeft_id TrimRight_id)

lemma TrimSpace_idem [simp]: "TrimSpace (TrimSpace s) = TrimSpace s"
  by (simp add: TrimSpace_id)

lemma TrimSpace_newline [simp]: "TrimSpace (TrimSpace s @ [CHR 0x0A]) = TrimSpace s"
proof (cases "TrimSpace s = []")
  case True
  then show ?thesis
    by (simp add: TrimSpace_def TrimLeftSpace_def TrimRightSpace_def space_seqs_def HasPrefix_def)
next
  case False
  let ?k = "TrimSpace s"
  have "\<not> prefix p (?k @ [CHR 0x0A])" if "p \<in> set space_seqs" for p
  proof
    assume "prefix p (?k @ [CHR 0x0A])"
    moreover have "\<not> prefix p ?k"
      using that TrimSpace_trimmed(1) [of s] by (auto simp: left_trimmed_def find_None_iff HasPrefix_prefix)
    ultimately have "p = ?k @ [CHR 0x0A]" by (simp add: prefix_snoc)
    then have "last p = CHR 0x0A" "length p > 1" using False by simp_all
    with that show False by (auto simp: space_seqs_def)
  qed
  then have "left_trimmed (?k @ [CHR 0x0A])" by (auto simp: left_trimmed_def find_None_iff HasPrefix_prefix)
  moreover have "TrimRightSpace (?k @ [CHR 0x0A]) = ?k"
  proof -
    have "find (HasPrefix (CHR 0x0A # rev ?k)) (map rev space_seqs) = Some [CHR 0x0A]"
      by (simp add: space_seqs_def HasPrefix_def)
    moreover have "strip_seqs (map rev space_seqs) (length ?k) (rev ?k) = rev ?k"
      using TrimSpace_trimmed(2) [of s] by (simp add: right_trimmed_def strip_seqs_stable)
    ultimately show ?thesis by (simp add: TrimRightSpace_def)
  qed
  ultimately show ?thesis by (simp add: TrimSpace_def [of "TrimSpace s @ [CHR 0x0A]"] TrimLeft_id)
qed

lemma TrimSpace_only_newline [simp]: "TrimSpace [CHR 0x0A] = []"
  using TrimSpace_newline [of "[]"] by simp

end
