(* ===== verification/Console.thy ===== *)
theory Console
  imports Http_Api Trim_Laws Ingest Loglight Channels Traffic
begin

text \<open>
  loglight/console.go: the source console. \<open>Console\<close> holds the detection store and the callbacks the
  program wires in; the callbacks act on a state of their own (\<open>'w\<close>: the scheduler, the ingest
  engine, the saved targets), the store on \<open>'l\<close>. The locale \<open>source_store\<close> is what the console
  relies on of a store; it is interpreted on both stores of the program.
\<close>

subsection \<open>The handlers\<close>

record ('l, 'w) Console =
  cnStore :: "'l LStore"
  cnCaps :: "('w \<Rightarrow> int) option"
  cnOnSaved :: "(SourceConfig \<Rightarrow> 'w \<Rightarrow> error option \<times> 'w) option"
  cnOnDelete :: "(string \<Rightarrow> 'w \<Rightarrow> 'w) option"
  cnParseRate :: "('w \<Rightarrow> string \<Rightarrow> f64) option"
  cnTraffic :: "('l \<Rightarrow> 'w \<Rightarrow> (error + MapData) \<times> 'w) option"
  cnNow :: "time option"

definition console_now :: "('l, 'w) Console \<Rightarrow> time \<Rightarrow> time" where
  "console_now c clock = (case cnNow c of Some t \<Rightarrow> t | None \<Rightarrow> clock)"

record sourceView =
  svSourceConfig :: SourceConfig
  svParseRate :: f64

definition SourceTypes :: "(string \<times> string) list" where
  "SourceTypes =
     [(''syslog'', ''Syslog (UDP/TCP)''), (''file'', ''File tail''), (''journald'', ''systemd journald''),
      (''docker'', ''Docker container''), (''windows'', ''Windows Event (via syslog forwarder)''),
      (''netflow'', ''NetFlow / IPFIX (router flow export)'')]"

text \<open>One entry of the live view; times are rendered as RFC 3339 text.\<close>

record liveIncident =
  liKey :: string
  liSource :: string
  liCheck :: string
  liSeverity :: string
  liActor :: string
  liTarget :: string
  liTitle :: string
  liDetail :: string
  liEvidence :: "string list"
  liCount :: int
  liFirstAt :: string
  liLastAt :: string
  liIncident :: bool

datatype console_body =
    CError string
  | CSources "sourceView list" "(string \<times> string) list"
  | CSaved string string
  | CDeleted string
  | CIncidents "liveIncident list"
  | CMap MapData

abbreviation httpErr :: "nat \<Rightarrow> string \<Rightarrow> console_body reply" where
  "httpErr code msg \<equiv> answer code (CError msg)"

definition handleTrafficMap :: "('l \<Rightarrow> 'w \<Rightarrow> (error + MapData) \<times> 'w) \<Rightarrow> 'l \<Rightarrow> 'w \<Rightarrow> console_body reply \<times> 'w" where
  "handleTrafficMap traffic l w =
     (case traffic l w of
        (Inl err, w) \<Rightarrow> (httpErr StatusInternalServerError (errString err), w)
      | (Inr m, w) \<Rightarrow> (answer StatusOK (CMap m), w))"

definition source_view :: "('l, 'w) Console \<Rightarrow> 'w \<Rightarrow> SourceConfig \<Rightarrow> sourceView" where
  "source_view c w s =
     \<lparr>svSourceConfig = s, svParseRate = (case cnParseRate c of Some rate \<Rightarrow> rate w (scName s) | None \<Rightarrow> f64_of_int 1)\<rparr>"

definition handleList :: "('l, 'w) Console \<Rightarrow> 'l \<Rightarrow> 'w \<Rightarrow> console_body reply" where
  "handleList c l w =
     (case lsListSources (cnStore c) l of
        Inl err \<Rightarrow> httpErr StatusInternalServerError (errString err)
      | Inr srcs \<Rightarrow> answer StatusOK (CSources (map (source_view c w) srcs) SourceTypes))"

record saveRequest =
  srName :: string
  srType :: string
  srParams :: "(string \<rightharpoonup> string) option"

definition source_limit_text :: string where
  "source_limit_text = ''source limit reached for your tier '' @ u_dash @ '' upgrade to add more''"

text \<open>The tier check. A store error leaves the list empty and so lets the source pass.\<close>

definition over_cap :: "('l, 'w) Console \<Rightarrow> 'l \<Rightarrow> 'w \<Rightarrow> string \<Rightarrow> bool" where
  "over_cap c l w name =
     (let found = (case lsGetSource (cnStore c) l name of Inr (Some _) \<Rightarrow> True | _ \<Rightarrow> False)
      in case cnCaps c of
           Some caps \<Rightarrow>
             \<not> found \<and> caps w \<noteq> 0 \<and>
             (case lsListSources (cnStore c) l of Inr srcs \<Rightarrow> int (length srcs) \<ge> caps w | Inl _ \<Rightarrow> 0 \<ge> caps w)
         | None \<Rightarrow> False)"

definition handleSave ::
    "(string \<Rightarrow> string) \<Rightarrow> time \<Rightarrow> ('l, 'w) Console \<Rightarrow> error + saveRequest \<Rightarrow> 'l \<Rightarrow> 'w \<Rightarrow> console_body reply \<times> 'l \<times> 'w" where
  "handleSave quoted clock c body l w =
     (case body of
        Inl _ \<Rightarrow> (httpErr StatusBadRequest ''invalid JSON'', l, w)
      | Inr req \<Rightarrow>
          (let name = TrimSpace (srName req);
               params = (case srParams req of None \<Rightarrow> Map.empty | Some p \<Rightarrow> p)
           in if name = [] then (httpErr StatusBadRequest ''a source name is required'', l, w)
              else case validateSource quoted (srType req) params of
                     Some err \<Rightarrow> (httpErr StatusBadRequest (errString err), l, w)
                   | None \<Rightarrow>
                       if over_cap c l w name then (httpErr StatusForbidden source_limit_text, l, w)
                       else (let src = \<lparr>scName = name, scType = srType req, scParams = params, scEnabled = True,
                                        scCreatedAt = console_now c clock\<rparr>
                             in case lsPutSource (cnStore c) l src of
                                  (Some err, l) \<Rightarrow> (httpErr StatusInternalServerError (errString err), l, w)
                                | (None, l) \<Rightarrow>
                                    (case (case cnOnSaved c of Some f \<Rightarrow> f src w | None \<Rightarrow> (None, w)) of
                                       (Some err, w) \<Rightarrow> (httpErr StatusConflict (errString err), l, w)
                                     | (None, w) \<Rightarrow> (answer StatusOK (CSaved name (srType req)), l, w)))))"

definition handleDelete :: "('l, 'w) Console \<Rightarrow> string \<Rightarrow> 'l \<Rightarrow> 'w \<Rightarrow> console_body reply \<times> 'l \<times> 'w" where
  "handleDelete c query l w =
     (let name = TrimSpace query
      in if name = [] then (httpErr StatusBadRequest ''name is required'', l, w)
         else (let w = (case cnOnDelete c of Some f \<Rightarrow> f name w | None \<Rightarrow> w)
               in case lsDeleteSource (cnStore c) l name of
                    (Some err, l) \<Rightarrow> (httpErr StatusInternalServerError (errString err), l, w)
                  | (None, l) \<Rightarrow> (answer StatusOK (CDeleted name), l, w)))"

text \<open>\<open>rfc\<close> renders a time as RFC 3339.\<close>

definition live_incident :: "(time \<Rightarrow> string) \<Rightarrow> DetectionRecord \<Rightarrow> liveIncident" where
  "live_incident rfc d =
     \<lparr>liKey = drKey d, liSource = drSourceID d, liCheck = drCheck d, liSeverity = drSeverity d, liActor = drActor d,
      liTarget = drTarget d, liTitle = drTitle d, liDetail = drDetail d, liEvidence = drEvidence d, liCount = drCount d,
      liFirstAt = rfc (drFirstAt d), liLastAt = rfc (drLastAt d), liIncident = HasPrefix (drCheck d) ''incident.''\<rparr>"

definition live_of :: "(time \<Rightarrow> string) \<Rightarrow> 'l LStore \<Rightarrow> time \<Rightarrow> 'l \<Rightarrow> SourceConfig \<Rightarrow> liveIncident list" where
  "live_of rfc ops cutoff l s =
     (case lsListDetections ops l (scName s) of
        Inl _ \<Rightarrow> []
      | Inr dets \<Rightarrow> map (live_incident rfc) (filter (\<lambda>d. \<not> Before (drLastAt d) cutoff) dets))"

definition handleIncidents :: "(time \<Rightarrow> string) \<Rightarrow> time \<Rightarrow> ('l, 'w) Console \<Rightarrow> 'l \<Rightarrow> console_body reply" where
  "handleIncidents rfc clock c l =
     (case lsListSources (cnStore c) l of
        Inl err \<Rightarrow> httpErr StatusInternalServerError (errString err)
      | Inr srcs \<Rightarrow>
          let cutoff = Add (console_now c clock) (- ActiveWindow)
          in answer StatusOK (CIncidents (concat (map (live_of rfc (cnStore c) cutoff l) srcs))))"

subsection \<open>What the console relies on of a store\<close>

definition same_source :: "SourceConfig \<Rightarrow> SourceConfig \<Rightarrow> bool" where
  "same_source c c' \<longleftrightarrow> scName c' = scName c \<and> scType c' = scType c \<and> scParams c' = scParams c \<and> scEnabled c' = scEnabled c"

text \<open>\<open>kept p\<close>: the parameters \<open>p\<close> survive being stored.\<close>

locale source_store =
  fixes ops :: "'s LStore" and invar :: "'s \<Rightarrow> bool" and look :: "'s \<Rightarrow> string \<Rightarrow> SourceConfig option"
    and kept :: "(string \<rightharpoonup> string) \<Rightarrow> bool"
  assumes put: "invar s \<Longrightarrow> \<exists>s' c'. lsPutSource ops s c = (None, s') \<and> invar s' \<and> look s' = (look s)(scName c \<mapsto> c') \<and>
      scName c' = scName c \<and> (kept (scParams c) \<longrightarrow> same_source c c')"
    and get: "invar s \<Longrightarrow> lsGetSource ops s n = Inr (look s n)"
    and lst: "invar s \<Longrightarrow> \<exists>cs. lsListSources ops s = Inr cs \<and> distinct (map scName cs) \<and>
      (\<forall>n c. look s n = Some c \<longleftrightarrow> c \<in> set cs \<and> scName c = n)"
    and del: "invar s \<Longrightarrow> \<exists>s'. lsDeleteSource ops s n = (None, s') \<and> invar s' \<and> look s' = (look s)(n := None)"
begin

lemma names_listed:
  assumes "invar s"
  obtains cs where "lsListSources ops s = Inr cs" and "dom (look s) = scName ` set cs" and "length cs = card (dom (look s))"
proof -
  from lst [OF assms] obtain cs where cs: "lsListSources ops s = Inr cs" "distinct (map scName cs)"
    "\<forall>n c. look s n = Some c \<longleftrightarrow> c \<in> set cs \<and> scName c = n" by blast
  then have "dom (look s) = scName ` set cs" by (auto simp: dom_def)
  moreover have "length cs = card (scName ` set cs)" using cs(2) by (metis distinct_card length_map set_map)
  ultimately show thesis using that cs(1) by simp
qed

lemma finite_names: "invar s \<Longrightarrow> finite (dom (look s))"
  by (erule names_listed) simp

lemma over_cap_iff:
  assumes "cnStore c = ops" and "invar l"
  shows "over_cap c l w n \<longleftrightarrow>
    (\<exists>caps. cnCaps c = Some caps \<and> look l n = None \<and> caps w \<noteq> 0 \<and> int (card (dom (look l))) \<ge> caps w)"
proof -
  obtain cs where "lsListSources ops l = Inr cs" "length cs = card (dom (look l))" by (rule names_listed [OF assms(2)])
  then show ?thesis
    by (auto simp: over_cap_def assms(1) Let_def get [OF assms(2)] split: option.splits)
qed

text \<open>The two outcomes of a save: refused with nothing changed, or stored and handed to the callback.\<close>

lemma save_cases:
  assumes "cnStore c = ops" and "invar l" and "cnOnSaved c = Some f" and "handleSave quoted clock c body l w = (r, l', w')"
  obtains (refused) "l' = l" "w' = w" "rpCode r = 400 \<or> rpCode r = 403"
  | (stored) src c' err where "scName src \<noteq> []" "\<exists>req. body = Inr req \<and> scName src = TrimSpace (srName req) \<and> scParams src = (case srParams req of None \<Rightarrow> Map.empty | Some p \<Rightarrow> p)"
      "validateSource quoted (scType src) (scParams src) = None" "scEnabled src" "\<not> over_cap c l w (scName src)"
      "invar l'" "look l' = (look l)(scName src \<mapsto> c')" "scName c' = scName src" "kept (scParams src) \<longrightarrow> same_source src c'"
      "f src w = (err, w')" "rpCode r = (if err = None then 200 else 409)"
proof (cases body)
  case (Inl e)
  then show thesis using assms(4) refused by (auto simp: handleSave_def)
next
  case (Inr req)
  define src where "src = \<lparr>scName = TrimSpace (srName req), scType = srType req,
      scParams = (case srParams req of None \<Rightarrow> Map.empty | Some p \<Rightarrow> p), scEnabled = True, scCreatedAt = console_now c clock\<rparr>"
  note h = assms(4) [unfolded handleSave_def Inr sum.case Let_def]
  show thesis
  proof (cases "scName src = [] \<or> validateSource quoted (scType src) (scParams src) \<noteq> None \<or> over_cap c l w (scName src)")
    case True
    then show thesis using h refused by (auto simp: src_def split: if_splits option.splits)
  next
    case False
    from put [OF assms(2), of src] obtain s' c' where p: "lsPutSource ops l src = (None, s')" "invar s'"
      "look s' = (look l)(scName src \<mapsto> c')" "scName c' = scName src" "kept (scParams src) \<longrightarrow> same_source src c'" by blast
    obtain err w2 where fw: "f src w = (err, w2)" by fastforce
    have "handleSave quoted clock c body l w =
        (case err of Some e \<Rightarrow> (httpErr StatusConflict (errString e), s', w2) | None \<Rightarrow> (answer StatusOK (CSaved (scName src) (scType src)), s', w2))"
      using False p(1) fw by (simp add: handleSave_def Inr assms(1,3) src_def Let_def split: option.splits)
    then have "l' = s'" "w' = w2" "rpCode r = (if err = None then 200 else 409)" using assms(4) by (auto split: option.splits)
    then show thesis using False p fw Inr by (intro stored [of src c' err]) (auto simp: src_def)
  qed
qed

lemma delete_cases:
  assumes "cnStore c = ops" and "invar l" and "cnOnDelete c = Some f" and "handleDelete c q l w = (r, l', w')"
  obtains (refused) "l' = l" "w' = w" "TrimSpace q = []" "rpCode r = 400"
  | (deleted) "TrimSpace q \<noteq> []" "invar l'" "look l' = (look l)(TrimSpace q := None)" "w' = f (TrimSpace q) w" "rpCode r = 200"
  using assms(4) del [OF assms(2), of "TrimSpace q"]
  by (auto simp: handleDelete_def Let_def assms(1,3) split: if_splits)

end

subsection \<open>Both stores keep the contract\<close>

definition lmem_sources_invar :: "LMemStore \<Rightarrow> bool" where
  "lmem_sources_invar m \<longleftrightarrow> wf_map (lmSources m) \<and> (\<forall>(k, c)\<in>set (lmSources m). k = scName c)"

definition lmem_source :: "LMemStore \<Rightarrow> string \<Rightarrow> SourceConfig option" where
  "lmem_source m = map_of (lmSources m)"

lemma mset_map_order: "iteration_order iter \<Longrightarrow> mset (map f (iter xs)) = mset (map f xs)"
  by (simp add: iteration_order_def)

lemma LMem_source_store:
  assumes "iteration_order (loSources ord)"
  shows "source_store (LMem_ops ord) lmem_sources_invar lmem_source (\<lambda>_. True)"
proof
  fix s :: LMemStore and c :: SourceConfig
  assume inv: "lmem_sources_invar s"
  show "\<exists>s' c'. lsPutSource (LMem_ops ord) s c = (None, s') \<and> lmem_sources_invar s' \<and>
      lmem_source s' = (lmem_source s)(scName c \<mapsto> c') \<and> scName c' = scName c \<and> (True \<longrightarrow> same_source c c')"
    using inv set_map_put [of "scName c" c "lmSources s"]
    by (auto simp: LMem_ops_def LMem_PutSource_def lmem_sources_invar_def lmem_source_def same_source_def gomap_simps)
next
  fix s n assume "lmem_sources_invar s"
  then show "lsGetSource (LMem_ops ord) s n = Inr (lmem_source s n)"
    by (simp add: LMem_ops_def LMem_GetSource_def lmem_source_def)
next
  fix s assume inv: "lmem_sources_invar s"
  let ?cs = "sort_key scName (map snd (loSources ord (lmSources s)))"
  have set: "set (loSources ord (lmSources s)) = set (lmSources s)" and dist: "distinct (map fst (loSources ord (lmSources s)))"
    using inv iteration_order_set [OF assms] mset_eq_imp_distinct_iff [OF mset_map_order [OF assms, of fst "lmSources s"]]
    by (simp_all add: lmem_sources_invar_def wf_map_def)
  have "map scName (map snd (loSources ord (lmSources s))) = map fst (loSources ord (lmSources s))"
    using inv set by (auto simp: lmem_sources_invar_def)
  then have "distinct (map scName ?cs)" using dist unfolding distinct_sort_key by (simp only:)
  moreover have "lmem_source s n = Some c \<longleftrightarrow> c \<in> set ?cs \<and> scName c = n" for n c
  proof -
    have "lmem_source s n = Some c \<longleftrightarrow> (n, c) \<in> set (lmSources s)"
      using inv in_set_map_of [of "lmSources s" n c] by (simp add: lmem_source_def lmem_sources_invar_def)
    moreover have "(n, c) \<in> set (lmSources s) \<longleftrightarrow> c \<in> snd ` set (lmSources s) \<and> scName c = n"
      using inv by (auto simp: lmem_sources_invar_def intro: rev_image_eqI)
    ultimately show ?thesis by (simp add: set)
  qed
  ultimately show "\<exists>cs. lsListSources (LMem_ops ord) s = Inr cs \<and> distinct (map scName cs) \<and>
      (\<forall>n c. lmem_source s n = Some c \<longleftrightarrow> c \<in> set cs \<and> scName c = n)"
    by (auto simp: LMem_ops_def LMem_ListSources_def)
next
  fix s n assume "lmem_sources_invar s"
  moreover have "set (map_del n (lmSources s)) \<subseteq> set (lmSources s)" by (auto simp: map_del_def)
  ultimately show "\<exists>s'. lsDeleteSource (LMem_ops ord) s n = (None, s') \<and> lmem_sources_invar s' \<and> lmem_source s' = (lmem_source s)(n := None)"
    by (auto simp: LMem_ops_def LMem_DeleteSource_def lmem_sources_invar_def lmem_source_def gomap_simps)
qed

definition lsql_sources_invar :: "LSQLiteStore \<Rightarrow> bool" where
  "lsql_sources_invar s \<longleftrightarrow> distinct (map swName (tblSources s))"

definition lsql_source :: "lsql_env \<Rightarrow> LSQLiteStore \<Rightarrow> string \<Rightarrow> SourceConfig option" where
  "lsql_source env s n = map_option (scanSource env) (find (\<lambda>w. swName w = n) (tblSources s))"

definition params_kept :: "lsql_env \<Rightarrow> (string \<rightharpoonup> string) \<Rightarrow> bool" where
  "params_kept env p \<longleftrightarrow> TrimSpace (leParams env p) \<noteq> [] \<and> leReadParams env (leParams env p) = Some p"

definition db_up :: "lsql_env \<Rightarrow> bool" where
  "db_up env \<longleftrightarrow> leQuery env = None \<and> leExec env = None \<and> leExec2 env = None"

lemma LSql_source_store:
  assumes "db_up env"
  shows "source_store (LSql_ops env) lsql_sources_invar (lsql_source env) (params_kept env)"
proof
  note up = assms [unfolded db_up_def]
  fix s :: LSQLiteStore and c :: SourceConfig
  assume inv: "lsql_sources_invar s"
  define new where "new = \<lparr>swName = scName c, swType = scType c, swParams = leParams env (scParams c),
      swEnabled = (if scEnabled c then 1 else 0), swCreated = (if IsZero (scCreatedAt c) then leNow env else scCreatedAt c)\<rparr>"
  define upd where "upd = (\<lambda>w::source_row. w\<lparr>swType := swType new, swParams := swParams new, swEnabled := swEnabled new\<rparr>)"
  have new_name: "swName new = scName c" by (simp add: new_def)
  have up_name: "swName (upd w) = swName w" for w by (simp add: upd_def)
  have put: "lsPutSource (LSql_ops env) s c = (None, s\<lparr>tblSources := put_source_row new (tblSources s)\<rparr>)"
    using up by (simp add: LSql_ops_def LSql_PutSource_def Let_def new_def)
  have row: "put_source_row new ws = (if list_ex (\<lambda>w. swName w = swName new) ws
      then map (\<lambda>w. if swName w = swName new then upd w else w) ws else ws @ [new])" for ws
    by (simp add: put_source_row_def upd_def)
  have same: "params_kept env (scParams c) \<longrightarrow> same_source c (scanSource env w)" if "w = new \<or> (\<exists>v. w = upd v \<and> swName v = scName c)" for w
    using that by (auto simp: same_source_def scanSource_def params_kept_def new_def upd_def split: if_splits)
  let ?w = "case find (\<lambda>w. swName w = scName c) (tblSources s) of None \<Rightarrow> new | Some w \<Rightarrow> upd w"
  have w: "?w = new \<or> (\<exists>v. ?w = upd v \<and> swName v = scName c)" by (auto simp: find_Some_iff split: option.splits)
  have "find (\<lambda>w. swName w = n) (put_source_row new (tblSources s)) =
      (if n = scName c then Some ?w else find (\<lambda>w. swName w = n) (tblSources s))" for n
    using find_upsert [of swName upd n new "tblSources s", OF up_name] unfolding row new_name by auto
  then have "lsql_source env (s\<lparr>tblSources := put_source_row new (tblSources s)\<rparr>) = (lsql_source env s)(scName c \<mapsto> scanSource env ?w)"
    by (auto simp: lsql_source_def fun_eq_iff)
  moreover have "lsql_sources_invar (s\<lparr>tblSources := put_source_row new (tblSources s)\<rparr>)"
    using distinct_upsert [of swName upd "tblSources s" new, OF up_name] inv by (simp add: lsql_sources_invar_def row)
  moreover have "scName (scanSource env ?w) = scName c" using w by (auto simp: scanSource_def new_def up_name)
  ultimately show "\<exists>s' c'. lsPutSource (LSql_ops env) s c = (None, s') \<and> lsql_sources_invar s' \<and>
      lsql_source env s' = (lsql_source env s)(scName c \<mapsto> c') \<and> scName c' = scName c \<and> (params_kept env (scParams c) \<longrightarrow> same_source c c')"
    using put same [OF w] by blast
next
  fix s n assume "lsql_sources_invar s"
  then show "lsGetSource (LSql_ops env) s n = Inr (lsql_source env s n)"
    using assms by (simp add: LSql_ops_def LSql_GetSource_def lsql_source_def db_up_def)
next
  fix s assume inv: "lsql_sources_invar s"
  let ?cs = "map (scanSource env) (sort_key swName (tblSources s))"
  have n: "scName (scanSource env w) = swName w" for w by (simp add: scanSource_def)
  have "distinct (map scName ?cs)" using inv by (simp add: comp_def n lsql_sources_invar_def distinct_sort_key)
  moreover have "lsql_source env s n = Some c \<longleftrightarrow> c \<in> set ?cs \<and> scName c = n" for n c
    using find_unique_key [of swName "tblSources s" n] inv by (auto simp: lsql_source_def lsql_sources_invar_def n)
  ultimately show "\<exists>cs. lsListSources (LSql_ops env) s = Inr cs \<and> distinct (map scName cs) \<and>
      (\<forall>n c. lsql_source env s n = Some c \<longleftrightarrow> c \<in> set cs \<and> scName c = n)"
    using assms by (auto simp: LSql_ops_def LSql_ListSources_def db_up_def)
next
  fix s n assume inv: "lsql_sources_invar s"
  have f: "find (\<lambda>w. swName w = m) (filter (\<lambda>w. swName w \<noteq> n) ws) = (if m = n then None else find (\<lambda>w. swName w = m) ws)" for m ws
    by (induction ws) auto
  show "\<exists>s'. lsDeleteSource (LSql_ops env) s n = (None, s') \<and> lsql_sources_invar s' \<and> lsql_source env s' = (lsql_source env s)(n := None)"
    using assms inv by (simp add: LSql_ops_def LSql_DeleteSource_def lsql_sources_invar_def lsql_source_def db_up_def Let_def fun_eq_iff distinct_map_filter f)
qed

interpretation lmem_sources: source_store "LMem_ops \<lparr>loSources = rev, loDets = rev\<rparr>" lmem_sources_invar lmem_source "\<lambda>_. True"
  by (rule LMem_source_store) simp

interpretation lsql_sources: source_store "LSql_ops lsql_plain" lsql_sources_invar "lsql_source lsql_plain" "params_kept lsql_plain"
  by (rule LSql_source_store) (simp add: db_up_def lsql_plain_def)

end
