(* ===== verification/Web_Server.thy ===== *)
theory Web_Server
  imports Http_Api Trim_Laws License Sqlite_Store Channels Verify_Domain
begin

text \<open>
  web/server.go and the interface of store/targets.go: the dashboard's JSON API. \<open>Server\<close> is the
  server's own state; the stores, the scheduler and the license file are passed to the handlers that
  use them, and returned when a handler changes them. Ed25519, JSON, the schema package and the file
  system are arguments; \<open>clock\<close> is what \<^verbatim>\<open>time.Now\<close> returns during the request.
\<close>

subsection \<open>The server\<close>

record 't TargetStore =
  tsSaveTarget :: "'t \<Rightarrow> string \<Rightarrow> string \<Rightarrow> string \<Rightarrow> error option \<times> 't"
  tsDeleteTarget :: "'t \<Rightarrow> string \<Rightarrow> string \<Rightarrow> error option \<times> 't"
  tsListSavedTargets :: "'t \<Rightarrow> string \<Rightarrow> error + string list"

record 'pub Server =
  svModule :: ModuleInfo
  svTierLimits :: "(Tier \<rightharpoonup> Limits) option"
  svIssuerPub :: 'pub
  svLicenseFile :: string
  svActivation :: Activation

text \<open>\<open>read\<close> is what \<^verbatim>\<open>os.ReadFile\<close> returns for a path.\<close>

definition NewServer ::
    "('pub, 'priv) crypto \<Rightarrow> (time \<Rightarrow> string) \<Rightarrow> (string \<Rightarrow> error + string) \<Rightarrow> ModuleInfo \<Rightarrow> 'pub \<Rightarrow> string \<Rightarrow> time \<Rightarrow> 'pub Server" where
  "NewServer cy fmtDate read md pub licenseFile clock =
     (let key = (if licenseFile \<noteq> [] then (case read licenseFile of Inr b \<Rightarrow> TrimSpace b | Inl _ \<Rightarrow> []) else [])
      in \<lparr>svModule = md, svTierLimits = None, svIssuerPub = pub, svLicenseFile = licenseFile,
          svActivation = Activate cy fmtDate pub (mID md) key clock\<rparr>)"

definition effLimits :: "'pub Server \<Rightarrow> Limits" where
  "effLimits s =
     (let act = svActivation s
      in case svTierLimits s of
           Some table \<Rightarrow> (case table (acTier act) of Some l \<Rightarrow> l | None \<Rightarrow> acLimits act)
         | None \<Rightarrow> acLimits act)"

definition canAdd :: "Limits \<Rightarrow> int \<Rightarrow> bool" where
  "canAdd l current \<longleftrightarrow> lmMaxTargets l = 0 \<or> current < lmMaxTargets l"

abbreviation EffectiveLimits :: "'pub Server \<Rightarrow> Limits" where
  "EffectiveLimits s \<equiv> effLimits s"

subsection \<open>Replies\<close>

record summaryResponse =
  suProduct :: string
  suTier :: string
  suNotice :: string
  suCounts :: "string \<Rightarrow> int"
  suOpenTotal :: int
  suTargets :: int
  suMaxTargets :: int
  suCanScanNow :: bool
  suTargetKind :: string

record findingJSON =
  fjFingerprint :: string
  fjTarget :: string
  fjCheck :: string
  fjTitle :: string
  fjSeverity :: string
  fjStatus :: string
  fjRemediation :: string
  fjEvidence :: "evidence option"
  fjFirstSeen :: time
  fjLastSeen :: time

record challengeJSON =
  cjDomain :: string
  cjState :: string
  cjDNSRecord :: string
  cjDNSValue :: string
  cjHTTPURL :: string
  cjHTTPContents :: string
  cjInstructions :: string

datatype web_body =
    WError string
  | WDone
  | WSummary summaryResponse
  | WVerification bool "challengeJSON list"
  | WFindings "findingJSON list"
  | WTargets "(string \<times> string) list"
  | WCanonical string
  | WLicense string string "(string \<times> time) option"
  | WTier string
  | WExport "string list"

abbreviation httpError :: "nat \<Rightarrow> string \<Rightarrow> web_body reply" where
  "httpError code msg \<equiv> answer code (WError msg)"

abbreviation writeJSON :: "web_body \<Rightarrow> web_body reply" where
  "writeJSON v \<equiv> answer StatusOK v"

subsection \<open>Reading handlers\<close>

definition count_severities :: "Record list \<Rightarrow> string \<Rightarrow> int" where
  "count_severities rs = fold (\<lambda>rec counts. counts(fSeverity rec := counts (fSeverity rec) + 1)) rs (\<lambda>_. 0)"

definition handleSummary :: "'s Store \<Rightarrow> target_order \<Rightarrow> 'pub Server \<Rightarrow> 's \<Rightarrow> Scheduler \<Rightarrow> web_body reply" where
  "handleSummary ops iter s st sc =
     (case opListOpen ops st (mID (svModule s)) of
        Inl _ \<Rightarrow> httpError StatusInternalServerError ''store error''
      | Inr opened \<Rightarrow>
          (let act = svActivation s; limits = effLimits s
           in writeJSON (WSummary
                \<lparr>suProduct = mName (svModule s), suTier = acTier act, suNotice = acNotice act,
                 suCounts = count_severities opened, suOpenTotal = int (length opened),
                 suTargets = int (length (ListTargets iter sc (mID (svModule s)))),
                 suMaxTargets = lmMaxTargets limits, suCanScanNow = lmScanNow limits,
                 suTargetKind = mTargetKind (svModule s)\<rparr>)))"

definition challenge_json :: "(string \<Rightarrow> string) \<Rightarrow> Challenge \<Rightarrow> challengeJSON" where
  "challenge_json quoted c =
     \<lparr>cjDomain = chDomain c, cjState = chState c, cjDNSRecord = DNSRecordName c, cjDNSValue = DNSRecordValue c,
      cjHTTPURL = HTTPURL c, cjHTTPContents = HTTPFileContents c, cjInstructions = Instructions quoted c\<rparr>"

definition handleVerification :: "(string \<Rightarrow> string) \<Rightarrow> ('v VStore \<times> 'v) option \<Rightarrow> 'pub Server \<Rightarrow> web_body reply" where
  "handleVerification quoted verify s =
     (case verify of
        None \<Rightarrow> writeJSON (WVerification False [])
      | Some (ops, v) \<Rightarrow>
          (case vsList ops v (mID (svModule s)) of
             Inl _ \<Rightarrow> httpError StatusInternalServerError ''verification store error''
           | Inr challenges \<Rightarrow> writeJSON (WVerification True (map (challenge_json quoted) challenges))))"

text \<open>Resolved findings older than a day are left out of the list and of the export.\<close>

definition stale :: "time \<Rightarrow> Record \<Rightarrow> bool" where
  "stale clock rec \<longleftrightarrow> fStatus rec = StatusResolved \<and>
     (case fResolvedAt rec of None \<Rightarrow> True | Some t \<Rightarrow> Sub clock t > 24 * hour)"

definition finding_json :: "Record \<Rightarrow> findingJSON" where
  "finding_json rec =
     \<lparr>fjFingerprint = fFingerprint rec, fjTarget = fTarget rec, fjCheck = fCheck rec, fjTitle = fTitle rec,
      fjSeverity = fSeverity rec, fjStatus = fStatus rec, fjRemediation = fRemediation rec,
      fjEvidence = fEvidence rec, fjFirstSeen = fFirstSeen rec, fjLastSeen = fLastSeen rec\<rparr>"

definition handleFindings :: "'s Store \<Rightarrow> time \<Rightarrow> 'pub Server \<Rightarrow> 's \<Rightarrow> web_body reply" where
  "handleFindings ops clock s st =
     (case opListAll ops st (mID (svModule s)) of
        Inl _ \<Rightarrow> httpError StatusInternalServerError ''store error''
      | Inr rs \<Rightarrow> writeJSON (WFindings (map finding_json (filter (\<lambda>rec. \<not> stale clock rec) rs))))"

record ('meta, 'opt, 'kind, 'ev) hfs_export = "('meta, 'opt, 'kind, 'ev) hfs" +
  hfSetVersion :: "string \<Rightarrow> 'meta \<Rightarrow> 'meta"
  hfKindSnapshot :: 'kind
  hfMarshal :: "'ev \<Rightarrow> error + string"

definition export_line ::
    "('meta, 'opt, 'kind, 'ev) hfs_export \<Rightarrow> 'meta \<Rightarrow> 'opt \<Rightarrow> time \<Rightarrow> Record \<Rightarrow> string list" where
  "export_line h meta opt clock rec =
     (if stale clock rec then []
      else case hfMarshal h (hfNew h (hfKindSnapshot h) meta (Source (finding_of rec)) clock opt) of
             Inl _ \<Rightarrow> []
           | Inr line \<Rightarrow> [line @ [CHR 0x0A]])"

definition handleFindingsExport ::
    "('meta, 'opt, 'kind, 'ev) hfs_export \<Rightarrow> 's Store \<Rightarrow> 'meta \<Rightarrow> 'opt \<Rightarrow> string \<Rightarrow> time \<Rightarrow> 'pub Server \<Rightarrow> 's \<Rightarrow> web_body reply" where
  "handleFindingsExport h ops exportMeta opt format clock s st =
     (if format \<noteq> [] \<and> format \<noteq> ''hfs'' then httpError StatusBadRequest ''format must be hfs''
      else case opListAll ops st (mID (svModule s)) of
             Inl _ \<Rightarrow> httpError StatusInternalServerError ''store error''
           | Inr rs \<Rightarrow>
               (let meta = (if hfProduct h exportMeta = []
                            then hfSetVersion h (mVersion (svModule s)) (hfSetProduct h (mID (svModule s)) exportMeta)
                            else exportMeta)
                in answer StatusOK (WExport (concat (map (export_line h meta opt clock) rs)))))"

definition handleListTargets :: "target_order \<Rightarrow> 'pub Server \<Rightarrow> Scheduler \<Rightarrow> web_body reply" where
  "handleListTargets iter s sc =
     writeJSON (WTargets (map (\<lambda>t. (tRaw t, tCanonical t)) (ListTargets iter sc (mID (svModule s)))))"

definition handleGetLicense :: "'pub Server \<Rightarrow> web_body reply" where
  "handleGetLicense s =
     (let act = svActivation s
      in writeJSON (WLicense (acTier act) (acNotice act) (map_option (\<lambda>lic. (lcEmail lic, lcExpiresAt lic)) (acLicense act))))"

subsection \<open>Handlers that change state\<close>

definition handleFindingStatus :: "'s Store \<Rightarrow> 'pub Server \<Rightarrow> error + string \<times> string \<Rightarrow> 's \<Rightarrow> web_body reply \<times> 's" where
  "handleFindingStatus ops s body st =
     (case body of
        Inl _ \<Rightarrow> (httpError StatusBadRequest ''invalid JSON'', st)
      | Inr (fingerprint, nextStatus) \<Rightarrow>
          if nextStatus \<notin> {StatusAcknowledged, StatusSuppressed, StatusOpen}
          then (httpError StatusBadRequest ''status must be acknowledged, suppressed, or open'', st)
          else (case opGet ops st (mID (svModule s)) fingerprint of
                  Inr (Some rec) \<Rightarrow>
                    (case opUpsert ops st (rec\<lparr>fStatus := nextStatus\<rparr>) of
                       (Some _, st) \<Rightarrow> (httpError StatusInternalServerError ''store error'', st)
                     | (None, st) \<Rightarrow> (writeJSON WDone, st))
                | _ \<Rightarrow> (httpError StatusNotFound ''finding not found'', st)))"

definition shop_text :: string where
  "shop_text = ''https://whop.com/nizar-tuanku/loglight?utm_source=app''"

definition handleAddTarget ::
    "target_order \<Rightarrow> 't TargetStore option \<Rightarrow> 'pub Server \<Rightarrow> error + string \<Rightarrow> Scheduler \<Rightarrow> 't
      \<Rightarrow> web_body reply \<times> Scheduler \<times> task list \<times> 't" where
  "handleAddTarget iter tops s body sc ts =
     (case body of
        Inl _ \<Rightarrow> (httpError StatusBadRequest ''invalid JSON'', sc, [], ts)
      | Inr target \<Rightarrow>
          (let current = int (length (ListTargets iter sc (mID (svModule s))))
           in if \<not> canAdd (effLimits s) current
              then (httpError StatusPaymentRequired (''target limit reached for your tier '' @ u_dash @ '' Pro and Team: '' @ shop_text), sc, [], ts)
              else case AddTarget (mID (svModule s)) target sc of
                     (Inl err, sc, tasks) \<Rightarrow> (httpError StatusBadRequest (errString err), sc, tasks, ts)
                   | (Inr t, sc, tasks) \<Rightarrow>
                       (case (case tops of Some tg \<Rightarrow> tsSaveTarget tg ts (mID (svModule s)) (tRaw t) (tCanonical t) | None \<Rightarrow> (None, ts)) of
                          (Some _, ts) \<Rightarrow> (httpError StatusInternalServerError ''target added but could not be persisted'', sc, tasks, ts)
                        | (None, ts) \<Rightarrow> (writeJSON (WCanonical (tCanonical t)), sc, tasks, ts))))"

definition handleRemoveTarget ::
    "'t TargetStore option \<Rightarrow> 'pub Server \<Rightarrow> string \<Rightarrow> Scheduler \<Rightarrow> 't \<Rightarrow> web_body reply \<times> Scheduler \<times> 't" where
  "handleRemoveTarget tops s canonical sc ts =
     (if canonical = [] then (httpError StatusBadRequest ''canonical query parameter required'', sc, ts)
      else (writeJSON WDone, RemoveTarget (mID (svModule s)) canonical sc,
            case tops of Some tg \<Rightarrow> snd (tsDeleteTarget tg ts (mID (svModule s)) canonical) | None \<Rightarrow> ts))"

definition handleScanNow :: "target_order \<Rightarrow> 'pub Server \<Rightarrow> Scheduler \<Rightarrow> web_body reply \<times> task list" where
  "handleScanNow iter s sc =
     (if \<not> lmScanNow (effLimits s)
      then (httpError StatusPaymentRequired (''on-demand scans are a Pro feature '' @ u_dash @
              '' scheduled scans continue as normal. Pro and Team: '' @ shop_text), [])
      else case ScanNow iter sc (mID (svModule s)) of
             Inl err \<Rightarrow> (httpError StatusInternalServerError (errString err), [])
           | Inr tasks \<Rightarrow> (writeJSON WDone, tasks))"

text \<open>\<open>failed\<close> is the outcome of \<^verbatim>\<open>os.WriteFile\<close>: no error, or an error and what the file holds then.\<close>

definition handleSetLicense ::
    "('pub, 'priv) crypto \<Rightarrow> (time \<Rightarrow> string) \<Rightarrow> (error \<times> (error + string)) option \<Rightarrow> time \<Rightarrow> error + string
      \<Rightarrow> 'pub Server \<Rightarrow> error + string \<Rightarrow> web_body reply \<times> 'pub Server \<times> (error + string)" where
  "handleSetLicense cy fmtDate failed clock body s disk =
     (case body of
        Inl _ \<Rightarrow> (httpError StatusBadRequest ''invalid JSON'', s, disk)
      | Inr raw \<Rightarrow>
          (let key = TrimSpace raw;
               act = Activate cy fmtDate (svIssuerPub s) (mID (svModule s)) key clock
           in if acTier act = TierFree \<and> key \<noteq> [] then (httpError StatusBadRequest (acNotice act), s, disk)
              else if svLicenseFile s \<noteq> [] then
                     (case failed of
                        Some (_, left) \<Rightarrow> (httpError StatusInternalServerError ''could not persist license key'', s, left)
                      | None \<Rightarrow> (writeJSON (WTier (acTier act)), s\<lparr>svActivation := act\<rparr>, Inr (key @ [CHR 0x0A])))
              else (writeJSON (WTier (acTier act)), s\<lparr>svActivation := act\<rparr>, disk)))"

subsection \<open>Triage: the status of one finding\<close>

text \<open>What the status handler needs beyond the contract of the reconcile engine.\<close>

locale triage_store = finding_store +
  assumes get_look: "invar s \<Longrightarrow> okmod m \<Longrightarrow> opGet ops s m fp = Inr found \<Longrightarrow> found = look s m fp"
    and failed_upsert: "opUpsert ops s r = (Some e, s') \<Longrightarrow> s' = s"
begin

lemma status_handler:
  assumes "invar st" and "okmod (mID (svModule s))" and "handleFindingStatus ops s body st = (r, st')"
  shows "rpCode r \<noteq> 200 \<longrightarrow> st' = st"
    and "rpCode r = 200 \<Longrightarrow> \<exists>fp nxt rec. body = Inr (fp, nxt) \<and> nxt \<in> {StatusAcknowledged, StatusSuppressed, StatusOpen} \<and>
      look st (mID (svModule s)) fp = Some rec \<and> invar st' \<and>
      look st' (mID (svModule s)) fp = Some (rec\<lparr>fStatus := nxt, fEvidence := canon (fEvidence rec)\<rparr>) \<and>
      (\<forall>m' fp'. okmod m' \<longrightarrow> (m', fp') \<noteq> (mID (svModule s), fp) \<longrightarrow> look st' m' fp' = look st m' fp')"
proof -
  show "rpCode r \<noteq> 200 \<longrightarrow> st' = st"
    using assms(3) by (auto simp: handleFindingStatus_def split: sum.splits if_splits option.splits prod.splits dest: failed_upsert)
  assume "rpCode r = 200"
  then obtain fp nxt rec where b: "body = Inr (fp, nxt)" "nxt \<in> {StatusAcknowledged, StatusSuppressed, StatusOpen}"
    and g: "opGet ops st (mID (svModule s)) fp = Inr (Some rec)" and u: "opUpsert ops st (rec\<lparr>fStatus := nxt\<rparr>) = (None, st')"
    using assms(3) by (auto simp: handleFindingStatus_def split: sum.splits if_splits option.splits prod.splits)
  have l: "look st (mID (svModule s)) fp = Some rec" using get_look [OF assms(1,2) g] by simp
  then have k: "fModule rec = mID (svModule s)" "fFingerprint rec = fp" using look_key [OF assms(1,2)] by blast+
  have "look st' (mID (svModule s)) fp = Some (rec\<lparr>fStatus := nxt, fEvidence := canon (fEvidence rec)\<rparr>)"
    using upsert_same [OF assms(1) _ u] assms(2) l k by (simp add: same_identity_def)
  moreover have "look st' m' fp' = look st m' fp'" if "okmod m'" "(m', fp') \<noteq> (mID (svModule s), fp)" for m' fp'
    using upsert_other [OF assms(1) that(1) _ u] assms(2) that(2) k by simp
  moreover have "invar st'" using upsert_invar [OF assms(1) _ u] assms(2) k by simp
  ultimately show "\<exists>fp nxt rec. body = Inr (fp, nxt) \<and> nxt \<in> {StatusAcknowledged, StatusSuppressed, StatusOpen} \<and>
      look st (mID (svModule s)) fp = Some rec \<and> invar st' \<and>
      look st' (mID (svModule s)) fp = Some (rec\<lparr>fStatus := nxt, fEvidence := canon (fEvidence rec)\<rparr>) \<and>
      (\<forall>m' fp'. okmod m' \<longrightarrow> (m', fp') \<noteq> (mID (svModule s), fp) \<longrightarrow> look st' m' fp' = look st m' fp')"
    using b l by blast
qed

end

lemma Mem_triage_store:
  assumes "iteration_order iter"
  shows "triage_store (MemStore_ops iter) mem_invar nul_free mem_look (\<lambda>e. e)"
  by (intro triage_store.intro MemStore_finding_store triage_store_axioms.intro assms)
    (auto simp: MemStore_ops_def MemStore_Get_def MemStore_Upsert_def mem_look_def)

lemma Sql_triage_store:
  assumes "iteration_order (seOrder env)"
  shows "triage_store (Sql_ops env) sql_invar (\<lambda>_. True) (sql_look env) (sql_canon env)"
  by (intro triage_store.intro Sql_finding_store triage_store_axioms.intro assms)
    (auto simp: Sql_ops_def Sql_Get_def Sql_Upsert_def sql_look_def split: option.splits sum.splits)

interpretation mem_triage: triage_store "MemStore_ops (\<lambda>xs. xs)" mem_invar nul_free mem_look "\<lambda>e. e"
  by (rule Mem_triage_store) simp

interpretation sql_triage: triage_store "Sql_ops sql_plain" sql_invar "\<lambda>_. True" "sql_look sql_plain" "sql_canon sql_plain"
  by (rule Sql_triage_store) (simp add: sql_plain_def)

text \<open>C12. Triage through the API touches one finding and only its status. On the production store the request
  is answered with 200 exactly when something was changed; then it named an existing finding and one of the
  three statuses a user may set (never \<^verbatim>\<open>resolved\<close>), that finding has the new status and is otherwise the
  stored one, and every other finding of every module is as before. Any other answer left the store alone.\<close>

theorem status_change_is_local:
  assumes "iteration_order (seOrder env)" and "sql_invar st" and "handleFindingStatus (Sql_ops env) s body st = (r, st')"
  shows "(rpCode r \<noteq> 200 \<longrightarrow> st' = st) \<and>
    (rpCode r = 200 \<longrightarrow> (\<exists>fp nxt rec. body = Inr (fp, nxt) \<and> nxt \<in> {StatusAcknowledged, StatusSuppressed, StatusOpen} \<and>
       sql_look env st (mID (svModule s)) fp = Some rec \<and> sql_invar st' \<and>
       sql_look env st' (mID (svModule s)) fp = Some (rec\<lparr>fStatus := nxt, fEvidence := sql_canon env (fEvidence rec)\<rparr>) \<and>
       (\<forall>m' fp'. (m', fp') \<noteq> (mID (svModule s), fp) \<longrightarrow> sql_look env st' m' fp' = sql_look env st m' fp')))"
  using triage_store.status_handler [OF Sql_triage_store [OF assms(1)] assms(2) TrueI assms(3)] by simp

text \<open>A finding that was resolved and is opened again keeps its time of resolution.\<close>

lemma reopened_keeps_resolved_at:
  assumes "mem_look st (mID (svModule s)) fp = Some rec" and "mem_invar st" and "nul_free (mID (svModule s))"
    and "fStatus rec = StatusResolved" and "fResolvedAt rec = Some t"
  shows "\<exists>rec'. mem_look (snd (handleFindingStatus (MemStore_ops (\<lambda>xs. xs)) s (Inr (fp, StatusOpen)) st)) (mID (svModule s)) fp = Some rec' \<and>
    fStatus rec' = StatusOpen \<and> fResolvedAt rec' = Some t"
proof -
  obtain r st' where h: "handleFindingStatus (MemStore_ops (\<lambda>xs. xs)) s (Inr (fp, StatusOpen)) st = (r, st')" by fastforce
  then have "rpCode r = 200"
    using assms(1) by (auto simp: handleFindingStatus_def MemStore_ops_def MemStore_Get_def MemStore_Upsert_def mem_look_def)
  from mem_triage.status_handler(2) [OF assms(2,3) h this] assms(1,5) show ?thesis using h by auto
qed

definition ex_server :: "unit Server" where
  "ex_server = \<lparr>svModule = ex_module, svTierLimits = None, svIssuerPub = (), svLicenseFile = ''k'', svActivation = free_activation []\<rparr>"

theorem status_change_is_local_witness:
  "\<exists>rec'. sql_look sql_plain (snd (handleFindingStatus (Sql_ops sql_plain) ex_server (Inr (''a1'', StatusSuppressed))
     \<lparr>tblFindings = [ex_row], tblTargets = []\<rparr>)) ''loglight'' ''a1'' = Some rec' \<and> fStatus rec' = StatusSuppressed"
proof -
  let ?st = "\<lparr>tblFindings = [ex_row], tblTargets = []\<rparr>"
  obtain r st' where h: "handleFindingStatus (Sql_ops sql_plain) ex_server (Inr (''a1'', StatusSuppressed)) ?st = (r, st')" by fastforce
  have "rpCode (fst (handleFindingStatus (Sql_ops sql_plain) ex_server (Inr (''a1'', StatusSuppressed)) ?st)) = 200"
    by code_simp
  then have "rpCode r = 200" using h by simp
  moreover have "sql_invar ?st" by (simp add: sql_invar_def)
  moreover have "iteration_order (seOrder sql_plain)" by (simp add: sql_plain_def)
  ultimately show ?thesis
    using status_change_is_local [of sql_plain ?st ex_server "Inr (''a1'', StatusSuppressed)" r st'] h
    by (auto simp: ex_server_def ex_module_def)
qed

subsection \<open>Licensing\<close>

record license_request =
  lqFailed :: "(error \<times> (error + string)) option"
  lqClock :: time
  lqBody :: "error + string"

fun run_license ::
    "('pub, 'priv) crypto \<Rightarrow> (time \<Rightarrow> string) \<Rightarrow> license_request list \<Rightarrow> 'pub Server \<times> (error + string) \<Rightarrow> 'pub Server \<times> (error + string)" where
  "run_license cy fmtDate [] sd = sd"
| "run_license cy fmtDate (q # qs) (s, d) =
     run_license cy fmtDate qs (snd (handleSetLicense cy fmtDate (lqFailed q) (lqClock q) (lqBody q) s d))"

text \<open>The activation in force is the one a restart would resolve from the file.\<close>

definition activation_of_file ::
    "('pub, 'priv) crypto \<Rightarrow> (time \<Rightarrow> string) \<Rightarrow> 'pub Server \<Rightarrow> error + string \<Rightarrow> time \<Rightarrow> Activation" where
  "activation_of_file cy fmtDate s d t =
     svActivation (NewServer cy fmtDate (\<lambda>_. d) (svModule s) (svIssuerPub s) (svLicenseFile s) t)"

lemma set_license_step:
  assumes "svLicenseFile s \<noteq> []" and "handleSetLicense cy fmtDate None clock body s d = (r, s', d')"
  shows "svModule s' = svModule s" and "svIssuerPub s' = svIssuerPub s" and "svLicenseFile s' = svLicenseFile s"
    and "rpCode r \<noteq> 200 \<Longrightarrow> s' = s \<and> d' = d"
    and "rpCode r = 200 \<Longrightarrow> svActivation s' = activation_of_file cy fmtDate s' d' clock"
  using assms
  by (auto simp: handleSetLicense_def Let_def activation_of_file_def NewServer_def split: sum.splits if_splits)

lemma run_license_activation:
  assumes "\<forall>q\<in>set qs. lqFailed q = None"
  shows "svLicenseFile s \<noteq> [] \<Longrightarrow> svActivation s = activation_of_file cy fmtDate s d t \<Longrightarrow> run_license cy fmtDate qs (s, d) = (s', d') \<Longrightarrow>
    svModule s' = svModule s \<and> svIssuerPub s' = svIssuerPub s \<and> svLicenseFile s' = svLicenseFile s \<and>
    (\<exists>u\<in>insert t (lqClock ` set qs). svActivation s' = activation_of_file cy fmtDate s' d' u)"
  using assms
proof (induction qs arbitrary: s d t)
  case (Cons q qs)
  obtain r s1 d1 where h: "handleSetLicense cy fmtDate None (lqClock q) (lqBody q) s d = (r, s1, d1)" by (metis prod_cases3)
  note st = set_license_step [OF Cons(2) h]
  have "\<exists>u\<in>{t, lqClock q}. svActivation s1 = activation_of_file cy fmtDate s1 d1 u"
    using st(4,5) Cons(3) by (cases "rpCode r = 200") auto
  then obtain u where u: "u \<in> {t, lqClock q}" "svActivation s1 = activation_of_file cy fmtDate s1 d1 u" by blast
  have "run_license cy fmtDate qs (s1, d1) = (s', d')" using Cons(4,5) h by simp
  from Cons.IH [OF _ u(2) this] Cons(2,5) st(1-3) u(1) show ?case by auto
qed auto

text \<open>C23. The license in force is the one on disk. Start a server from its license file and submit any sequence of
  keys, good, bad, empty or undecodable: as long as the file can be written, the activation in force is
  what a restart would resolve from the file as it then is, at the time of start-up or of one of the
  requests. A key that is refused changes neither the file nor the activation, so a bad key never
  displaces a good one.\<close>

theorem license_survives_restart:
  assumes "file \<noteq> []" and "\<forall>q\<in>set qs. lqFailed q = None"
    and "run_license cy fmtDate qs (NewServer cy fmtDate (\<lambda>_. d) md pub file t, d) = (s', d')"
  shows "(\<exists>u\<in>insert t (lqClock ` set qs). svActivation s' = svActivation (NewServer cy fmtDate (\<lambda>_. d') md pub file u)) \<and>
    (rpCode (fst (handleSetLicense cy fmtDate None clock body s' d')) \<noteq> 200 \<longrightarrow>
       snd (handleSetLicense cy fmtDate None clock body s' d') = (s', d'))"
proof -
  let ?s = "NewServer cy fmtDate (\<lambda>_. d) md pub file t"
  have i: "svLicenseFile ?s = file" "svModule ?s = md" "svIssuerPub ?s = pub" by (simp_all add: NewServer_def Let_def)
  then have "svActivation ?s = activation_of_file cy fmtDate ?s d t" by (simp add: activation_of_file_def)
  note run = run_license_activation [OF assms(2) _ this assms(3)]
  obtain r s2 d2 where h: "handleSetLicense cy fmtDate None clock body s' d' = (r, s2, d2)" by (metis prod_cases3)
  show ?thesis
    using run assms(1) i set_license_step(4) [OF _ h] h by (auto simp: activation_of_file_def)
qed

definition ex_requests :: "license_request list" where
  "ex_requests = [\<lparr>lqFailed = None, lqClock = 40, lqBody = Inr '' SNTL1-cA.cA ''\<rparr>, \<lparr>lqFailed = None, lqClock = 41, lqBody = Inr ''stolen''\<rparr>]"

definition ex_license_run :: "unit Server \<times> (error + string)" where
  "ex_license_run = run_license ex_crypto (\<lambda>_. []) ex_requests
     (NewServer ex_crypto (\<lambda>_. []) (\<lambda>_. Inl (Errorf ''no file'')) (ex_module\<lparr>mID := ''loglight''\<rparr>) () ''k'' 1, Inl (Errorf ''no file''))"

theorem license_survives_restart_witness:
  "acTier (svActivation (fst ex_license_run)) = TierPro \<and> snd ex_license_run = Inr (''SNTL1-cA.cA'' @ [CHR 0x0A]) \<and>
   (\<exists>u\<in>{1, 40, 41}. svActivation (fst ex_license_run) =
      svActivation (NewServer ex_crypto (\<lambda>_. []) (\<lambda>_. snd ex_license_run) (ex_module\<lparr>mID := ''loglight''\<rparr>) () ''k'' u))"
proof -
  have "acTier (svActivation (fst ex_license_run)) = TierPro" "snd ex_license_run = Inr (''SNTL1-cA.cA'' @ [CHR 0x0A])"
    by code_simp+
  moreover have "\<forall>q\<in>set ex_requests. lqFailed q = None" "insert 1 (lqClock ` set ex_requests) = {1, 40, 41}"
    by (simp_all add: ex_requests_def)
  moreover have "run_license ex_crypto (\<lambda>_. []) ex_requests
      (NewServer ex_crypto (\<lambda>_. []) (\<lambda>_. Inl (Errorf ''no file'')) (ex_module\<lparr>mID := ''loglight''\<rparr>) () ''k'' 1, Inl (Errorf ''no file'')) =
      (fst ex_license_run, snd ex_license_run)"
    by (simp only: ex_license_run_def prod.collapse)
  ultimately show ?thesis
    using license_survives_restart [of "''k''" ex_requests ex_crypto "\<lambda>_. []"] by (metis list.distinct(1))
qed

end
