(* ===== verification/App.thy ===== *)
theory App
  imports Console Web_Server
begin

text \<open>
  cmd/loglight/main.go: how the program is put together. \<open>app\<close> holds the parts the wiring connects: the
  scheduler, the ingest engine, the findings store (which also keeps the saved targets), the traffic
  graph and the web server; the detection store is the console's own state. \<open>OnSaved\<close>, \<open>OnDelete\<close>
  and \<open>boot\<close> are the callbacks and the start-up of \<^verbatim>\<open>main\<close>. Flags, signals, tickers and the
  HTTP listener are input and output; the database's errors, the row and map orders, the calendar and
  \<^verbatim>\<open>%q\<close> are in \<open>app_env\<close>.
\<close>

subsection \<open>The parts\<close>

record app_env =
  aeSql :: sql_env
  aeLog :: lsql_env
  aeQuoted :: "string \<Rightarrow> string"
  aeOrders :: snap_orders
  aeFlush :: "error option"
  aeAddDays :: "time \<Rightarrow> int \<Rightarrow> time"
  aeClock :: time

record 'pub app =
  apSched :: Scheduler
  apTasks :: "task list"
  apIngest :: ingestEngine
  apFind :: SQLiteStore
  apGraph :: Graph
  apServer :: "'pub Server"

definition collector :: Collector where
  "collector = \<lparr>clDescribe = Describe, clValidateTarget = ValidateTarget\<rparr>"

definition modID :: string where
  "modID = mID Describe"

text \<open>The product's own limits, per tier.\<close>

definition loglightTierLimits :: "Tier \<rightharpoonup> Limits" where
  "loglightTierLimits =
     [TierFree \<mapsto> \<lparr>lmMaxTargets = 1, lmRetentionDays = 3, lmChannels = [''webhook'', ''syslog'', ''file'', ''splunk-hec''],
        lmMultiUser = False, lmCustomInterval = False, lmScanNow = False\<rparr>,
      TierPro \<mapsto> \<lparr>lmMaxTargets = 10, lmRetentionDays = 30,
        lmChannels = [''webhook'', ''syslog'', ''file'', ''splunk-hec'', ''email'', ''slack'', ''telegram''],
        lmMultiUser = False, lmCustomInterval = True, lmScanNow = True\<rparr>,
      TierTeam \<mapsto> \<lparr>lmMaxTargets = 0, lmRetentionDays = 0,
        lmChannels = [''webhook'', ''syslog'', ''file'', ''splunk-hec'', ''email'', ''slack'', ''telegram'', ''pagerduty'', ''teams''],
        lmMultiUser = True, lmCustomInterval = True, lmScanNow = True\<rparr>]"

definition severity_rank :: "string \<Rightarrow> int" where
  "severity_rank sev =
     (if sev = ''critical'' then 4 else if sev = ''high'' then 3 else if sev = ''medium'' then 2 else if sev = ''low'' then 1 else 0)"

definition worstDetectionSeverity :: "'l LStore \<Rightarrow> 'l \<Rightarrow> string \<Rightarrow> string" where
  "worstDetectionSeverity ops l ip =
     (case lsListDetections ops l [] of
        Inl _ \<Rightarrow> []
      | Inr dets \<Rightarrow>
          fold (\<lambda>d worst. if drActor d \<noteq> ip \<and> drTarget d \<noteq> ip then worst
                          else if severity_rank (drSeverity d) > severity_rank worst then drSeverity d else worst) dets [])"

subsection \<open>The callbacks\<close>

definition startSource :: "app_env \<Rightarrow> LSQLiteStore \<Rightarrow> string \<Rightarrow> 'pub app \<Rightarrow> 'pub app" where
  "startSource env l name w =
     (case lsGetSource (LSql_ops (aeLog env)) l name of
        Inr (Some src) \<Rightarrow>
          (case BuildSourceWith (aeQuoted env) src of
             Inr s \<Rightarrow> w\<lparr>apIngest := Ingest_Add (source_ID s) (apIngest w)\<rparr>
           | Inl _ \<Rightarrow> w)
      | _ \<Rightarrow> w)"

definition restore_one :: "app_env \<Rightarrow> LSQLiteStore \<Rightarrow> string \<Rightarrow> 'pub app \<Rightarrow> 'pub app" where
  "restore_one env l raw w =
     (case AddTarget modID raw (apSched w) of
        (Inl _, sc, tasks) \<Rightarrow> w\<lparr>apSched := sc, apTasks := apTasks w @ tasks\<rparr>
      | (Inr _, sc, tasks) \<Rightarrow> startSource env l raw (w\<lparr>apSched := sc, apTasks := apTasks w @ tasks\<rparr>))"

definition restore :: "app_env \<Rightarrow> LSQLiteStore \<Rightarrow> 'pub app \<Rightarrow> 'pub app" where
  "restore env l w =
     (case Sql_ListSavedTargets (aeSql env) (apFind w) modID of
        Inl _ \<Rightarrow> w
      | Inr saved \<Rightarrow> fold (restore_one env l) saved w)"

definition OnSaved :: "app_env \<Rightarrow> SourceConfig \<Rightarrow> 'pub app \<Rightarrow> error option \<times> 'pub app" where
  "OnSaved env s w =
     (case BuildSourceWith (aeQuoted env) s of
        Inl err \<Rightarrow> (Some err, w)
      | Inr src \<Rightarrow>
          (case AddTarget modID (scName s) (apSched w) of
             (Inl err, sc, tasks) \<Rightarrow> (Some err, w\<lparr>apSched := sc, apTasks := apTasks w @ tasks\<rparr>)
           | (Inr _, sc, tasks) \<Rightarrow>
               (let w = w\<lparr>apSched := sc, apTasks := apTasks w @ tasks\<rparr>;
                    w = w\<lparr>apIngest := Ingest_Add (source_ID src) (apIngest w)\<rparr>;
                    (err, st) = Sql_SaveTarget (aeSql env) (apFind w) modID (scName s) (scName s)
                in (err, w\<lparr>apFind := st\<rparr>))))"

definition OnDelete :: "app_env \<Rightarrow> string \<Rightarrow> 'pub app \<Rightarrow> 'pub app" where
  "OnDelete env name w =
     (let w = w\<lparr>apIngest := Ingest_Remove name (apIngest w)\<rparr>;
          w = w\<lparr>apSched := RemoveTarget modID name (apSched w)\<rparr>
      in w\<lparr>apFind := snd (Sql_DeleteTarget (aeSql env) (apFind w) modID name)\<rparr>)"

definition traffic_map :: "app_env \<Rightarrow> LSQLiteStore \<Rightarrow> 'pub app \<Rightarrow> (error + MapData) \<times> 'pub app" where
  "traffic_map env l w =
     (let days = lmRetentionDays (effLimits (apServer w));
          since = (if days > 0 then aeAddDays env (aeClock env) (- days) else zero_time);
          (m, g) = Snapshot (aeOrders env) (aeFlush env) (seQuery (aeSql env))
                     (Some (worstDetectionSeverity (LSql_ops (aeLog env)) l)) (aeClock env) since (apGraph w)
      in (m, w\<lparr>apGraph := g\<rparr>))"

definition console :: "app_env \<Rightarrow> (LSQLiteStore, 'pub app) Console" where
  "console env =
     \<lparr>cnStore = LSql_ops (aeLog env), cnCaps = Some (\<lambda>w. lmMaxTargets (effLimits (apServer w))),
      cnOnSaved = Some (OnSaved env), cnOnDelete = Some (OnDelete env),
      cnParseRate = Some (\<lambda>w. Ingest_ParseRate (apIngest w)), cnTraffic = Some (traffic_map env), cnNow = None\<rparr>"

text \<open>The two background loops, one tick each.\<close>

definition trafficPrune_tick :: "app_env \<Rightarrow> error option \<Rightarrow> 'pub app \<Rightarrow> 'pub app" where
  "trafficPrune_tick env dberr w =
     (let days = lmRetentionDays (effLimits (apServer w))
      in if days > 0 then w\<lparr>apGraph := snd (Graph_Prune dberr (aeAddDays env (aeClock env) (- days)) (apGraph w))\<rparr> else w)"

definition prune_tick :: "app_env \<Rightarrow> LSQLiteStore \<Rightarrow> LSQLiteStore" where
  "prune_tick env l = snd (lsPruneDetections (LSql_ops (aeLog env)) l (Add (aeClock env) (- 2 * ActiveWindow)))"

text \<open>Start-up on the tables as they are, up to the running scheduler.\<close>

definition boot ::
    "('pub, 'priv) crypto \<Rightarrow> (time \<Rightarrow> string) \<Rightarrow> (string \<Rightarrow> error + string) \<Rightarrow> 'pub \<Rightarrow> string \<Rightarrow> app_env
      \<Rightarrow> LSQLiteStore \<Rightarrow> SQLiteStore \<Rightarrow> Graph \<Rightarrow> 'pub app" where
  "boot cy fmtDate read pub licFile env l st graph =
     (let sc = snd (Register collector (Sched.New
                 \<lparr>cfWorkers = 0, cfScanTimeout = 0, cfJitterFraction = Fin 0, cfRetryBase = 0, cfRetryMax = 0, cfIntervalOverride = 0\<rparr>));
          g = Ingest_Start NewIngestEngine;
          server = (NewServer cy fmtDate read Describe pub licFile (aeClock env))\<lparr>svTierLimits := Some loglightTierLimits\<rparr>;
          w = restore env l \<lparr>apSched = sc, apTasks = [], apIngest = g, apFind = st, apGraph = graph, apServer = server\<rparr>;
          (err, sc, loops) = Start (apSched w)
      in w\<lparr>apSched := sc\<rparr>)"

subsection \<open>Everything that knows a source\<close>

text \<open>The four places a source is known: the stored configuration, the scheduler, the ingest engine and
  the saved targets.\<close>

definition registered :: "Scheduler \<Rightarrow> string set \<Rightarrow> bool" where
  "registered sc S \<longleftrightarrow> (\<exists>reg. map_of (sdModules sc) modID = Some reg \<and> rgCollector reg = collector \<and>
     wf_map (rgTargets reg) \<and> (\<forall>(k, t)\<in>set (rgTargets reg). tCanonical t = k) \<and> dom (map_of (rgTargets reg)) = S)"

definition running :: "ingestEngine \<Rightarrow> string set \<Rightarrow> bool" where
  "running g S \<longleftrightarrow> ingest_inv g \<and> dom (map_of (inRunning g)) = S"

definition saved :: "SQLiteStore \<Rightarrow> string set \<Rightarrow> bool" where
  "saved st S \<longleftrightarrow> (\<exists>ns. sql_targets st modID = map (\<lambda>n. (n, n)) ns \<and> distinct ns \<and> set ns = S)"

definition proper_name :: "string \<Rightarrow> bool" where
  "proper_name n \<longleftrightarrow> n \<noteq> [] \<and> TrimSpace n = n"

definition startable :: "app_env \<Rightarrow> SourceConfig \<Rightarrow> bool" where
  "startable env c \<longleftrightarrow> proper_name (scName c) \<and> validateSource (aeQuoted env) (scType c) (scParams c) = None"

definition in_step :: "app_env \<Rightarrow> LSQLiteStore \<Rightarrow> 'pub app \<Rightarrow> bool" where
  "in_step env l w \<longleftrightarrow> lsql_sources_invar l \<and> (\<forall>n c. lsql_source (aeLog env) l n = Some c \<longrightarrow> scName c = n \<and> startable env c) \<and>
     registered (apSched w) (dom (lsql_source (aeLog env) l)) \<and> running (apIngest w) (dom (lsql_source (aeLog env) l)) \<and>
     saved (apFind w) (dom (lsql_source (aeLog env) l))"

lemma map_put_entries: "set (map_put k v m) \<subseteq> insert (k, v) (set m)"
  by (induction k v m rule: map_put.induct) auto

lemma registered_add:
  assumes "registered sc S" and "proper_name n"
  shows "\<exists>t sc' tasks. AddTarget modID n sc = (Inr t, sc', tasks) \<and> registered sc' (insert n S)"
proof -
  from assms(1) obtain reg where r: "map_of (sdModules sc) modID = Some reg" "rgCollector reg = collector" "wf_map (rgTargets reg)"
    "\<forall>(k, t)\<in>set (rgTargets reg). tCanonical t = k" "dom (map_of (rgTargets reg)) = S" by (auto simp: registered_def)
  define t where "t = \<lparr>tRaw = n, tCanonical = n, tMeta = Map.empty\<rparr>"
  have v: "clValidateTarget (rgCollector reg) n = Inr t"
    using assms(2) by (simp add: r(2) collector_def ValidateTarget_def t_def proper_name_def Let_def)
  have "\<forall>(k, u)\<in>set (map_put n t (rgTargets reg)). tCanonical u = k"
    using r(4) map_put_entries [of n t "rgTargets reg"] by (auto simp: t_def)
  then have "registered (put_target modID reg t sc) (insert n S)"
    using r by (auto simp: registered_def put_target_def t_def gomap_simps)
  then show ?thesis using r(1) v by (simp add: AddTarget_def)
qed

lemma registered_remove:
  assumes "registered sc S"
  shows "registered (RemoveTarget modID n sc) (S - {n})"
proof -
  from assms obtain reg where r: "map_of (sdModules sc) modID = Some reg" "rgCollector reg = collector" "wf_map (rgTargets reg)"
    "\<forall>(k, t)\<in>set (rgTargets reg). tCanonical t = k" "dom (map_of (rgTargets reg)) = S" by (auto simp: registered_def)
  have "set (map_del n (rgTargets reg)) \<subseteq> set (rgTargets reg)" by (auto simp: map_del_def)
  then have e: "\<forall>(k, t)\<in>set (map_del n (rgTargets reg)). tCanonical t = k" using r(4) by blast
  have "dom (map_of (map_del n (rgTargets reg))) = S - {n}" using r(5) by (auto simp: gomap_simps)
  then show ?thesis
    unfolding registered_def RemoveTarget_def r(1) option.case using r(2,3) e
    by (intro exI [of _ "reg\<lparr>rgTargets := map_del n (rgTargets reg)\<rparr>"]) (auto simp: gomap_simps)
qed

lemma running_add: "running g S \<Longrightarrow> running (Ingest_Add n g) (insert n S)"
  using ingest_inv_Add [of g n] by (auto simp: running_def Ingest_Add_def Let_def gomap_simps split: option.split)

lemma running_remove: "running g S \<Longrightarrow> running (Ingest_Remove n g) (S - {n})"
  using ingest_inv_Remove [of g n] by (auto simp: running_def Ingest_Remove_def gomap_simps split: option.split)

lemma saved_save:
  assumes "seExec env = None" and "saved st S"
  shows "\<exists>st'. Sql_SaveTarget env st modID n n = (None, st') \<and> saved st' (insert n S)"
proof -
  from assms(2) obtain ns where ns: "sql_targets st modID = map (\<lambda>n. (n, n)) ns" "distinct ns" "set ns = S" by (auto simp: saved_def)
  obtain st' where st': "Sql_SaveTarget env st modID n n = (None, st')" using assms(1) by (simp add: Sql_SaveTarget_def)
  have "sql_targets st' modID = save_spec n n (sql_targets st modID)"
    using sql_target_steps(1) [OF assms(1), of st modID n n] st' by simp
  also have "\<dots> = map (\<lambda>n. (n, n)) (if n \<in> S then ns else ns @ [n])"
    using ns by (auto simp: save_spec_def image_image)
  finally show ?thesis
    using st' ns unfolding saved_def by (intro exI [of _ st'] conjI exI [of _ "if n \<in> S then ns else ns @ [n]"]) auto
qed

lemma saved_delete:
  assumes "seExec env = None" and "saved st S"
  shows "saved (snd (Sql_DeleteTarget env st modID n)) (S - {n})"
proof -
  from assms(2) obtain ns where ns: "sql_targets st modID = map (\<lambda>n. (n, n)) ns" "distinct ns" "set ns = S" by (auto simp: saved_def)
  have "sql_targets (snd (Sql_DeleteTarget env st modID n)) modID = map (\<lambda>n. (n, n)) (filter (\<lambda>m. m \<noteq> n) ns)"
    using sql_target_steps(2) [OF assms(1), of st modID n] ns by (simp add: delete_spec_def filter_map comp_def)
  then show ?thesis using ns unfolding saved_def by (intro exI [of _ "filter (\<lambda>m. m \<noteq> n) ns"]) auto
qed

subsection \<open>The callbacks keep step\<close>

definition databases_up :: "app_env \<Rightarrow> bool" where
  "databases_up env \<longleftrightarrow> db_up (aeLog env) \<and> seExec (aeSql env) = None \<and> seQuery (aeSql env) = None"

lemma startable_builds: "startable env c \<Longrightarrow> \<exists>src. BuildSourceWith (aeQuoted env) c = Inr src \<and> source_ID src = scName c"
  using BuildSourceWith_identity [of "aeQuoted env" c] by (auto simp: startable_def)

lemma OnSaved_effect:
  assumes "databases_up env" and "startable env c" and "registered (apSched w) S" and "running (apIngest w) S" and "saved (apFind w) S"
  shows "\<exists>w'. OnSaved env c w = (None, w') \<and> registered (apSched w') (insert (scName c) S) \<and>
    running (apIngest w') (insert (scName c) S) \<and> saved (apFind w') (insert (scName c) S) \<and> apServer w' = apServer w"
proof -
  obtain src where src: "BuildSourceWith (aeQuoted env) c = Inr src" "source_ID src = scName c"
    using startable_builds [OF assms(2)] by blast
  obtain t sc' tasks where sc: "AddTarget modID (scName c) (apSched w) = (Inr t, sc', tasks)" "registered sc' (insert (scName c) S)"
    using registered_add [OF assms(3), of "scName c"] assms(2) unfolding startable_def by blast
  have "seExec (aeSql env) = None" using assms(1) by (simp add: databases_up_def)
  from saved_save [OF this assms(5), of "scName c"]
  obtain st' where st: "Sql_SaveTarget (aeSql env) (apFind w) modID (scName c) (scName c) = (None, st')" "saved st' (insert (scName c) S)"
    by (elim exE conjE)
  show ?thesis using src sc st running_add [OF assms(4)] by (simp add: OnSaved_def Let_def)
qed

lemma OnDelete_effect:
  assumes "databases_up env" and "registered (apSched w) S" and "running (apIngest w) S" and "saved (apFind w) S"
  shows "registered (apSched (OnDelete env n w)) (S - {n})" and "running (apIngest (OnDelete env n w)) (S - {n})"
    and "saved (apFind (OnDelete env n w)) (S - {n})" and "apServer (OnDelete env n w) = apServer w"
  using registered_remove [OF assms(2)] running_remove [OF assms(3)] saved_delete [OF _ assms(4)] assms(1)
  by (simp_all add: OnDelete_def Let_def databases_up_def)

datatype console_request = ReqSave time "error + saveRequest" | ReqDelete string

fun console_step :: "app_env \<Rightarrow> console_request \<Rightarrow> LSQLiteStore \<times> 'pub app \<Rightarrow> LSQLiteStore \<times> 'pub app" where
  "console_step env (ReqSave clock body) (l, w) = snd (handleSave (aeQuoted env) clock (console env) body l w)"
| "console_step env (ReqDelete q) (l, w) = snd (handleDelete (console env) q l w)"

text \<open>The parameters a request carries survive the round trip through the table's JSON column.\<close>

fun request_kept :: "app_env \<Rightarrow> console_request \<Rightarrow> bool" where
  "request_kept env (ReqSave _ (Inr req)) = params_kept (aeLog env) (case srParams req of None \<Rightarrow> Map.empty | Some p \<Rightarrow> p)"
| "request_kept env _ = True"

definition source_cap :: "'pub app \<Rightarrow> int" where
  "source_cap w = lmMaxTargets (effLimits (apServer w))"

definition within_cap :: "app_env \<Rightarrow> LSQLiteStore \<Rightarrow> 'pub app \<Rightarrow> bool" where
  "within_cap env l w \<longleftrightarrow> source_cap w \<le> 0 \<or> int (card (dom (lsql_source (aeLog env) l))) \<le> source_cap w"

lemma save_keeps_step:
  assumes "databases_up env" and "in_step env l w" and "within_cap env l w" and "request_kept env (ReqSave clock body)"
    and "handleSave (aeQuoted env) clock (console env) body l w = (r, l', w')"
  shows "in_step env l' w' \<and> within_cap env l' w' \<and> apServer w' = apServer w"
proof -
  have up: "db_up (aeLog env)" using assms(1) by (simp add: databases_up_def)
  note store = LSql_source_store [OF up]
  have inv: "lsql_sources_invar l" using assms(2) by (simp add: in_step_def)
  show ?thesis
  proof (cases rule: source_store.save_cases [OF store _ inv _ assms(5), where f = "OnSaved env"])
    case (4 src c' err)
    let ?look = "lsql_source (aeLog env)"
    have fin: "finite (dom (?look l))" by (rule source_store.finite_names [OF store inv])
    have kept: "params_kept (aeLog env) (scParams src)" using 4(2) assms(4) by auto
    have src: "startable env src" using 4(1-3) by (auto simp: startable_def proper_name_def)
    then have c': "startable env c'" "scName c' = scName src" using 4(9) kept by (auto simp: startable_def same_source_def)
    have S: "registered (apSched w) (dom (?look l))" "running (apIngest w) (dom (?look l))" "saved (apFind w) (dom (?look l))"
      using assms(2) by (simp_all add: in_step_def)
    from OnSaved_effect [OF assms(1) src S] 4(10)
    have w': "registered (apSched w') (dom (?look l'))" "running (apIngest w') (dom (?look l'))" "saved (apFind w') (dom (?look l'))"
      "apServer w' = apServer w" by (auto simp: 4(7))
    have "in_step env l' w'" using assms(2) w' c' 4(6) by (auto simp: in_step_def 4(7) split: if_splits)
    moreover have "within_cap env l' w'"
      using 4(5) assms(3) fin w'(4) by (auto simp: within_cap_def source_cap_def 4(7) insert_dom card_insert_if
          source_store.over_cap_iff [OF store _ inv] console_def domIff)
    ultimately show ?thesis using w'(4) by simp
  qed (use assms in \<open>auto simp: console_def\<close>)
qed

lemma delete_keeps_step:
  assumes "databases_up env" and "in_step env l w" and "within_cap env l w"
    and "handleDelete (console env) q l w = (r, l', w')"
  shows "in_step env l' w' \<and> within_cap env l' w' \<and> apServer w' = apServer w"
proof -
  have up: "db_up (aeLog env)" using assms(1) by (simp add: databases_up_def)
  note store = LSql_source_store [OF up]
  have inv: "lsql_sources_invar l" using assms(2) by (simp add: in_step_def)
  show ?thesis
  proof (cases rule: source_store.delete_cases [OF store _ inv _ assms(4), where f = "OnDelete env"])
    case 4
    let ?n = "TrimSpace q" and ?look = "lsql_source (aeLog env)"
    have d: "dom (?look l') = dom (?look l) - {?n}" by (auto simp: 4(3))
    have S: "registered (apSched w) (dom (?look l))" "running (apIngest w) (dom (?look l))" "saved (apFind w) (dom (?look l))"
      using assms(2) by (simp_all add: in_step_def)
    note e = OnDelete_effect [OF assms(1) S, of ?n, folded 4(4) d]
    have "card (dom (?look l')) \<le> card (dom (?look l))"
      unfolding d by (rule card_mono) (use source_store.finite_names [OF store inv] in auto)
    then have "within_cap env l' w'" using assms(3) e(4) by (auto simp: within_cap_def source_cap_def)
    moreover have "in_step env l' w'" using assms(2) e 4(2) by (auto simp: in_step_def 4(3) split: if_splits)
    ultimately show ?thesis using e(4) by simp
  qed (use assms in \<open>auto simp: console_def\<close>)
qed

definition run_console :: "app_env \<Rightarrow> console_request list \<Rightarrow> LSQLiteStore \<times> 'pub app \<Rightarrow> LSQLiteStore \<times> 'pub app" where
  "run_console env qs lw = fold (console_step env) qs lw"

lemma run_keeps_step:
  assumes "databases_up env"
  shows "in_step env l w \<Longrightarrow> within_cap env l w \<Longrightarrow> \<forall>q\<in>set qs. request_kept env q \<Longrightarrow> run_console env qs (l, w) = (l', w') \<Longrightarrow>
    in_step env l' w' \<and> within_cap env l' w' \<and> apServer w' = apServer w"
proof (induction qs arbitrary: l w)
  case (Cons q qs)
  obtain l1 w1 where q: "console_step env q (l, w) = (l1, w1)" by fastforce
  have "in_step env l1 w1 \<and> within_cap env l1 w1 \<and> apServer w1 = apServer w"
  proof (cases q)
    case (ReqSave clock body)
    then obtain r where "handleSave (aeQuoted env) clock (console env) body l w = (r, l1, w1)" using q by (metis console_step.simps(1) prod.collapse)
    from save_keeps_step [OF assms Cons(2,3) _ this] Cons(4) ReqSave show ?thesis by simp
  next
    case (ReqDelete name)
    then obtain r where "handleDelete (console env) name l w = (r, l1, w1)" using q by (metis console_step.simps(2) prod.collapse)
    from delete_keeps_step [OF assms Cons(2,3) this] show ?thesis .
  qed
  moreover have "run_console env qs (l1, w1) = (l', w')" using Cons(5) q by (simp add: run_console_def)
  ultimately show ?case using Cons.IH [of l1 w1] Cons(4) by simp
qed (simp add: run_console_def)

subsection \<open>Starting again\<close>

lemma restore_one_effect:
  assumes "databases_up env" and "lsql_sources_invar l" and "lsql_source (aeLog env) l n = Some c" and "scName c = n" and "startable env c"
    and "registered (apSched w) S" and "running (apIngest w) S"
  shows "registered (apSched (restore_one env l n w)) (insert n S)" and "running (apIngest (restore_one env l n w)) (insert n S)"
    and "apFind (restore_one env l n w) = apFind w" and "apServer (restore_one env l n w) = apServer w"
proof -
  have up: "db_up (aeLog env)" using assms(1) by (simp add: databases_up_def)
  have g: "lsGetSource (LSql_ops (aeLog env)) l n = Inr (Some c)"
    using source_store.get [OF LSql_source_store [OF up] assms(2)] assms(3) by simp
  obtain src where src: "BuildSourceWith (aeQuoted env) c = Inr src" "source_ID src = scName c"
    using startable_builds [OF assms(5)] by blast
  have "proper_name n" using assms(4,5) by (auto simp: startable_def)
  from registered_add [OF assms(6) this]
  obtain t sc' tasks where sc: "AddTarget modID n (apSched w) = (Inr t, sc', tasks)" "registered sc' (insert n S)" by blast
  have r: "restore_one env l n w = w\<lparr>apSched := sc', apTasks := apTasks w @ tasks, apIngest := Ingest_Add n (apIngest w)\<rparr>"
    by (simp add: restore_one_def startSource_def sc(1) g src assms(4))
  show "registered (apSched (restore_one env l n w)) (insert n S)" "running (apIngest (restore_one env l n w)) (insert n S)"
    "apFind (restore_one env l n w) = apFind w" "apServer (restore_one env l n w) = apServer w"
    unfolding r using sc(2) running_add [OF assms(7)] by simp_all
qed

lemma restore_all:
  assumes "databases_up env" and "lsql_sources_invar l" and "\<forall>n c. lsql_source (aeLog env) l n = Some c \<longrightarrow> scName c = n \<and> startable env c"
  shows "set ns \<subseteq> dom (lsql_source (aeLog env) l) \<Longrightarrow> registered (apSched w) S \<Longrightarrow> running (apIngest w) S \<Longrightarrow>
    registered (apSched (fold (restore_one env l) ns w)) (set ns \<union> S) \<and> running (apIngest (fold (restore_one env l) ns w)) (set ns \<union> S) \<and>
    apFind (fold (restore_one env l) ns w) = apFind w \<and> apServer (fold (restore_one env l) ns w) = apServer w"
proof (induction ns arbitrary: w S)
  case (Cons n ns)
  then obtain c where c: "lsql_source (aeLog env) l n = Some c" by auto
  note e = restore_one_effect [OF assms(1,2) c _ _ Cons(3,4)]
  have e': "registered (apSched (restore_one env l n w)) (insert n S)" "running (apIngest (restore_one env l n w)) (insert n S)"
    "apFind (restore_one env l n w) = apFind w" "apServer (restore_one env l n w) = apServer w"
    using e assms(3) c by blast+
  show ?case using Cons.IH [OF _ e'(1,2)] Cons(2) e'(3,4) by (simp add: Un_insert_right)
qed simp

lemma registered_new: "registered (snd (Register collector (Sched.New cfg))) {}"
  by (simp add: registered_def Register_def Sched.New_def collector_def Describe_def modID_def ModuleID_def Let_def gomap_simps)

lemma registered_Start: "Start sc = (err, sc', loops) \<Longrightarrow> registered sc' S = registered sc S"
  by (auto simp: Start_def registered_def split: if_splits)

lemma boot_in_step:
  assumes "databases_up env" and "lsql_sources_invar l" and "\<forall>n c. lsql_source (aeLog env) l n = Some c \<longrightarrow> scName c = n \<and> startable env c"
    and "saved st (dom (lsql_source (aeLog env) l))"
  shows "in_step env l (boot cy fmtDate read pub licFile env l st g)"
    and "apFind (boot cy fmtDate read pub licFile env l st g) = st"
    and "apServer (boot cy fmtDate read pub licFile env l st g) =
      (NewServer cy fmtDate read Describe pub licFile (aeClock env))\<lparr>svTierLimits := Some loglightTierLimits\<rparr>"
proof -
  from assms(4) obtain ns where ns: "sql_targets st modID = map (\<lambda>n. (n, n)) ns" "set ns = dom (lsql_source (aeLog env) l)"
    by (auto simp: saved_def)
  define w0 where "w0 = \<lparr>apSched = snd (Register collector (Sched.New
      \<lparr>cfWorkers = 0, cfScanTimeout = 0, cfJitterFraction = Fin 0, cfRetryBase = 0, cfRetryMax = 0, cfIntervalOverride = 0\<rparr>)),
     apTasks = [], apIngest = Ingest_Start NewIngestEngine, apFind = st, apGraph = g,
     apServer = (NewServer cy fmtDate read Describe pub licFile (aeClock env))\<lparr>svTierLimits := Some loglightTierLimits\<rparr>\<rparr>"
  have "map fst (sql_targets st modID) = ns" using ns(1) by (simp add: comp_def)
  then have "Sql_ListSavedTargets (aeSql env) st modID = Inr ns"
    using assms(1) by (simp add: Sql_ListSavedTargets_def databases_up_def sql_targets_def comp_def)
  then have r: "restore env l w0 = fold (restore_one env l) ns w0" by (simp add: restore_def w0_def)
  have "registered (apSched w0) {}" "running (apIngest w0) {}"
    using registered_new ingest_inv_new
    by (simp_all add: w0_def running_def Ingest_Start_def NewIngestEngine_def ingest_inv_def live_def)
  note f = restore_all [OF assms(1-3) _ this, of ns, unfolded ns(2) Un_empty_right, OF subset_refl, folded r]
  obtain err sc loops where s: "Start (apSched (restore env l w0)) = (err, sc, loops)" by (metis prod_cases3)
  have b: "boot cy fmtDate read pub licFile env l st g = (restore env l w0)\<lparr>apSched := sc\<rparr>"
    using s by (simp add: boot_def Let_def w0_def)
  show "in_step env l (boot cy fmtDate read pub licFile env l st g)"
    using f assms(2-4) registered_Start [OF s] by (simp add: in_step_def b w0_def)
  show "apFind (boot cy fmtDate read pub licFile env l st g) = st"
    "apServer (boot cy fmtDate read pub licFile env l st g) =
      (NewServer cy fmtDate read Describe pub licFile (aeClock env))\<lparr>svTierLimits := Some loglightTierLimits\<rparr>"
    using f by (simp_all add: b w0_def)
qed

text \<open>The names the API lists for the scheduler.\<close>

lemma registered_listed:
  assumes "iteration_order iter" and "registered sc S"
  shows "tCanonical ` set (ListTargets iter sc modID) = S"
proof -
  from assms(2) obtain reg where r: "map_of (sdModules sc) modID = Some reg" "wf_map (rgTargets reg)"
    "\<forall>(k, t)\<in>set (rgTargets reg). tCanonical t = k" "dom (map_of (rgTargets reg)) = S" by (auto simp: registered_def)
  have "tCanonical ` snd ` set (rgTargets reg) = fst ` set (rgTargets reg)" using r(3) by (force simp: image_image)
  then show ?thesis
    using r(4) by (simp add: ListTargets_def r(1) snapshotTargets_def iteration_order_set [OF assms(1)] dom_map_of_conv_image_fst)
qed

definition first_start ::
    "('pub, 'priv) crypto \<Rightarrow> (time \<Rightarrow> string) \<Rightarrow> (string \<Rightarrow> error + string) \<Rightarrow> 'pub \<Rightarrow> string \<Rightarrow> app_env \<Rightarrow> LSQLiteStore \<times> 'pub app" where
  "first_start cy fmtDate read pub licFile env =
     (let l = \<lparr>tblSources = [], tblDets = []\<rparr>
      in (l, boot cy fmtDate read pub licFile env l \<lparr>tblFindings = [], tblTargets = []\<rparr> \<lparr>gDb = [], gPend = []\<rparr>))"

lemma first_start_in_step:
  assumes "databases_up env" and "first_start cy fmtDate read pub licFile env = (l, w)"
  shows "in_step env l w" and "within_cap env l w"
proof -
  let ?l = "\<lparr>tblSources = [], tblDets = []\<rparr>"
  have e: "lsql_source (aeLog env) ?l = Map.empty" by (simp add: lsql_source_def fun_eq_iff)
  have l: "l = ?l" "w = boot cy fmtDate read pub licFile env ?l \<lparr>tblFindings = [], tblTargets = []\<rparr> \<lparr>gDb = [], gPend = []\<rparr>"
    using assms(2) by (auto simp: first_start_def Let_def)
  show "in_step env l w"
    unfolding l by (rule boot_in_step [OF assms(1)]) (simp_all add: e lsql_sources_invar_def saved_def sql_targets_def)
  show "within_cap env l w" using linear [of "source_cap w" 0] by (auto simp: within_cap_def l(1) e)
qed

subsection \<open>Properties\<close>

text \<open>C10. The parts of the program never disagree about the sources. From the first start on an empty database and
  after any sequence of console requests, saving and deleting sources, good requests and bad ones, while
  the database works: the stored configurations, the targets the scheduler lists, the instances the
  ingest engine runs and the targets saved for a restart name the same sources; no source runs
  twice; and there are never more of them than the license's limit.\<close>

theorem sources_stay_in_step:
  assumes "databases_up env" and "\<forall>q\<in>set qs. request_kept env q" and "iteration_order iter"
    and "run_console env qs (first_start cy fmtDate read pub licFile env) = (l, w)"
  shows "tCanonical ` set (ListTargets iter (apSched w) modID) = dom (lsql_source (aeLog env) l) \<and>
    dom (map_of (inRunning (apIngest w))) = dom (lsql_source (aeLog env) l) \<and> ingest_inv (apIngest w) \<and>
    (\<exists>ns. Sql_ListSavedTargets (aeSql env) (apFind w) modID = Inr ns \<and> distinct ns \<and> set ns = dom (lsql_source (aeLog env) l)) \<and>
    (lmMaxTargets (effLimits (apServer w)) > 0 \<longrightarrow> int (card (dom (lsql_source (aeLog env) l))) \<le> lmMaxTargets (effLimits (apServer w)))"
proof -
  obtain l0 w0 where 0: "first_start cy fmtDate read pub licFile env = (l0, w0)" by fastforce
  note k = run_keeps_step [OF assms(1) first_start_in_step [OF assms(1) 0] assms(2), of l w] assms(4) [unfolded 0]
  then have inv: "in_step env l w" "within_cap env l w" by blast+
  then obtain ns where ns: "sql_targets (apFind w) modID = map (\<lambda>n. (n, n)) ns" "distinct ns" "set ns = dom (lsql_source (aeLog env) l)"
    by (auto simp: in_step_def saved_def)
  have "map fst (sql_targets (apFind w) modID) = ns" using ns(1) by (simp add: comp_def)
  then have "Sql_ListSavedTargets (aeSql env) (apFind w) modID = Inr ns"
    using assms(1) by (simp add: Sql_ListSavedTargets_def databases_up_def sql_targets_def comp_def)
  then show ?thesis
    using inv ns registered_listed [OF assms(3)] by (auto simp: in_step_def running_def within_cap_def source_cap_def)
qed


definition ex_app_env :: app_env where
  "ex_app_env = \<lparr>aeSql = sql_plain, aeLog = lsql_plain, aeQuoted = (\<lambda>s. s),
     aeOrders = \<lparr>soPend = (\<lambda>xs. xs), soRows = (\<lambda>xs. xs), soPorts = (\<lambda>xs. xs)\<rparr>, aeFlush = None, aeAddDays = (\<lambda>t _. t), aeClock = 5\<rparr>"

definition ex_journal :: "string \<Rightarrow> error + saveRequest" where
  "ex_journal n = Inr \<lparr>srName = n, srType = ''journald'', srParams = None\<rparr>"

definition ex_console :: "console_request list" where
  "ex_console = [ReqSave 1 (ex_journal '' auth ''), ReqSave 2 (ex_journal ''two''), ReqSave 3 (Inl (Errorf ''eof'')), ReqDelete ''none'']"

definition ex_first :: "LSQLiteStore \<times> unit app" where
  "ex_first = first_start ex_crypto (\<lambda>_. []) (\<lambda>_. Inl (Errorf ''no file'')) () ''k'' ex_app_env"

definition ex_app :: "LSQLiteStore \<times> unit app" where
  "ex_app = run_console ex_app_env ex_console ex_first"

lemma lsql_source_dom: "dom (lsql_source env l) = swName ` set (tblSources l)"
proof -
  have "lsql_source env l n \<noteq> None \<longleftrightarrow> n \<in> swName ` set (tblSources l)" for n
    by (auto simp: lsql_source_def find_None_iff)
  then show ?thesis by blast
qed

text \<open>The example program as a value: its scheduler is kept folded, its worker configuration does not matter here.\<close>

definition ex_sd :: "Target list \<Rightarrow> Scheduler" where
  "ex_sd ts = \<lparr>sdCfg = Sched.withDefaults \<lparr>cfWorkers = 0, cfScanTimeout = 0, cfJitterFraction = Fin 0, cfRetryBase = 0, cfRetryMax = 0, cfIntervalOverride = 0\<rparr>,
     sdModules = [(modID, \<lparr>rgCollector = collector, rgInfo = Describe, rgTargets = map (\<lambda>t. (tCanonical t, t)) ts\<rparr>)], sdStarted = True, sdCanceled = False\<rparr>"

definition ex_srv :: "unit Server" where
  "ex_srv = \<lparr>svModule = Describe, svTierLimits = Some loglightTierLimits, svIssuerPub = (), svLicenseFile = ''k'', svActivation = free_activation []\<rparr>"

lemma ex_first_value:
  "ex_first = (\<lparr>tblSources = [], tblDets = []\<rparr>,
     \<lparr>apSched = ex_sd [], apTasks = [], apIngest = Ingest_Start NewIngestEngine, apFind = \<lparr>tblFindings = [], tblTargets = []\<rparr>,
      apGraph = \<lparr>gDb = [], gPend = []\<rparr>, apServer = ex_srv\<rparr>)"
  by (simp add: ex_first_def first_start_def boot_def restore_def Let_def Sql_ListSavedTargets_def ex_app_env_def sql_plain_def
      Start_def Register_def Sched.New_def collector_def Describe_def ModuleID_def modID_def ex_sd_def ex_srv_def NewServer_def
      Activate_def ex_crypto_def)

lemma ex_srv_cap: "lmMaxTargets (effLimits ex_srv) = 1"
  by (simp add: ex_srv_def effLimits_def loglightTierLimits_def free_activation_def TierFree_def TierPro_def TierTeam_def)

lemma ex_names: "TrimSpace '' auth '' = ''auth''" "TrimSpace ''auth'' = ''auth''" "TrimSpace ''auth '' = ''auth''" "TrimSpace ''two'' = ''two''"
  "TrimSpace ''none'' = ''none''" "TrimSpace ''web'' = ''web''" "TrimSpace ''{}'' \<noteq> []"
  by code_simp+

definition ex_target :: "string \<Rightarrow> Target" where
  "ex_target raw = \<lparr>tRaw = raw, tCanonical = TrimSpace raw, tMeta = Map.empty\<rparr>"

fun ex_put :: "Target \<Rightarrow> Target list \<Rightarrow> Target list" where
  "ex_put t [] = [t]"
| "ex_put t (u # us) = (if tCanonical u = tCanonical t then t # us else u # ex_put t us)"

lemma ex_put_map: "map_put (tCanonical t) t (map (\<lambda>t. (tCanonical t, t)) ts) = map (\<lambda>t. (tCanonical t, t)) (ex_put t ts)"
  by (induction ts) auto

lemma AddTarget_ex:
  "TrimSpace raw \<noteq> [] \<Longrightarrow> AddTarget modID raw (ex_sd ts) =
     (Inr (ex_target raw), ex_sd (ex_put (ex_target raw) ts), [new_task modID FromAdd (ex_target raw)])"
  using ex_put_map [of "ex_target raw" ts]
  by (simp add: AddTarget_def ex_sd_def collector_def ValidateTarget_def Let_def put_target_def ex_target_def)

definition ex_saved :: "string \<Rightarrow> unit app \<Rightarrow> Target list \<Rightarrow> unit app" where
  "ex_saved n w ts = w\<lparr>apSched := ex_sd (ex_put (ex_target n) ts), apTasks := apTasks w @ [new_task modID FromAdd (ex_target n)],
     apIngest := Ingest_Add n (apIngest w), apFind := snd (Sql_SaveTarget sql_plain (apFind w) modID n n)\<rparr>"

definition ex_source_row :: "string \<Rightarrow> time \<Rightarrow> source_row" where
  "ex_source_row n clock = \<lparr>swName = n, swType = ''journald'', swParams = ''{}'', swEnabled = 1, swCreated = (if IsZero clock then 0 else clock)\<rparr>"

lemma save_ex:
  assumes "TrimSpace n \<noteq> []" and "apSched w = ex_sd ts"
  shows "snd (handleSave (aeQuoted ex_app_env) clock (console ex_app_env) (ex_journal n) l w) =
    (if list_ex (\<lambda>v. swName v = TrimSpace n) (tblSources l) \<or> source_cap w = 0 \<or> int (length (tblSources l)) < source_cap w
     then (l\<lparr>tblSources := put_source_row (ex_source_row (TrimSpace n) clock) (tblSources l)\<rparr>, ex_saved (TrimSpace n) w ts)
     else (l, w))"
proof -
  have f: "find (\<lambda>v. swName v = TrimSpace n) (tblSources l) = None \<longleftrightarrow> \<not> list_ex (\<lambda>v. swName v = TrimSpace n) (tblSources l)"
    by (auto simp: find_None_iff list_ex_iff)
  let ?c = "\<lparr>scName = TrimSpace n, scType = ''journald'', scParams = Map.empty, scEnabled = True, scCreatedAt = clock\<rparr>"
  have "\<exists>st. Sql_SaveTarget sql_plain (apFind w) modID (TrimSpace n) (TrimSpace n) = (None, st)"
    by (simp add: Sql_SaveTarget_def sql_plain_def)
  then have o: "OnSaved ex_app_env ?c w = (None, ex_saved (TrimSpace n) w ts)"
    using assms AddTarget_ex [of "TrimSpace n" ts]
    by (auto simp: OnSaved_def BuildSourceWith_def validateSource_def NewJournaldSource_def ex_app_env_def ex_saved_def Let_def)
  have cap: "over_cap (console ex_app_env) l w (TrimSpace n) \<longleftrightarrow>
      \<not> (list_ex (\<lambda>v. swName v = TrimSpace n) (tblSources l) \<or> source_cap w = 0 \<or> int (length (tblSources l)) < source_cap w)"
    using f by (auto simp: over_cap_def console_def ex_app_env_def LSql_ops_def LSql_GetSource_def LSql_ListSources_def lsql_plain_def
        source_cap_def split: option.splits)
  let ?con = "console ex_app_env :: (LSQLiteStore, unit app) Console"
  have put: "lsPutSource (cnStore ?con) l ?c = (None, l\<lparr>tblSources := put_source_row (ex_source_row (TrimSpace n) clock) (tblSources l)\<rparr>)"
    by (simp add: console_def ex_app_env_def LSql_ops_def LSql_PutSource_def lsql_plain_def ex_source_row_def Let_def)
  have "cnOnSaved ?con = Some (OnSaved ex_app_env)" "console_now ?con clock = clock"
    by (simp_all add: console_def console_now_def)
  then show ?thesis
    using assms(1) o put by (simp add: handleSave_def ex_journal_def validateSource_def cap Let_def)
qed

lemma ex_saved_simps [simp]: "apSched (ex_saved n w ts) = ex_sd (ex_put (ex_target n) ts)" "apServer (ex_saved n w ts) = apServer w"
  "apFind (ex_saved n w ts) = snd (Sql_SaveTarget sql_plain (apFind w) modID n n)" "apIngest (ex_saved n w ts) = Ingest_Add n (apIngest w)"
  by (simp_all add: ex_saved_def)

lemma bad_ex: "snd (handleSave q clock c (Inl e) l w) = (l, w)"
  by (simp add: handleSave_def)

lemma delete_ex:
  assumes "TrimSpace n \<noteq> []"
  shows "snd (handleDelete (console ex_app_env) n l w) =
    (\<lparr>tblSources = filter (\<lambda>v. swName v \<noteq> TrimSpace n) (tblSources l), tblDets = filter (\<lambda>v. dwSource v \<noteq> TrimSpace n) (tblDets l)\<rparr>,
     OnDelete ex_app_env (TrimSpace n) w)"
  using assms by (simp add: handleDelete_def console_def ex_app_env_def LSql_ops_def LSql_DeleteSource_def lsql_plain_def Let_def)

lemma ex_app_facts: "databases_up ex_app_env" "\<forall>q\<in>set ex_console. request_kept ex_app_env q" "map swName (tblSources (fst ex_app)) = [''auth'']"
proof -
  show "databases_up ex_app_env" by (simp add: databases_up_def ex_app_env_def db_up_def lsql_plain_def sql_plain_def)
  have "params_kept lsql_plain Map.empty" using ex_names(7) by (simp add: params_kept_def lsql_plain_def)
  then show "\<forall>q\<in>set ex_console. request_kept ex_app_env q" by (simp add: ex_console_def ex_journal_def ex_app_env_def)
  show "map swName (tblSources (fst ex_app)) = [''auth'']"
    unfolding ex_app_def run_console_def ex_console_def ex_first_value
    by (simp add: save_ex [where ts = "[]"] save_ex [where ts = "[ex_target ''auth'']"] bad_ex delete_ex ex_names ex_srv_cap source_cap_def
        put_source_row_def ex_source_row_def)
qed

theorem sources_stay_in_step_witness:
  "tCanonical ` set (ListTargets rev (apSched (snd ex_app)) modID) = {''auth''} \<and> dom (map_of (inRunning (apIngest (snd ex_app)))) = {''auth''}"
proof -
  have "dom (lsql_source (aeLog ex_app_env) (fst ex_app)) = {''auth''}"
    using arg_cong [OF ex_app_facts(3), of set] by (simp add: lsql_source_dom)
  moreover have "run_console ex_app_env ex_console (first_start ex_crypto (\<lambda>_. []) (\<lambda>_. Inl (Errorf ''no file'')) () ''k'' ex_app_env) = (fst ex_app, snd ex_app)"
    by (simp only: ex_app_def ex_first_def prod.collapse)
  ultimately show ?thesis
    using sources_stay_in_step [OF ex_app_facts(1,2) iteration_order_rev] by metis
qed


subsection \<open>Where the endpoints disagree\<close>

definition Sql_target_ops :: "sql_env \<Rightarrow> SQLiteStore TargetStore" where
  "Sql_target_ops env = \<lparr>tsSaveTarget = Sql_SaveTarget env, tsDeleteTarget = Sql_DeleteTarget env, tsListSavedTargets = Sql_ListSavedTargets env\<rparr>"

text \<open>\<^verbatim>\<open>DELETE /api/targets\<close> forgets the target and leaves the source stored and running.\<close>

lemma removed_target_keeps_ingesting:
  assumes "in_step env l w" and "lsql_source (aeLog env) l n = Some c" and "n \<noteq> []" and "svModule (apServer w) = Describe"
    and "handleRemoveTarget (Some (Sql_target_ops (aeSql env))) (apServer w) n (apSched w) (apFind w) = (r, sc, st)"
  shows "rpCode r = 200" and "registered sc (dom (lsql_source (aeLog env) l) - {n})" and "n \<in> dom (map_of (inRunning (apIngest w)))"
  using assms registered_remove [of "apSched w" "dom (lsql_source (aeLog env) l)" n]
  by (auto simp: handleRemoveTarget_def in_step_def running_def modID_def)

text \<open>The tier check passes when the store cannot be read.\<close>

lemma cap_open_on_store_error:
  "lsGetSource (cnStore c) l n = Inl e \<Longrightarrow> lsListSources (cnStore c) l = Inl e' \<Longrightarrow> cnCaps c = Some caps \<Longrightarrow> caps w > 0 \<Longrightarrow> \<not> over_cap c l w n"
  by (simp add: over_cap_def)

text \<open>A target first added with surrounding space through \<^verbatim>\<open>POST /api/targets\<close> keeps that raw form when the
  source of the same name is saved; after a restart the source is not started. The two limits are
  counted apart as well: the scheduler holds more targets than the tier allows.\<close>

definition ex_spaced :: "LSQLiteStore \<times> unit app" where
  "ex_spaced =
     (let (l, w) = ex_first;
          (r, sc, tasks, st) = handleAddTarget rev (Some (Sql_target_ops sql_plain)) (apServer w) (Inr ''auth '') (apSched w) (apFind w)
      in run_console ex_app_env [ReqSave 1 (ex_journal ''auth'')] (l, w\<lparr>apSched := sc, apFind := st\<rparr>))"

lemma sql_plain_exec: "seExec sql_plain = None"
  by (simp add: sql_plain_def)

lemma add_ex:
  assumes "TrimSpace raw \<noteq> []"
  shows "handleAddTarget rev (Some (Sql_target_ops sql_plain)) ex_srv (Inr raw) (ex_sd []) st =
    (writeJSON (WCanonical (TrimSpace raw)), ex_sd [ex_target raw], [new_task modID FromAdd (ex_target raw)],
     snd (Sql_SaveTarget sql_plain st modID raw (TrimSpace raw)))"
proof -
  have m: "mID (svModule ex_srv) = modID" by (simp add: ex_srv_def modID_def)
  have "\<exists>st'. Sql_SaveTarget sql_plain st modID raw (TrimSpace raw) = (None, st')" by (simp add: Sql_SaveTarget_def sql_plain_def)
  moreover have "canAdd (effLimits ex_srv) (int (length (ListTargets rev (ex_sd []) modID)))"
    by (simp add: canAdd_def ex_srv_cap ListTargets_def ex_sd_def snapshotTargets_def)
  moreover have "tRaw (ex_target raw) = raw" "tCanonical (ex_target raw) = TrimSpace raw" by (simp_all add: ex_target_def)
  ultimately show ?thesis
    using AddTarget_ex [OF assms, of "[]"] by (auto simp: handleAddTarget_def m Sql_target_ops_def Let_def)
qed

lemma restore_unknown: "lsGetSource (LSql_ops (aeLog env)) l raw = Inr None \<Longrightarrow> apIngest (restore_one env l raw w) = apIngest w"
  by (auto simp: restore_one_def startSource_def split: prod.splits sum.splits)

lemma spaced_target_not_restored:
  "map fst (inRunning (apIngest (snd ex_spaced))) = [''auth'']"
  "map fst (inRunning (apIngest (boot ex_crypto (\<lambda>_. []) (\<lambda>_. Inl (Errorf ''no file'')) () ''k'' ex_app_env
     (fst ex_spaced) (apFind (snd ex_spaced)) \<lparr>gDb = [], gPend = []\<rparr>))) = []"
proof -
  let ?st = "\<lparr>tblFindings = [], tblTargets = [\<lparr>colTModule = modID, colTRaw = ''auth '', colTCanonical = ''auth''\<rparr>]\<rparr>"
  have v: "tblSources (fst ex_spaced) = [ex_source_row ''auth'' 1]" "apFind (snd ex_spaced) = ?st"
    and r: "apIngest (snd ex_spaced) = Ingest_Add ''auth'' (Ingest_Start NewIngestEngine)"
    by (simp_all add: ex_spaced_def ex_first_value add_ex ex_names run_console_def save_ex [where ts = "[ex_target ''auth '']"] ex_srv_cap
        source_cap_def put_source_row_def Sql_SaveTarget_def sql_plain_exec)
  show "map fst (inRunning (apIngest (snd ex_spaced))) = [''auth'']"
    by (simp add: r Ingest_Add_def Ingest_Start_def NewIngestEngine_def Let_def)
  have g: "lsGetSource (LSql_ops (aeLog ex_app_env)) (fst ex_spaced) ''auth '' = Inr None"
    by (simp add: ex_app_env_def LSql_ops_def LSql_GetSource_def lsql_plain_def v ex_source_row_def)
  have "Sql_ListSavedTargets (aeSql ex_app_env) ?st modID = Inr [''auth '']"
    by (simp add: Sql_ListSavedTargets_def ex_app_env_def sql_plain_def)
  then show "map fst (inRunning (apIngest (boot ex_crypto (\<lambda>_. []) (\<lambda>_. Inl (Errorf ''no file'')) () ''k'' ex_app_env
     (fst ex_spaced) (apFind (snd ex_spaced)) \<lparr>gDb = [], gPend = []\<rparr>))) = []"
    by (simp add: boot_def Let_def restore_def v(2) restore_unknown [OF g] Ingest_Start_def NewIngestEngine_def split: prod.splits)
qed

definition ex_two_caps :: "LSQLiteStore \<times> unit app" where
  "ex_two_caps =
     (let (l, w) = ex_first;
          (r, sc, tasks, st) = handleAddTarget rev (Some (Sql_target_ops sql_plain)) (apServer w) (Inr ''web'') (apSched w) (apFind w)
      in run_console ex_app_env [ReqSave 1 (ex_journal ''auth'')] (l, w\<lparr>apSched := sc, apFind := st\<rparr>))"

lemma limits_counted_apart:
  "lmMaxTargets (effLimits (apServer (snd ex_two_caps))) = 1 \<and> length (ListTargets rev (apSched (snd ex_two_caps)) modID) = 2"
proof -
  have "apServer (snd ex_two_caps) = ex_srv" "apSched (snd ex_two_caps) = ex_sd [ex_target ''web'', ex_target ''auth'']"
    by (simp_all add: ex_two_caps_def ex_first_value add_ex ex_names run_console_def save_ex [where ts = "[ex_target ''web'']"] ex_srv_cap
        source_cap_def put_source_row_def ex_target_def)
  then show ?thesis by (simp add: ex_srv_cap ListTargets_def ex_sd_def snapshotTargets_def)
qed

end
