(* ===== verification/Ai_Client.thy ===== *)
theory Ai_Client
  imports Http_Api Channels Trim_Laws Regexp
begin

text \<open>
  internal/aiclient: the optional assistant. evidence.go bounds what leaves the process, guard.go drops
  sentences that contradict the engine's severity, client.go asks the sidecar with retries. JSON,
  the HTTP transport and \<^verbatim>\<open>%q\<close> are arguments. A Go map is an association list with distinct
  keys; \<open>AMap []\<close> stands for a nil or empty map.
\<close>

subsection \<open>Sanitised evidence (evidence.go)\<close>

definition maxEvidenceKeys :: nat where "maxEvidenceKeys = 24"
definition maxEvidenceString :: nat where "maxEvidenceString = 400"
definition maxEvidenceList :: nat where "maxEvidenceList = 12"
definition maxEvidenceDepth :: nat where "maxEvidenceDepth = 3"

lemmas evidence_limits = maxEvidenceKeys_def maxEvidenceString_def maxEvidenceList_def maxEvidenceDepth_def

definition secretKeyMarkers :: "string list" where
  "secretKeyMarkers =
     [''password'', ''passwd'', ''passphrase'', ''secret'', ''token'', ''apikey'',
      ''api_key'', ''api-key'', ''private'', ''credential'', ''cookie'', ''session'',
      ''authorization'', ''bearer'', ''license_key'', ''licence_key'', ''signature'']"

definition isSecretKey :: "string \<Rightarrow> bool" where
  "isSecretKey k \<longleftrightarrow> (let lk = ToLower k in list_ex (Contains lk) secretKeyMarkers)"

definition truncateRunes :: "string \<Rightarrow> nat \<Rightarrow> string" where
  "truncateRunes s n =
     (let r = runes s in if length r \<le> n then s else concat (map EncodeRune (take n r)) @ u_ellipsis)"

definition too_deep :: any where
  "too_deep = AStr ''[omitted: nested too deep]''"

definition not_serialisable :: any where
  "not_serialisable = AStr ''[omitted: not serialisable]''"

definition kept_keys :: "(string \<times> 'v) list \<Rightarrow> string list" where
  "kept_keys m = take maxEvidenceKeys (sort (filter (\<lambda>k. \<not> isSecretKey k) (map fst m)))"

text \<open>The loop over the kept keys of one map, given the sanitised values.\<close>

definition pick :: "string list \<Rightarrow> (string \<times> any) list \<Rightarrow> (string \<times> any) list" where
  "pick ks m = map (\<lambda>k. (k, case map_of m k of Some v \<Rightarrow> v | None \<Rightarrow> ANil)) ks"

function (sequential) sanitizeValue :: "any \<Rightarrow> nat \<Rightarrow> any" where
  "sanitizeValue (AStr s) depth = AStr (truncateRunes s maxEvidenceString)"
| "sanitizeValue (AMap m) depth =
     (if depth \<ge> maxEvidenceDepth then too_deep
      else AMap (pick (kept_keys m) (map (\<lambda>kv. (fst kv, sanitizeValue (snd kv) (depth + 1))) m)))"
| "sanitizeValue (AList vs) depth =
     (if depth \<ge> maxEvidenceDepth then too_deep
      else AList (map (\<lambda>v. sanitizeValue v (depth + 1)) (take maxEvidenceList vs)))"
| "sanitizeValue (AStrs ss) depth = AList (map (\<lambda>s. AStr (truncateRunes s maxEvidenceString)) (take maxEvidenceList ss))"
| "sanitizeValue (AOther None) depth = not_serialisable"
| "sanitizeValue (AOther (Some v)) depth = sanitizeValue v depth"
| "sanitizeValue v depth = v"
  by pat_completeness auto

termination
proof (relation "measure (size \<circ> fst)", goal_cases)
  case (2 m depth kv)
  then show ?case by (cases kv) (auto dest: size_list_estimation' [where f = "size_prod (\<lambda>_. 0) size", OF _ order_refl])
next
  case (3 vs depth v)
  then have "size v \<le> size_list size vs" by (intro size_list_estimation' [OF _ order_refl]) (auto dest: in_set_takeD)
  then show ?case by simp
qed simp_all

text \<open>\<open>None\<close> is the nil map.\<close>

definition sanitizeMap :: "evidence option \<Rightarrow> nat \<Rightarrow> evidence option" where
  "sanitizeMap m depth =
     (case m of
        None \<Rightarrow> None
      | Some m \<Rightarrow>
          if kept_keys m = [] then None
          else Some (pick (kept_keys m) (map (\<lambda>kv. (fst kv, sanitizeValue (snd kv) depth)) m)))"

definition SanitizeEvidence :: "evidence option \<Rightarrow> evidence option" where
  "SanitizeEvidence m = sanitizeMap m 1"

subsection \<open>What leaves the process\<close>

lemma EncodeRune_length: "length (EncodeRune r) \<le> 4"
  by (simp add: EncodeRune_def)

lemma DecodeRune_le_4: "DecodeRune s = (r, w) \<Longrightarrow> w \<le> 4"
  by (auto simp: DecodeRune_def dest: lead_bounds split: list.splits if_splits option.splits prod.splits)

lemma length_runes: "length s \<le> 4 * length (runes s)"
proof (induction s rule: length_induct)
  case (1 s)
  show ?case
  proof (cases "s = []")
    case False
    obtain r w where d: "DecodeRune s = (r, w)" by fastforce
    have w: "1 \<le> w" "w \<le> length s" "w \<le> 4" using DecodeRune_width [OF False d] DecodeRune_le_4 [OF d] by auto
    have "length (drop w s) < length s" using w by simp
    with 1 have "length (drop w s) \<le> 4 * length (runes (drop w s))" by blast
    then show ?thesis unfolding runes_step [OF False d] using w by simp
  qed simp
qed

lemma length_concat_le: "\<forall>x\<in>set xs. length (f x) \<le> k \<Longrightarrow> length (concat (map f xs)) \<le> k * length xs"
  by (induction xs) auto

lemma truncateRunes_length: "length (truncateRunes s n) \<le> 4 * n + 3"
proof (cases "length (runes s) \<le> n")
  case True
  then show ?thesis using length_runes [of s] by (simp add: truncateRunes_def Let_def)
next
  case False
  have "length (concat (map EncodeRune (take n (runes s)))) \<le> 4 * length (take n (runes s))"
    by (rule length_concat_le) (simp add: EncodeRune_length)
  then show ?thesis using False by (simp add: truncateRunes_def Let_def u_ellipsis_def min_def)
qed

text \<open>At most \<open>n\<close> levels of containers, every map small, without a secret-like key, every list and string short.\<close>

fun clean :: "nat \<Rightarrow> any \<Rightarrow> bool" where
  "clean n (AStr s) \<longleftrightarrow> length s \<le> 1603"
| "clean (Suc n) (AMap m) \<longleftrightarrow> length m \<le> 24 \<and> sorted (map fst m) \<and> (\<forall>kv\<in>set m. \<not> isSecretKey (fst kv) \<and> clean n (snd kv))"
| "clean (Suc n) (AList vs) \<longleftrightarrow> length vs \<le> 12 \<and> (\<forall>v\<in>set vs. clean n v)"
| "clean n ANil \<longleftrightarrow> True"
| "clean n (ABool _) \<longleftrightarrow> True"
| "clean n (AInt _) \<longleftrightarrow> True"
| "clean n (AFloat _) \<longleftrightarrow> True"
| "clean n v \<longleftrightarrow> False"

lemma kept_keys_props:
  "length (kept_keys m) \<le> 24" "sorted (kept_keys m)" "k \<in> set (kept_keys m) \<Longrightarrow> \<not> isSecretKey k \<and> k \<in> fst ` set m"
  by (auto simp: kept_keys_def evidence_limits sorted_wrt_take dest: in_set_takeD)

lemma pick_clean:
  assumes "\<And>kv. kv \<in> set m \<Longrightarrow> clean n (f (snd kv))"
  shows "clean (Suc n) (AMap (pick (kept_keys m) (map (\<lambda>kv. (fst kv, f (snd kv))) m)))"
proof -
  have "clean n (case map_of (map (\<lambda>kv. (fst kv, f (snd kv))) m) k of Some v \<Rightarrow> v | None \<Rightarrow> ANil)" for k
    using assms by (auto split: option.split dest!: map_of_SomeD)
  then show ?thesis using kept_keys_props(1,2) [of m] kept_keys_props(3) [of _ m] by (auto simp: pick_def comp_def)
qed

lemma sanitizeValue_clean: "1 \<le> d \<Longrightarrow> d \<le> 3 \<Longrightarrow> clean (4 - d) (sanitizeValue v d)"
proof (induction v d rule: sanitizeValue.induct)
  case (1 s d)
  then show ?case using truncateRunes_length [of s 400] by (simp add: evidence_limits)
next
  case (2 m d)
  show ?case
  proof (cases "d = 3")
    case False
    then have d: "\<not> maxEvidenceDepth \<le> d" "4 - d = Suc (4 - (d + 1))" using 2(3) by (simp_all add: evidence_limits)
    have "clean (4 - (d + 1)) (sanitizeValue (snd kv) (d + 1))" if "kv \<in> set m" for kv
      using 2(1) [OF d(1) that] 2(3) False by simp
    from pick_clean [where f = "\<lambda>v. sanitizeValue v (d + 1)", OF this] show ?thesis using d by simp
  qed (simp add: evidence_limits too_deep_def)
next
  case (3 vs d)
  show ?case
  proof (cases "d = 3")
    case False
    then have d: "\<not> maxEvidenceDepth \<le> d" "4 - d = Suc (4 - (d + 1))" using 3(3) by (simp_all add: evidence_limits)
    have "clean (4 - (d + 1)) (sanitizeValue v (d + 1))" if "v \<in> set (take maxEvidenceList vs)" for v
      using 3(1) [OF d(1) that] 3(3) False by simp
    then show ?thesis using d by (simp add: evidence_limits)
  qed (simp add: evidence_limits too_deep_def)
next
  case (4 ss d)
  then obtain n where n: "4 - d = Suc n" by (cases "4 - d") auto
  have "length (truncateRunes s 400) \<le> 1603" for s using truncateRunes_length [of s 400] by simp
  then show ?case by (simp add: n evidence_limits)
qed (simp_all add: not_serialisable_def)

text \<open>The evidence with every value under a secret-like key removed, at every level.\<close>

fun public :: "any \<Rightarrow> any" where
  "public (AMap m) = AMap (filter (\<lambda>kv. \<not> isSecretKey (fst kv)) (map (\<lambda>kv. (fst kv, public (snd kv))) m))"
| "public (AList vs) = AList (map public vs)"
| "public (AOther (Some v)) = AOther (Some (public v))"
| "public v = v"

definition public_evidence :: "evidence \<Rightarrow> evidence" where
  "public_evidence m = filter (\<lambda>kv. \<not> isSecretKey (fst kv)) (map (\<lambda>kv. (fst kv, public (snd kv))) m)"

lemma kept_keys_public: "kept_keys (filter (\<lambda>kv. \<not> isSecretKey (fst kv)) (map (\<lambda>kv. (fst kv, g (snd kv))) m)) = kept_keys m"
  by (simp add: kept_keys_def filter_map comp_def)

lemma map_of_public:
  "\<not> isSecretKey k \<Longrightarrow> (\<And>kv. kv \<in> set m \<Longrightarrow> f (g (snd kv)) = f (snd kv)) \<Longrightarrow>
   map_of (map (\<lambda>kv. (fst kv, f (snd kv))) (filter (\<lambda>kv. \<not> isSecretKey (fst kv)) (map (\<lambda>kv. (fst kv, g (snd kv))) m))) k =
   map_of (map (\<lambda>kv. (fst kv, f (snd kv))) m) k"
  by (induction m) auto

lemma pick_public:
  assumes "\<And>kv. kv \<in> set m \<Longrightarrow> f (g (snd kv)) = f (snd kv)"
  shows "pick (kept_keys m) (map (\<lambda>kv. (fst kv, f (snd kv))) (filter (\<lambda>kv. \<not> isSecretKey (fst kv)) (map (\<lambda>kv. (fst kv, g (snd kv))) m))) =
    pick (kept_keys m) (map (\<lambda>kv. (fst kv, f (snd kv))) m)"
  unfolding pick_def using map_of_public [of _ m f g] assms kept_keys_props(3) [of _ m] by (intro map_cong) auto

lemma sanitize_public: "sanitizeValue (public v) d = sanitizeValue v d"
proof (induction v d rule: sanitizeValue.induct)
  case (2 m d)
  then show ?case by (auto simp: kept_keys_public intro!: pick_public)
qed (auto simp: take_map)

lemma evidence_clean: "SanitizeEvidence (Some m) = Some m' \<Longrightarrow> clean 4 (AMap m')"
proof -
  assume h: "SanitizeEvidence (Some m) = Some m'"
  have "clean 3 (sanitizeValue (snd kv) 1)" for kv :: "string \<times> any" using sanitizeValue_clean [of 1 "snd kv"] by simp
  from pick_clean [of m 3 "\<lambda>v. sanitizeValue v 1", OF this]
  have "clean 4 (AMap (pick (kept_keys m) (map (\<lambda>kv. (fst kv, sanitizeValue (snd kv) 1)) m)))" by (simp add: numeral_eq_Suc)
  then show ?thesis using h by (auto simp: SanitizeEvidence_def sanitizeMap_def split: if_splits)
qed

lemma evidence_public: "SanitizeEvidence (map_option public_evidence e) = SanitizeEvidence e"
proof (cases e)
  case (Some m)
  have "pick (kept_keys m) (map (\<lambda>kv. (fst kv, sanitizeValue (snd kv) 1)) (public_evidence m)) =
      pick (kept_keys m) (map (\<lambda>kv. (fst kv, sanitizeValue (snd kv) 1)) m)"
    unfolding public_evidence_def using pick_public [of m "\<lambda>v. sanitizeValue v 1" public] by (simp add: sanitize_public)
  moreover have "kept_keys (public_evidence m) = kept_keys m" unfolding public_evidence_def by (rule kept_keys_public)
  ultimately show ?thesis by (simp add: SanitizeEvidence_def sanitizeMap_def Some)
qed (simp add: SanitizeEvidence_def sanitizeMap_def)

text \<open>C24. What is sent to the assistant is bounded and free of secrets. For every evidence map the sanitised copy has at most four
  levels of containers, maps of at most 24 keys in sorted order, none of which is secret-like at any
  level, lists of at most 12 items and strings of at most 1603 bytes; and it does not depend on any
  value stored under a secret-like key, at any depth: removing them all beforehand gives the same copy.\<close>

theorem evidence_bounded_and_secret_free:
  "(\<forall>m. SanitizeEvidence e = Some m \<longrightarrow> clean 4 (AMap m)) \<and>
   SanitizeEvidence (map_option public_evidence e) = SanitizeEvidence e"
  using evidence_clean evidence_public [of e] by (cases e) (auto simp: SanitizeEvidence_def sanitizeMap_def)

definition ex_evidence :: evidence where
  "ex_evidence = [(''src'', AStr ''203.0.113.9''), (''API_Token'', AStr ''hunter2''),
     (''request'', AMap [(''path'', AStr ''/login''), (''Cookie'', AStr ''sid=1'')])]"

lemma ToLower_ascii: "list_all (\<lambda>c. Utf8.byte c < 128) s \<Longrightarrow> ToLower s = map (\<lambda>c. byte_char (lower_rune (Utf8.byte c))) s"
  unfolding ToLower_def by (rule MapRunes_ascii) (auto simp: lower_rune_def list_all_iff)

lemma length_runes_fuel: "length (runes_fuel n s) \<le> n"
  by (induction n s rule: runes_fuel.induct) (auto split: prod.splits)

lemma truncateRunes_short: "length s \<le> n \<Longrightarrow> truncateRunes s n = s"
  using length_runes_fuel [of "length s" s] by (simp add: truncateRunes_def Let_def runes_def)

lemma lowered:
  assumes "list_all (\<lambda>c. Utf8.byte c < 128) s" and "map (\<lambda>c. lower_rune (Utf8.byte c)) s = map Utf8.byte t"
  shows "ToLower s = t"
proof -
  have "ToLower s = map byte_char (map (\<lambda>c. lower_rune (Utf8.byte c)) s)" using ToLower_ascii [OF assms(1)] by simp
  also have "\<dots> = t" unfolding assms(2) by (simp add: comp_def)
  finally show ?thesis .
qed

lemma ex_keys: "\<not> isSecretKey ''src''" "isSecretKey ''API_Token''" "\<not> isSecretKey ''request''" "\<not> isSecretKey ''path''" "isSecretKey ''Cookie''"
proof -
  have low: "ToLower ''src'' = ''src''" "ToLower ''API_Token'' = ''api_token''" "ToLower ''request'' = ''request''"
    "ToLower ''path'' = ''path''" "ToLower ''Cookie'' = ''cookie''"
    by (rule lowered; simp add: Utf8.byte_def lower_rune_def)+
  show "\<not> isSecretKey ''src''" "isSecretKey ''API_Token''" "\<not> isSecretKey ''request''" "\<not> isSecretKey ''path''" "isSecretKey ''Cookie''"
    unfolding isSecretKey_def Let_def low by (simp_all add: secretKeyMarkers_def HasPrefix_def)
qed

theorem evidence_bounded_and_secret_free_witness:
  "SanitizeEvidence (Some ex_evidence) = Some [(''request'', AMap [(''path'', AStr ''/login'')]), (''src'', AStr ''203.0.113.9'')] \<and>
   clean 4 (AMap [(''request'', AMap [(''path'', AStr ''/login'')]), (''src'', AStr ''203.0.113.9'')])"
proof -
  have "SanitizeEvidence (Some ex_evidence) = Some [(''request'', AMap [(''path'', AStr ''/login'')]), (''src'', AStr ''203.0.113.9'')]"
  proof -
    have "sort [''src'', ''request''] = [''request'', ''src'']" by code_simp
    then show ?thesis
      by (simp add: SanitizeEvidence_def sanitizeMap_def ex_evidence_def kept_keys_def pick_def ex_keys evidence_limits truncateRunes_short)
  qed
  with evidence_bounded_and_secret_free [of "Some ex_evidence"] show ?thesis by blast
qed

text \<open>Keys are not cut: a map key of any length passes.\<close>

lemma long_keys_pass: "\<not> isSecretKey k \<Longrightarrow> SanitizeEvidence (Some [(k, ANil)]) = Some [(k, ANil)]"
  by (simp add: SanitizeEvidence_def sanitizeMap_def kept_keys_def pick_def evidence_limits)

subsection \<open>Packets (types.go, evidence.go)\<close>

definition CanonicalDisclaimer :: string where
  "CanonicalDisclaimer = ''AI-generated summary '' @ u_dash @ '' verify against raw findings''"

definition FeatureExplainFinding :: string where
  "FeatureExplainFinding = ''hexward.explain_finding''"

record CoreFinding =
  cfFingerprint :: string
  cfModule :: string
  cfCheck :: string
  cfTitle :: string
  cfTarget :: string
  cfSeverity :: string
  cfStatus :: string
  cfRemediation :: string
  cfEvidence :: "evidence option"

record EvidencePacket =
  epFeature :: string
  epProduct :: string
  epFinding :: string
  epLanguage :: string

record Explanation =
  exText :: string
  exWhatToVerify :: "string list"
  exDisclaimer :: string

definition NormalizeLanguage :: "string \<Rightarrow> string" where
  "NormalizeLanguage lang =
     (let l = ToLower (TrimSpace lang);
          l = map (\<lambda>c. if c = CHR ''_'' then CHR ''-'' else c) l
      in if l = ''id'' \<or> l = ''in'' \<or> l = ''ind'' \<or> HasPrefix l ''id-'' \<or>
            l = ''indonesian'' \<or> l = ''bahasa'' \<or> l = ''bahasa indonesia'' then ''id'' else ''en'')"

definition bounded_finding :: "CoreFinding \<Rightarrow> CoreFinding" where
  "bounded_finding f =
     f\<lparr>cfTitle := truncateRunes (cfTitle f) maxEvidenceString, cfTarget := truncateRunes (cfTarget f) maxEvidenceString,
       cfRemediation := truncateRunes (cfRemediation f) (2 * maxEvidenceString), cfEvidence := SanitizeEvidence (cfEvidence f)\<rparr>"

definition NewFindingPacket :: "(CoreFinding \<Rightarrow> error + string) \<Rightarrow> string \<Rightarrow> string \<Rightarrow> CoreFinding \<Rightarrow> error + EvidencePacket" where
  "NewFindingPacket marshal product language f =
     (if TrimSpace product = [] then Inl (Errorf ''aiclient: product is required'')
      else if TrimSpace (cfCheck f) = [] \<or> TrimSpace (cfTitle f) = [] \<or> TrimSpace (cfSeverity f) = []
      then Inl (Errorf ''aiclient: finding needs check, title and severity'')
      else case marshal (bounded_finding f) of
             Inl err \<Rightarrow> Inl (Errorf (''aiclient: marshal finding: '' @ errString err))
           | Inr raw \<Rightarrow> Inr \<lparr>epFeature = FeatureExplainFinding, epProduct = product, epFinding = raw,
                            epLanguage = NormalizeLanguage language\<rparr>)"

end
