(* ===== verification/Ai_Explain.thy ===== *)
theory Ai_Explain
  imports Ai_Client
begin

text \<open>
  internal/aiclient/guard.go and client.go: asking the sidecar. The request is built as the code builds
  it, prompt included; \<open>ai_net\<close> holds what is outside: the JSON codec, \<^verbatim>\<open>http.NewRequest\<close>, the
  transport (one answer per attempt) and the context. \<open>Explain\<close> returns the explanation or an error,
  together with the number of requests it sent.
\<close>

subsection \<open>The severity guard (guard.go)\<close>

definition severityWords :: "string list" where
  "severityWords = [''critical'', ''high'', ''medium'', ''moderate'', ''low'', ''info'', ''informational'']"

definition sentence_end :: re where
  "sentence_end = RCls [(33, 33), (46, 46), (63, 63)]"

definition sentenceSplit :: re where
  "sentenceSplit = rseq [rplus (RNot [(33, 33), (46, 46), (63, 63)]), rstar sentence_end, rstar space_re]"

text \<open>\<^verbatim>\<open>FindAllString(s, -1)\<close> for an expression that never matches the empty string; the position
  grows in every round, so \<open>Suc (length s)\<close> rounds are enough.\<close>

fun find_all :: "re \<Rightarrow> string \<Rightarrow> nat \<Rightarrow> nat \<Rightarrow> string list" where
  "find_all r s 0 pos = []"
| "find_all r s (Suc n) pos =
     (case find (\<lambda>i. rmatch r s i \<noteq> []) [pos..<Suc (length s)] of
        None \<Rightarrow> []
      | Some i \<Rightarrow> (let j = fst (hd (rmatch r s i)) in slice s i j # find_all r s n (max (Suc i) j)))"

definition FindAllString :: "re \<Rightarrow> string \<Rightarrow> string list" where
  "FindAllString r s = find_all r s (Suc (length s)) 0"

definition same_severity :: "string \<Rightarrow> string list" where
  "same_severity engine =
     engine # (if engine = ''info'' \<or> engine = ''informational'' then [''info'', ''informational'']
               else if engine = ''medium'' \<or> engine = ''moderate'' then [''medium'', ''moderate''] else [])"

definition conflicting :: "string \<Rightarrow> string list" where
  "conflicting engine = filter (\<lambda>w. w \<notin> set (same_severity engine)) severityWords"

definition conflict_re :: "string list \<Rightarrow> re" where
  "conflict_re words =
     (let alt = ralts (map rlit_ci words);
          noun = ralts (map rlit_ci [''severity'', ''risk'', ''priority'']);
          link = ralts [rlit_ci ''is'', rlit_ci ''of'', rseq [rlit_ci ''level'', rplus space_re, rlit_ci ''is''],
                        rseq [rlit_ci ''rating'', rplus space_re, rlit_ci ''is'']]
      in RAlt (rseq [RWordB, alt, rplus (RCls [(9, 10), (12, 13), (32, 32), (45, 45)]), noun, RWordB])
              (rseq [RWordB, noun, rplus space_re, ropt link, rstar space_re, alt, RWordB]))"

definition dropConflictingSeverity :: "string \<Rightarrow> string \<Rightarrow> string" where
  "dropConflictingSeverity txt engineSeverity =
     (let engine = ToLower (TrimSpace engineSeverity)
      in if engine = [] \<or> txt = [] then txt
         else let re = conflict_re (conflicting engine);
                  kept = filter (\<lambda>s. \<not> MatchString re s) (FindAllString sentenceSplit txt);
                  out = TrimSpace (concat kept)
              in if out = [] then txt else out)"

subsection \<open>The client (client.go)\<close>

definition defaultTimeout :: duration where "defaultTimeout = 20 * second"
definition defaultMaxRetries :: int where "defaultMaxRetries = 2"
definition defaultRetryBackoff :: duration where "defaultRetryBackoff = 400 * 1000000"
definition defaultModel :: string where "defaultModel = ''hexward-ai''"
definition defaultMaxTokens :: int where "defaultMaxTokens = 512"
definition DefaultBaseURL :: string where "DefaultBaseURL = ''http://127.0.0.1:8435''"

datatype sentinel = ErrUnavailable | ErrInvalidRequest | ErrInvalidResponse

text \<open>An error with what \<^verbatim>\<open>errors.Is\<close> and \<^verbatim>\<open>errors.As\<close> find in its chain.\<close>

record ai_error =
  erSentinel :: "sentinel option"
  erRetryable :: bool
  erText :: string

definition IsUnavailable :: "ai_error \<Rightarrow> bool" where
  "IsUnavailable err \<longleftrightarrow> erSentinel err = Some ErrUnavailable"

fun sentinel_text :: "sentinel \<Rightarrow> string" where
  "sentinel_text ErrUnavailable = ''aiclient: hexward-ai sidecar unavailable''"
| "sentinel_text ErrInvalidRequest = ''aiclient: hexward-ai rejected the request''"
| "sentinel_text ErrInvalidResponse = ''aiclient: hexward-ai returned an unparsable response''"

definition wrap_error :: "sentinel \<Rightarrow> bool \<Rightarrow> string \<Rightarrow> ai_error" where
  "wrap_error s retry msg = \<lparr>erSentinel = Some s, erRetryable = retry, erText = sentinel_text s @ '': '' @ msg\<rparr>"

definition plain_error :: "string \<Rightarrow> ai_error" where
  "plain_error msg = \<lparr>erSentinel = None, erRetryable = False, erText = msg\<rparr>"

record Client =
  acBaseURL :: string
  acModel :: string
  acTimeout :: duration
  acMaxRetries :: int
  acRetryBackoff :: duration
  acGrammar :: string
  acMaxTokens :: int
  acAPIKey :: string
  acNoThinking :: bool

type_synonym Option = "Client \<Rightarrow> Client"

definition WithModel :: "string \<Rightarrow> Option" where
  "WithModel model c = (if model \<noteq> [] then c\<lparr>acModel := model\<rparr> else c)"

definition WithTimeout :: "duration \<Rightarrow> Option" where
  "WithTimeout d c = (if d > 0 then c\<lparr>acTimeout := d\<rparr> else c)"

definition WithMaxRetries :: "int \<Rightarrow> Option" where
  "WithMaxRetries n c = (if n \<ge> 0 then c\<lparr>acMaxRetries := n\<rparr> else c)"

definition WithRetryBackoff :: "duration \<Rightarrow> Option" where
  "WithRetryBackoff d c = (if d > 0 then c\<lparr>acRetryBackoff := d\<rparr> else c)"

definition WithGrammar :: "string \<Rightarrow> Option" where
  "WithGrammar gbnf c = c\<lparr>acGrammar := gbnf\<rparr>"

definition WithMaxTokens :: "int \<Rightarrow> Option" where
  "WithMaxTokens n c = (if n > 0 then c\<lparr>acMaxTokens := n\<rparr> else c)"

definition WithAPIKey :: "string \<Rightarrow> Option" where
  "WithAPIKey apiKey c = c\<lparr>acAPIKey := TrimSpace apiKey\<rparr>"

definition WithDisableThinking :: Option where
  "WithDisableThinking c = c\<lparr>acNoThinking := True\<rparr>"

definition TrimRightChar :: "char \<Rightarrow> string \<Rightarrow> string" where
  "TrimRightChar ch s = rev (dropWhile (\<lambda>c. c = ch) (rev s))"

definition new_client :: "string \<Rightarrow> Option list \<Rightarrow> Client" where
  "new_client baseURL opts =
     (let baseURL = (if baseURL = [] then DefaultBaseURL else baseURL);
          c = \<lparr>acBaseURL = TrimRightChar CHR ''/'' baseURL, acModel = defaultModel, acTimeout = defaultTimeout,
               acMaxRetries = defaultMaxRetries, acRetryBackoff = defaultRetryBackoff, acGrammar = [],
               acMaxTokens = defaultMaxTokens, acAPIKey = [], acNoThinking = False\<rparr>
      in fold (\<lambda>opt c. opt c) opts c)"

subsection \<open>The request\<close>

definition prompt_line1 :: string where
  \<open>prompt_line1 =
     ''You are the Hexward AI Assist narrator. You will receive one JSON evidence packet describing a single security finding that a Hexward product's own'' @
     '' deterministic engine already produced.''\<close>

definition prompt_line2 :: string where
  \<open>prompt_line2 =
     ''Rules you must follow exactly:''\<close>

definition prompt_line3 :: string where
  \<open>prompt_line3 =
     ''1. Use ONLY the fields inside the evidence packet. Do not state any fact (an ID, a rule number, an IP address, a hostname, a CVE identifier, a date,'' @
     '' or any other specific value) that is not present in the packet. Do not calculate, convert, round or re-express numbers and dates (no "that is about'' @
     '' 11 years"); quote them exactly as the packet gives them. If something relevant is not in the packet, say plainly that the evidence does not contain'' @
     '' it.''\<close>

definition prompt_line4 :: string where
  \<open>prompt_line4 =
     ''2. You narrate; you do not decide. Never invent a new finding, never change or imply a different severity, never claim something is fixed, safe, or'' @
     '' dangerous beyond what the packet already states.''\<close>

definition prompt_line5 :: string where
  \<open>prompt_line5 =
     ''3. If the feature is hexward.explain_finding: explain in plain language what the finding means, using only its check, title, target, severity,'' @
     '' status, remediation and evidence fields, and why it matters to the owner of that target. Keep the explanation to at most four sentences. In'' @
     '' what_to_verify give two to four concrete checks a person can actually perform before acting (for example: confirm who owns the target, confirm the'' @
     '' change window, re-run the check after the fix) '' @
     u_dash @
     '' do not simply restate evidence values as list items. You may restate the packet's own remediation text; never invent a different fix, command, or'' @
     '' configuration.''\<close>

definition prompt_line6 :: string where
  \<open>prompt_line6 =
     ''4. If the feature is rulehawk.explain_finding: explain in plain language why the rule relationship in the packet matters, and list what a human'' @
     '' should verify before touching the rule. Never draft a replacement rule or CLI command.''\<close>

definition prompt_line7 :: string where
  \<open>prompt_line7 =
     ''5. If the feature is auditlight.why_disappeared: explain, using only the packet's "status" field and its plain meaning (fixed / no_longer_detected /'' @
     '' check_failed / target_skipped), which of those happened and what that means for how much the report can be trusted. Never claim "fixed" for any'' @
     '' other status value.''\<close>

definition prompt_line8 :: string where
  \<open>prompt_line8 =
     ''6. Respond with a single JSON object matching the required schema exactly: {"explanation": string, "what_to_verify": [string, ...], "disclaimer":'' @
     '' string}. No prose outside the JSON object.''\<close>

definition systemPrompt :: string where
  "systemPrompt = prompt_line1 @ nl @ [] @ nl @ prompt_line2 @ nl @ prompt_line3 @ nl @ prompt_line4 @ nl @ prompt_line5 @ nl @ prompt_line6 @ nl @ prompt_line7 @ nl @ prompt_line8"

definition languageInstruction :: "string \<Rightarrow> string" where
  \<open>languageInstruction lang =
     (if lang = ''id'' then
     ''Write the "explanation" and every "what_to_verify" item in Bahasa Indonesia. Keep rule text, hostnames, IP addresses, identifiers and other field'' @
     '' values exactly as they appear in the packet '' @
     u_dash @
     '' do not translate them.''
      else ''Write the "explanation" and every "what_to_verify" item in English.'')\<close>

record chatMessage =
  cmRole :: string
  cmContent :: string

record chatCompletionRequest =
  crModel :: string
  crMessages :: "chatMessage list"
  crTemperature :: f64
  crGrammar :: string
  crMaxTokens :: int
  crEnableThinking :: "bool option"

record chatCompletionResponse =
  cpChoices :: "chatMessage list"
  cpError :: "string option"

text \<open>The outside of the client. \<open>anDo k\<close> answers the \<open>k\<close>-th attempt with a transport error or with a
  status and the outcome of reading the body; \<open>anCtx k\<close> is the context's error while waiting
  before attempt \<open>k\<close>.\<close>

record ai_net =
  anPacket :: "EvidencePacket \<Rightarrow> error + string"
  anSeverity :: "string \<Rightarrow> string option"
  anQuoted :: "string \<Rightarrow> string"
  anRequest :: "chatCompletionRequest \<Rightarrow> error + string"
  anNewRequest :: "string \<Rightarrow> error option"
  anDo :: "nat \<Rightarrow> string \<Rightarrow> (string \<times> string) list \<Rightarrow> string \<Rightarrow> error + int \<times> (error + string)"
  anParse :: "string \<Rightarrow> chatCompletionResponse option"
  anExplanation :: "string \<Rightarrow> Explanation option"
  anCtx :: "nat \<Rightarrow> error option"

definition findingSeverity :: "ai_net \<Rightarrow> EvidencePacket \<Rightarrow> string" where
  "findingSeverity net ev =
     (if epFeature ev \<noteq> FeatureExplainFinding then []
      else case anSeverity net (epFinding ev) of None \<Rightarrow> [] | Some sev \<Rightarrow> TrimSpace sev)"

definition severityInstruction :: "ai_net \<Rightarrow> EvidencePacket \<Rightarrow> string" where
  "severityInstruction net ev =
     (let sev = findingSeverity net ev
      in if sev = [] then []
         else ''The engine rated this finding '' @ anQuoted net sev @
           ''. If you mention severity, use exactly that word; never call it higher or lower. '')"

definition truncate_bytes :: "string \<Rightarrow> nat \<Rightarrow> string" where
  "truncate_bytes s n = (if length s \<le> n then s else take n s @ u_ellipsis)"

definition doRequest :: "ai_net \<Rightarrow> nat \<Rightarrow> Client \<Rightarrow> chatCompletionRequest \<Rightarrow> ai_error + Explanation" where
  "doRequest net k c req =
     (case anRequest net req of
        Inl err \<Rightarrow> Inl (plain_error (''aiclient: marshal request: '' @ errString err))
      | Inr body \<Rightarrow>
          (let url = acBaseURL c @ ''/v1/chat/completions'';
               headers = (''Content-Type'', ''application/json'') #
                 (if acAPIKey c \<noteq> [] then [(''Authorization'', ''Bearer '' @ acAPIKey c)] else [])
           in case anNewRequest net url of
                Some err \<Rightarrow> Inl (plain_error (''aiclient: build request: '' @ errString err))
              | None \<Rightarrow>
                  (case anDo net k url headers body of
                     Inl err \<Rightarrow> Inl \<lparr>erSentinel = None, erRetryable = True,
                                  erText = ''aiclient: request to '' @ acBaseURL c @ '': '' @ errString err\<rparr>
                   | Inr (_, Inl err) \<Rightarrow> Inl \<lparr>erSentinel = None, erRetryable = True,
                                           erText = ''aiclient: read response body: '' @ errString err\<rparr>
                   | Inr (status, Inr full) \<Rightarrow>
                       (let respBody = take (2 ^ 20) full;
                            shown = truncate_bytes respBody 300
                        in if status \<ge> 500 then Inl (wrap_error ErrUnavailable True (''HTTP '' @ itoa status @ '': '' @ shown))
                           else if status \<ge> 400 then Inl (wrap_error ErrInvalidRequest False (''HTTP '' @ itoa status @ '': '' @ shown))
                           else case anParse net respBody of
                                  None \<Rightarrow> Inl (wrap_error ErrInvalidResponse False (''not valid JSON: '' @ shown))
                                | Some parsed \<Rightarrow>
                                    (case cpError parsed of
                                       Some msg \<Rightarrow> Inl (wrap_error ErrUnavailable True (''sidecar reported an error: '' @ msg))
                                     | None \<Rightarrow>
                                         (case cpChoices parsed of
                                            [] \<Rightarrow> Inl (wrap_error ErrInvalidResponse False ''response had no choices'')
                                          | msg # _ \<Rightarrow>
                                              (case anExplanation net (cmContent msg) of
                                                 None \<Rightarrow> Inl (wrap_error ErrInvalidResponse False
                                                   (''model content was not the required JSON schema: '' @ truncate_bytes (cmContent msg) 300))
                                               | Some e \<Rightarrow>
                                                   if TrimSpace (exText e) = []
                                                   then Inl (wrap_error ErrInvalidResponse False ''empty explanation field'')
                                                   else Inr e)))))))"

definition chat_request :: "ai_net \<Rightarrow> Client \<Rightarrow> EvidencePacket \<Rightarrow> string \<Rightarrow> chatCompletionRequest" where
  "chat_request net c ev payload =
     \<lparr>crModel = acModel c,
      crMessages =
        [\<lparr>cmRole = ''system'', cmContent = systemPrompt @ nl @ ''7. '' @ languageInstruction (epLanguage ev)\<rparr>,
         \<lparr>cmRole = ''user'', cmContent = payload @ nl @ nl @ severityInstruction net ev @ languageInstruction (epLanguage ev)\<rparr>],
      crTemperature = f64_round (1 / 5), crGrammar = acGrammar c, crMaxTokens = acMaxTokens c,
      crEnableThinking = (if acNoThinking c then Some False else None)\<rparr>"

text \<open>The retry loop: \<open>n\<close> attempts are left, \<open>k\<close> were made.\<close>

fun explain_loop ::
    "ai_net \<Rightarrow> Client \<Rightarrow> chatCompletionRequest \<Rightarrow> string \<Rightarrow> nat \<Rightarrow> nat \<Rightarrow> string \<Rightarrow> (ai_error + Explanation) \<times> nat" where
  "explain_loop net c req sev 0 k lastErr =
     (Inl \<lparr>erSentinel = Some ErrUnavailable, erRetryable = False,
           erText = sentinel_text ErrUnavailable @ '' (after '' @ itoa (acMaxRetries c + 1) @ '' attempt(s)): '' @ lastErr\<rparr>, k)"
| "explain_loop net c req sev (Suc n) k lastErr =
     (case (if k > 0 then anCtx net k else None) of
        Some err \<Rightarrow> (Inl (plain_error (errString err)), k)
      | None \<Rightarrow>
          (case doRequest net k c req of
             Inr e \<Rightarrow>
               (let e = (if sev \<noteq> [] then e\<lparr>exText := dropConflictingSeverity (exText e) sev\<rparr> else e)
                in (Inr (e\<lparr>exDisclaimer := CanonicalDisclaimer\<rparr>), Suc k))
           | Inl err \<Rightarrow>
               if \<not> erRetryable err then (Inl err, Suc k)
               else explain_loop net c req sev n (Suc k) (erText err)))"

definition Explain :: "ai_net \<Rightarrow> Client \<Rightarrow> EvidencePacket \<Rightarrow> (ai_error + Explanation) \<times> nat" where
  "Explain net c ev =
     (if epFeature ev = [] then (Inl (plain_error ''aiclient: EvidencePacket.Feature is required''), 0)
      else if epProduct ev = [] then (Inl (plain_error ''aiclient: EvidencePacket.Product is required''), 0)
      else if epFinding ev = [] then (Inl (plain_error ''aiclient: EvidencePacket.Finding is required''), 0)
      else let ev = ev\<lparr>epLanguage := NormalizeLanguage (epLanguage ev)\<rparr>
           in case anPacket net ev of
                Inl err \<Rightarrow> (Inl (plain_error (''aiclient: marshal evidence packet: '' @ errString err)), 0)
              | Inr payload \<Rightarrow>
                  explain_loop net c (chat_request net c ev payload) (findingSeverity net ev) (nat (acMaxRetries c + 1)) 0 ''<nil>'')"

subsection \<open>The retry loop\<close>

definition retryable :: "ai_error + 'a \<Rightarrow> bool" where
  "retryable r \<longleftrightarrow> (case r of Inl err \<Rightarrow> erRetryable err | Inr _ \<Rightarrow> False)"

definition polished :: "string \<Rightarrow> Explanation \<Rightarrow> Explanation" where
  "polished sev e =
     (if sev \<noteq> [] then e\<lparr>exText := dropConflictingSeverity (exText e) sev\<rparr> else e)\<lparr>exDisclaimer := CanonicalDisclaimer\<rparr>"

lemma explain_loop_bound: "snd (explain_loop net c req sev n k e) \<le> k + n"
  by (induction net c req sev n k e rule: explain_loop.induct) (auto simp: Let_def split: option.splits sum.splits)

lemma explain_loop_answer:
  "fst (explain_loop net c req sev n k e) = Inr x \<Longrightarrow> \<exists>j<k + n. \<exists>y. doRequest net j c req = Inr y \<and> x = polished sev y"
proof (induction net c req sev n k e rule: explain_loop.induct)
  case (2 net c req sev n k e)
  show ?case
  proof (cases "doRequest net k c req")
    case (Inl err)
    then have "erRetryable err" "fst (explain_loop net c req sev n (Suc k) (erText err)) = Inr x"
      and o: "(if k > 0 then anCtx net k else None) = None"
      using 2(2) by (auto split: option.splits if_splits)
    from 2(1) [OF o Inl] this show ?thesis by auto
  next
    case (Inr y)
    then have "x = polished sev y" using 2(2) by (auto simp: polished_def Let_def split: option.splits if_splits)
    with Inr show ?thesis by (intro exI [of _ k]) simp
  qed
qed simp

lemma explain_loop_first:
  assumes "\<And>i. anCtx net i = None"
  shows "j < n \<Longrightarrow> (\<And>i. i < j \<Longrightarrow> retryable (doRequest net (k + i) c req)) \<Longrightarrow> \<not> retryable (doRequest net (k + j) c req) \<Longrightarrow>
    explain_loop net c req sev n k e = (map_sum (\<lambda>err. err) (polished sev) (doRequest net (k + j) c req), Suc (k + j))"
proof (induction n arbitrary: j k e)
  case (Suc n)
  show ?case
  proof (cases j)
    case 0
    then show ?thesis using Suc.prems(3) assms by (auto simp: retryable_def polished_def Let_def split: sum.splits)
  next
    case (Suc i)
    have "retryable (doRequest net k c req)" using Suc.prems(2) [of 0] Suc by simp
    then obtain err where err: "doRequest net k c req = Inl err" "erRetryable err" by (auto simp: retryable_def split: sum.splits)
    have "explain_loop net c req sev n (Suc k) (erText err) =
        (map_sum (\<lambda>err. err) (polished sev) (doRequest net (Suc k + i) c req), Suc (Suc k + i))"
      using Suc.prems(1,3) Suc.prems(2) [of "Suc _"] Suc by (intro Suc.IH) simp_all
    then show ?thesis using err Suc assms by (cases k) simp_all
  qed
qed simp

lemma explain_loop_exhausted:
  assumes "\<And>i. anCtx net i = None"
  shows "(\<And>i. i < n \<Longrightarrow> retryable (doRequest net (k + i) c req)) \<Longrightarrow>
    \<exists>err. explain_loop net c req sev n k e = (Inl err, k + n) \<and> IsUnavailable err"
proof (induction n arbitrary: k e)
  case (Suc n)
  obtain err where err: "doRequest net k c req = Inl err" "erRetryable err"
    using Suc.prems [of 0] by (auto simp: retryable_def split: sum.splits)
  have "\<exists>err'. explain_loop net c req sev n (Suc k) (erText err) = (Inl err', Suc k + n) \<and> IsUnavailable err'"
    using Suc.prems [of "Suc _"] by (intro Suc.IH) simp
  then show ?case using err assms by (cases k) simp_all
qed (simp add: IsUnavailable_def)

text \<open>C26. Asking the assistant always ends, and always the same way. Whatever the sidecar does, at most \<open>maxRetries + 1\<close>
  requests are sent, and every explanation that is returned is one the sidecar gave, guarded and
  with the canonical disclaimer. While the context lives, the first attempt that does not fail for a
  retryable reason decides: its explanation or its error is returned and nothing more is sent; and when
  every attempt fails for a retryable reason the error says the sidecar is unavailable.\<close>

theorem explain_ends:
  assumes "epFeature ev \<noteq> []" and "epProduct ev \<noteq> []" and "epFinding ev \<noteq> []" and "0 \<le> acMaxRetries c"
    and "anPacket net (ev\<lparr>epLanguage := NormalizeLanguage (epLanguage ev)\<rparr>) = Inr payload"
  defines "req \<equiv> chat_request net c (ev\<lparr>epLanguage := NormalizeLanguage (epLanguage ev)\<rparr>) payload"
    and "sev \<equiv> findingSeverity net ev" and "n \<equiv> nat (acMaxRetries c + 1)"
  shows "snd (Explain net c ev) \<le> n \<and>
    (\<forall>x. fst (Explain net c ev) = Inr x \<longrightarrow> exDisclaimer x = CanonicalDisclaimer \<and> (\<exists>j<n. \<exists>y. doRequest net j c req = Inr y \<and> x = polished sev y)) \<and>
    ((\<forall>i. anCtx net i = None) \<longrightarrow>
      (\<forall>j<n. (\<forall>i<j. retryable (doRequest net i c req)) \<and> \<not> retryable (doRequest net j c req) \<longrightarrow>
         Explain net c ev = (map_sum (\<lambda>err. err) (polished sev) (doRequest net j c req), Suc j)) \<and>
      ((\<forall>j<n. retryable (doRequest net j c req)) \<longrightarrow> (\<exists>err. Explain net c ev = (Inl err, n) \<and> IsUnavailable err)))"
proof -
  have f: "findingSeverity net (ev\<lparr>epLanguage := l\<rparr>) = sev" for l by (simp add: findingSeverity_def sev_def)
  have e: "Explain net c ev = explain_loop net c req sev n 0 ''<nil>''"
    using assms(1-3,5) by (simp add: Explain_def req_def n_def Let_def f)
  have "exDisclaimer (polished sev y) = CanonicalDisclaimer" for y by (simp add: polished_def)
  then show ?thesis
    unfolding e using explain_loop_bound [of net c req sev n 0] explain_loop_answer [of net c req sev n 0 "''<nil>''"]
      explain_loop_first [of net _ n 0 c req sev "''<nil>''"] explain_loop_exhausted [of net n 0 c req sev "''<nil>''"] by auto
qed

definition ex_net :: "(nat \<Rightarrow> error + int \<times> (error + string)) \<Rightarrow> ai_net" where
  "ex_net answers = \<lparr>anPacket = (\<lambda>_. Inr ''{}''), anSeverity = (\<lambda>_. None), anQuoted = (\<lambda>s. s), anRequest = (\<lambda>_. Inr ''{}''),
     anNewRequest = (\<lambda>_. None), anDo = (\<lambda>k _ _ _. answers k), anParse = (\<lambda>b. Some \<lparr>cpChoices = [\<lparr>cmRole = ''assistant'', cmContent = b\<rparr>], cpError = None\<rparr>),
     anExplanation = (\<lambda>s. Some \<lparr>exText = s, exWhatToVerify = [], exDisclaimer = ''trust me''\<rparr>), anCtx = (\<lambda>_. None)\<rparr>"

definition ex_packet :: EvidencePacket where
  "ex_packet = \<lparr>epFeature = FeatureExplainFinding, epProduct = ''loglight'', epFinding = ''{}'', epLanguage = []\<rparr>"

definition ex_flaky :: ai_net where
  "ex_flaky = ex_net (\<lambda>k. if k = 0 then Inl (Errorf ''connection refused'') else Inr (200, Inr ''Fine''))"

theorem explain_ends_witness:
  "Explain ex_flaky (new_client [] []) ex_packet =
     (Inr \<lparr>exText = ''Fine'', exWhatToVerify = [], exDisclaimer = CanonicalDisclaimer\<rparr>, 2)"
proof -
  let ?c = "new_client [] []" and ?ev = "ex_packet\<lparr>epLanguage := NormalizeLanguage (epLanguage ex_packet)\<rparr>"
  let ?req = "chat_request ex_flaky ?c ?ev ''{}''"
  have h: "epFeature ex_packet \<noteq> []" "epProduct ex_packet \<noteq> []" "epFinding ex_packet \<noteq> []" "acMaxRetries ?c = 2"
    by (simp_all add: ex_packet_def FeatureExplainFinding_def new_client_def defaultMaxRetries_def Let_def)
  have net: "anPacket ex_flaky ?ev = Inr ''{}''" "\<forall>i. anCtx ex_flaky i = None" "findingSeverity ex_flaky ex_packet = []"
    by (simp_all add: ex_flaky_def ex_net_def findingSeverity_def)
  have t: "TrimSpace ''Fine'' = ''Fine''" by code_simp
  have r: "retryable (doRequest ex_flaky 0 ?c ?req)"
    by (simp add: doRequest_def ex_flaky_def ex_net_def retryable_def Let_def)
  have a: "doRequest ex_flaky 1 ?c ?req = Inr \<lparr>exText = ''Fine'', exWhatToVerify = [], exDisclaimer = ''trust me''\<rparr>"
    by (simp add: doRequest_def ex_flaky_def ex_net_def Let_def t)
  then have "\<not> retryable (doRequest ex_flaky 1 ?c ?req)" by (simp add: retryable_def)
  then have "Explain ex_flaky ?c ex_packet = (map_sum (\<lambda>err. err) (polished []) (doRequest ex_flaky 1 ?c ?req), Suc 1)"
    using explain_ends [OF h(1-3) _ net(1), of ?c] h(4) net(2,3) r by simp
  then show ?thesis unfolding a by (simp add: polished_def numeral_2_eq_2)
qed

lemma Explain_runs_loop:
  obtains err where "Explain net c ev = (Inl err, 0)"
  | req sev where "Explain net c ev = explain_loop net c req sev (nat (acMaxRetries c + 1)) 0 ''<nil>''"
proof (cases "epFeature ev = [] \<or> epProduct ev = [] \<or> epFinding ev = []")
  case True
  then have "\<exists>err. Explain net c ev = (Inl err, 0)" by (auto simp: Explain_def)
  then show thesis using that(1) by blast
next
  case False
  then show thesis
    using that by (cases "anPacket net (ev\<lparr>epLanguage := NormalizeLanguage (epLanguage ev)\<rparr>)") (simp_all add: Explain_def Let_def)
qed

lemma Explain_bound: "snd (Explain net c ev) \<le> nat (acMaxRetries c + 1)"
proof (cases rule: Explain_runs_loop [of net c ev])
  case (2 req sev)
  then show ?thesis using explain_loop_bound [of net c req sev "nat (acMaxRetries c + 1)" 0] by simp
qed simp

lemma explain_loop_sent: "fst (explain_loop net c req sev n k e) = Inr x \<Longrightarrow> 0 < snd (explain_loop net c req sev n k e)"
  by (induction net c req sev n k e rule: explain_loop.induct) (auto simp: Let_def split: option.splits sum.splits if_splits)

lemma Explain_answer:
  assumes "Explain net c ev = (Inr x, k)"
  shows "exDisclaimer x = CanonicalDisclaimer \<and> 0 < k"
proof (cases rule: Explain_runs_loop [of net c ev])
  case (2 req sev)
  have h: "fst (explain_loop net c req sev (nat (acMaxRetries c + 1)) 0 ''<nil>'') = Inr x" using assms 2 by simp
  from explain_loop_answer [OF h] obtain y where "x = polished sev y" by blast
  then show ?thesis using explain_loop_sent [OF h] assms 2 by (simp add: polished_def)
qed (use assms in simp)

end
