(* ===== verification/Ai_Assist.thy ===== *)
theory Ai_Assist
  imports Ai_Explain Web_Server
begin

text \<open>
  web/ai.go: the assistant behind the dashboard. Off is the default; a keyed endpoint needs a paid tier,
  checked on every request; every failure after the request is validated is an ordinary answer that
  says the assistant is not available. None of the handlers returns a store: they cannot change one.
\<close>

record AIConfig =
  aiURL :: string
  aiKeyFile :: string
  aiLanguage :: string
  aiNoThinking :: bool

record AIAssist =
  asClient :: "Client option"
  asEndpoint :: string
  asKeyed :: bool
  asLanguage :: string

text \<open>\<open>parseURL\<close> returns the scheme and the host of a URL, \<open>read\<close> the contents of a file.\<close>

definition NewAIAssist ::
    "(string \<Rightarrow> error + string \<times> string) \<Rightarrow> (string \<Rightarrow> error + string) \<Rightarrow> (string \<Rightarrow> string) \<Rightarrow> AIConfig \<Rightarrow> error + AIAssist option" where
  "NewAIAssist parseURL read quoted cfg =
     (let raw = TrimSpace (aiURL cfg)
      in if raw = [] then Inr None
         else if (case parseURL raw of Inl _ \<Rightarrow> True | Inr (scheme, host) \<Rightarrow> (scheme \<noteq> ''http'' \<and> scheme \<noteq> ''https'') \<or> host = [])
         then Inl (Errorf (''ai-assist-url must be an http(s) base URL such as http://127.0.0.1:8435, got '' @ quoted raw))
         else let opts = [WithTimeout (120 * second), WithMaxRetries 0, WithMaxTokens 300];
                  endpoint = TrimRightChar CHR ''/'' raw;
                  lang = NormalizeLanguage (aiLanguage cfg);
                  finish = (\<lambda>opts keyed. Inr (Some
                    \<lparr>asClient = Some (new_client endpoint (opts @ (if aiNoThinking cfg then [WithDisableThinking] else []))),
                     asEndpoint = endpoint, asKeyed = keyed, asLanguage = lang\<rparr>))
              in if aiKeyFile cfg = [] then finish opts False
                 else case read (aiKeyFile cfg) of
                        Inl err \<Rightarrow> Inl (Errorf (''read ai-assist-key-file: '' @ errString err))
                      | Inr b \<Rightarrow>
                          let apiKey = TrimSpace b
                          in if apiKey = [] then Inl (Errorf (''ai-assist-key-file '' @ aiKeyFile cfg @ '' is empty''))
                             else finish (opts @ [WithAPIKey apiKey]) True)"

definition aiAllowed :: "AIAssist option \<Rightarrow> 'pub Server \<Rightarrow> bool \<times> string" where
  "aiAllowed ai s =
     (case ai of
        None \<Rightarrow> (False, ''AI Assist is off. Start with -ai-assist-url to enable it.'')
      | Some a \<Rightarrow>
          if asClient a = None then (False, ''AI Assist is off. Start with -ai-assist-url to enable it.'')
          else let t = acTier (svActivation s)
               in if asKeyed a \<and> t \<noteq> TierPro \<and> t \<noteq> TierTeam
                  then (False, ''A dedicated AI host or your own endpoint (API key) needs a Pro or Team licence. The free edition works with a hexward-ai sidecar on the same host.'')
                  else (True, []))"

record aiStatusResponse =
  arEnabled :: bool
  arReason :: string
  arLanguage :: string
  arKeyed :: bool

definition handleAIStatus :: "AIAssist option \<Rightarrow> 'pub Server \<Rightarrow> aiStatusResponse" where
  "handleAIStatus ai s =
     (let (ok, reason) = aiAllowed ai s
      in case ai of
           None \<Rightarrow> \<lparr>arEnabled = ok, arReason = reason, arLanguage = [], arKeyed = False\<rparr>
         | Some a \<Rightarrow> \<lparr>arEnabled = ok, arReason = reason, arLanguage = asLanguage a, arKeyed = asKeyed a\<rparr>)"

record explainResponse =
  erAvailable :: bool
  erReason :: string
  erExplanation :: string
  erWhatToVerify :: "string list"
  erDisclaimer :: string

datatype explain_body = EError string | EExplain explainResponse

definition unavailable :: "string \<Rightarrow> explain_body reply" where
  "unavailable reason = answer StatusOK (EExplain
     \<lparr>erAvailable = False, erReason = reason, erExplanation = [], erWhatToVerify = [], erDisclaimer = []\<rparr>)"

definition core_finding :: "'pub Server \<Rightarrow> Record \<Rightarrow> CoreFinding" where
  "core_finding s rec =
     \<lparr>cfFingerprint = fFingerprint rec, cfModule = mID (svModule s), cfCheck = fCheck rec, cfTitle = fTitle rec,
      cfTarget = fTarget rec, cfSeverity = fSeverity rec, cfStatus = fStatus rec, cfRemediation = fRemediation rec,
      cfEvidence = fEvidence rec\<rparr>"

text \<open>Also returned: the number of requests sent to the sidecar.\<close>

definition handleExplainFinding ::
    "'s Store \<Rightarrow> (CoreFinding \<Rightarrow> error + string) \<Rightarrow> ai_net \<Rightarrow> AIAssist option \<Rightarrow> 'pub Server \<Rightarrow> error + string \<Rightarrow> 's \<Rightarrow> explain_body reply \<times> nat" where
  "handleExplainFinding ops marshal net ai s body st =
     (if (case body of Inl _ \<Rightarrow> True | Inr fp \<Rightarrow> TrimSpace fp = [])
      then (answer StatusBadRequest (EError ''fingerprint is required''), 0)
      else let fp = (case body of Inr fp \<Rightarrow> fp | Inl _ \<Rightarrow> [])
           in case opGet ops st (mID (svModule s)) fp of
                Inl _ \<Rightarrow> (answer StatusInternalServerError (EError ''store error''), 0)
              | Inr None \<Rightarrow> (answer StatusNotFound (EError ''no such finding''), 0)
              | Inr (Some rec) \<Rightarrow>
                  (case aiAllowed ai s of
                     (False, reason) \<Rightarrow> (unavailable reason, 0)
                   | (True, _) \<Rightarrow>
                       (case NewFindingPacket marshal (mID (svModule s)) (asLanguage (the ai)) (core_finding s rec) of
                          Inl _ \<Rightarrow> (unavailable ''This finding has no title or severity to explain.'', 0)
                        | Inr packet \<Rightarrow>
                            (case Explain net (the (asClient (the ai))) packet of
                               (Inl _, k) \<Rightarrow> (unavailable ''The AI Assist sidecar did not answer. The finding is unaffected.'', k)
                             | (Inr e, k) \<Rightarrow> (answer StatusOK (EExplain
                                 \<lparr>erAvailable = True, erReason = [], erExplanation = exText e, erWhatToVerify = exWhatToVerify e,
                                  erDisclaimer = exDisclaimer e\<rparr>), k)))))"

subsection \<open>What the assistant may do\<close>

lemma NewAIAssist_some:
  assumes "NewAIAssist parseURL read quoted cfg = Inr (Some a)"
  obtains c where "asClient a = Some c" and "acMaxRetries c = 0" and "asKeyed a \<longleftrightarrow> aiKeyFile cfg \<noteq> []"
    and "acAPIKey c \<noteq> [] \<longleftrightarrow> asKeyed a" and "TrimSpace (aiURL cfg) \<noteq> []"
  using assms
  by (auto simp: NewAIAssist_def Let_def new_client_def WithTimeout_def WithMaxRetries_def WithMaxTokens_def WithAPIKey_def
      WithDisableThinking_def second_def split: if_splits sum.splits prod.splits)

lemma NewFindingPacket_public:
  "NewFindingPacket marshal p l (f\<lparr>cfEvidence := map_option public_evidence (cfEvidence f)\<rparr>) = NewFindingPacket marshal p l f"
  using evidence_public [of "cfEvidence f"] by (simp add: NewFindingPacket_def bounded_finding_def)

text \<open>C25. The assistant is off, local or paid for, and never more than a narrator. For every configuration the program accepts,
  a request to explain a finding sends at most one request to the sidecar, and none unless a URL is configured
  and, where that endpoint needs a key, the tier is Pro or Team at that moment; the key is attached
  exactly for a keyed endpoint. A finding that exists is always answered with 200, and an explanation
  shown carries the canonical disclaimer. What was stored under secret-like keys has no influence on the
  answer or on what is sent.\<close>

theorem ai_assist_gated:
  assumes "NewAIAssist parseURL read quoted cfg = Inr ai" and "handleExplainFinding ops marshal net ai s body st = (r, k)"
  shows "k \<le> 1 \<and>
    (k > 0 \<longrightarrow> TrimSpace (aiURL cfg) \<noteq> [] \<and> (aiKeyFile cfg \<noteq> [] \<longrightarrow> acTier (svActivation s) = TierPro \<or> acTier (svActivation s) = TierTeam)) \<and>
    (\<forall>a c. ai = Some a \<and> asClient a = Some c \<longrightarrow> (acAPIKey c \<noteq> [] \<longleftrightarrow> aiKeyFile cfg \<noteq> [])) \<and>
    (\<forall>x. rpBody r = EExplain x \<and> erAvailable x \<longrightarrow> erDisclaimer x = CanonicalDisclaimer \<and> k = 1) \<and>
    (\<forall>fp rec. body = Inr fp \<and> TrimSpace fp \<noteq> [] \<and> opGet ops st (mID (svModule s)) fp = Inr (Some rec) \<longrightarrow> rpCode r = 200 \<and>
       NewFindingPacket marshal (mID (svModule s)) l (core_finding s (rec\<lparr>fEvidence := map_option public_evidence (fEvidence rec)\<rparr>)) =
       NewFindingPacket marshal (mID (svModule s)) l (core_finding s rec))"
proof -
  have pub: "NewFindingPacket marshal p l (core_finding s (rec\<lparr>fEvidence := map_option public_evidence (fEvidence rec)\<rparr>)) =
      NewFindingPacket marshal p l (core_finding s rec)" for p and rec :: Record
    using NewFindingPacket_public [of marshal p l "core_finding s rec"] by (simp add: core_finding_def)
  show ?thesis
  proof (cases ai)
    case None
    then show ?thesis using assms(2) pub
      by (auto simp: handleExplainFinding_def aiAllowed_def unavailable_def Let_def split: sum.splits option.splits if_splits)
  next
    case (Some a)
    obtain c where c: "asClient a = Some c" "acMaxRetries c = 0" "asKeyed a \<longleftrightarrow> aiKeyFile cfg \<noteq> []" "acAPIKey c \<noteq> [] \<longleftrightarrow> asKeyed a"
      "TrimSpace (aiURL cfg) \<noteq> []" by (rule NewAIAssist_some [OF assms(1) [unfolded Some]])
    have b: "snd (Explain net c ev) \<le> 1" for ev using Explain_bound [of net c ev] c(2) by simp
    have e: "exDisclaimer x = CanonicalDisclaimer \<and> j = 1" if "Explain net c ev = (Inr x, j)" for ev x j
      using Explain_answer [OF that] b [of ev] that by simp
    show ?thesis
      using assms(2) pub c b e
      by (auto simp: handleExplainFinding_def aiAllowed_def unavailable_def Let_def Some split: sum.splits option.splits if_splits prod.splits)
        (metis b snd_conv)+
  qed
qed

definition ex_ai_config :: AIConfig where
  "ex_ai_config = \<lparr>aiURL = ''http://ai.lan'', aiKeyFile = ''key'', aiLanguage = ''en'', aiNoThinking = False\<rparr>"

definition ex_ai :: AIAssist where
  "ex_ai = \<lparr>asClient = Some (new_client ''http://ai.lan'' [WithTimeout (120 * second), WithMaxRetries 0, WithMaxTokens 300, WithAPIKey ''sk'']),
     asEndpoint = ''http://ai.lan'', asKeyed = True, asLanguage = NormalizeLanguage ''en''\<rparr>"

theorem ai_assist_gated_witness:
  "snd (handleExplainFinding (Sql_ops sql_plain) (\<lambda>_. Inr ''{}'') ex_flaky (Some ex_ai) ex_server (Inr ''a1'') \<lparr>tblFindings = [ex_row], tblTargets = []\<rparr>) = 0 \<and>
   rpCode (fst (handleExplainFinding (Sql_ops sql_plain) (\<lambda>_. Inr ''{}'') ex_flaky (Some ex_ai) ex_server (Inr ''a1'') \<lparr>tblFindings = [ex_row], tblTargets = []\<rparr>)) = 200"
proof -
  let ?st = "\<lparr>tblFindings = [ex_row], tblTargets = []\<rparr>"
  have t: "TrimSpace ''http://ai.lan'' = ''http://ai.lan''" "TrimSpace ''sk'' = ''sk''" "TrimSpace ''a1'' \<noteq> []" by code_simp+
  have n: "NewAIAssist (\<lambda>_. Inr (''http'', ''ai.lan'')) (\<lambda>_. Inr ''sk'') (\<lambda>s. s) ex_ai_config = Inr (Some ex_ai)"
    by (simp add: NewAIAssist_def ex_ai_config_def ex_ai_def t Let_def TrimRightChar_def)
  obtain r k where h: "handleExplainFinding (Sql_ops sql_plain) (\<lambda>_. Inr ''{}'') ex_flaky (Some ex_ai) ex_server (Inr ''a1'') ?st = (r, k)" by fastforce
  have "opGet (Sql_ops sql_plain) ?st (mID (svModule ex_server)) ''a1'' \<noteq> Inr None" by code_simp
  moreover have "\<exists>found. opGet (Sql_ops sql_plain) ?st (mID (svModule ex_server)) ''a1'' = Inr found" by (simp add: Sql_ops_def Sql_Get_def sql_plain_def)
  ultimately obtain rec where g: "opGet (Sql_ops sql_plain) ?st (mID (svModule ex_server)) ''a1'' = Inr (Some rec)" by fastforce
  have "acTier (svActivation ex_server) \<noteq> TierPro" "acTier (svActivation ex_server) \<noteq> TierTeam" "aiKeyFile ex_ai_config \<noteq> []"
    by (simp_all add: ex_server_def free_activation_def TierFree_def TierPro_def TierTeam_def ex_ai_config_def)
  then show ?thesis using ai_assist_gated [OF n h, of "[]"] h t(3) g by auto
qed

end
