(* ===== verification/Cmd_Channels.thy ===== *)
theory Cmd_Channels
  imports Http_Api
begin

text \<open>
  cmd/loglight/channels.go: from the command line to the alert channels. The sinks, the evidence modes, the
  formats and the TLS settings belong to the packages \<^verbatim>\<open>hexward-core/hfs\<close> and \<^verbatim>\<open>hexward-core/sink\<close> and
  are in \<open>sink_env\<close>, as are reading a secret file, \<^verbatim>\<open>net.SplitHostPort\<close> and \<^verbatim>\<open>%q\<close>.
\<close>

record channelFlags =
  cgWebhook :: string
  cgWebhookFormat :: string
  cgWebhookSecretFile :: string
  cgSyslogAddr :: string
  cgSyslogNetwork :: string
  cgSyslogFormat :: string
  cgSyslogRFC :: int
  cgSyslogCAFile :: string
  cgExportFile :: string
  cgHecURL :: string
  cgHecTokenFile :: string
  cgHecIndex :: string
  cgHecCAFile :: string
  cgEvidence :: string

text \<open>The values the flags have when they are not given.\<close>

definition registerChannelFlags :: channelFlags where
  "registerChannelFlags =
     \<lparr>cgWebhook = [], cgWebhookFormat = ''v1'', cgWebhookSecretFile = [], cgSyslogAddr = [], cgSyslogNetwork = ''udp'',
      cgSyslogFormat = ''kv'', cgSyslogRFC = 5424, cgSyslogCAFile = [], cgExportFile = [], cgHecURL = [],
      cgHecTokenFile = [], cgHecIndex = [], cgHecCAFile = [], cgEvidence = ''redacted''\<rparr>"

datatype 'tls sink =
    SinkWebhook (skURL: string) (skSecret: string)
  | SinkSyslog (skAddr: string) (skNetwork: string) (skFormat: string) (skRFC: int) (skTLS: "'tls option")
  | SinkFile (skPath: string)
  | SinkHEC (skURL: string) (skToken: string) (skIndex: string) (skTLS: "'tls option")

datatype ('tls, 'meta, 'mode) channel =
    WebhookV1 string string
  | SyslogKV string string
  | HFS "'tls sink" 'meta 'mode

record ('tls, 'mode) sink_env =
  skParseEvidenceMode :: "string \<Rightarrow> 'mode option"
  skReadSecretFile :: "string \<Rightarrow> error + string"
  skFormatJSON :: string
  skFormatCEF :: string
  skSplitHost :: "string \<Rightarrow> string"
  skTLSConfig :: "string \<Rightarrow> string \<Rightarrow> error + 'tls"
  skValidate :: "'tls sink \<Rightarrow> error option"
  skEndpoint :: "'tls sink \<Rightarrow> error option"
  skQuoted :: "string \<Rightarrow> string"

definition webhook_channel :: "('tls, 'mode) sink_env \<Rightarrow> 'meta \<Rightarrow> 'mode \<Rightarrow> channelFlags \<Rightarrow> error + ('tls, 'meta, 'mode) channel list" where
  "webhook_channel env meta mode c =
     (if cgWebhook c = [] then Inr []
      else case (if cgWebhookSecretFile c \<noteq> [] then skReadSecretFile env (cgWebhookSecretFile c) else Inr []) of
             Inl err \<Rightarrow> Inl (Errorf (''-webhook-secret-file: '' @ errString err))
           | Inr secret \<Rightarrow>
               if cgWebhookFormat c = [] \<or> cgWebhookFormat c = ''v1'' then Inr [WebhookV1 (cgWebhook c) secret]
               else if cgWebhookFormat c = ''v2'' then Inr [HFS (SinkWebhook (cgWebhook c) secret) meta mode]
               else Inl (Errorf (''-webhook-format '' @ skQuoted env (cgWebhookFormat c) @ '': want v1 or v2'')))"

definition syslog_channel :: "('tls, 'mode) sink_env \<Rightarrow> 'meta \<Rightarrow> 'mode \<Rightarrow> channelFlags \<Rightarrow> error + ('tls, 'meta, 'mode) channel list" where
  "syslog_channel env meta mode c =
     (if cgSyslogAddr c = [] then Inr []
      else if cgSyslogFormat c = [] \<or> cgSyslogFormat c = ''kv'' then
             (if cgSyslogNetwork c \<noteq> ''udp'' \<and> cgSyslogNetwork c \<noteq> ''tcp''
              then Inl (Errorf (''-syslog-network '' @ skQuoted env (cgSyslogNetwork c) @
                     '' with -syslog-format kv: want udp or tcp (tls needs json or cef)''))
              else Inr [SyslogKV (cgSyslogAddr c) (cgSyslogNetwork c)])
      else if cgSyslogFormat c = skFormatJSON env \<or> cgSyslogFormat c = skFormatCEF env then
             (case (if cgSyslogNetwork c = ''tls''
                    then (case skTLSConfig env (cgSyslogCAFile c) (skSplitHost env (cgSyslogAddr c)) of
                            Inl err \<Rightarrow> Inl (Errorf (''-syslog-ca-file: '' @ errString err)) | Inr tc \<Rightarrow> Inr (Some tc))
                    else Inr None) of
                Inl err \<Rightarrow> Inl err
              | Inr tls \<Rightarrow>
                  let s = SinkSyslog (cgSyslogAddr c) (cgSyslogNetwork c) (cgSyslogFormat c) (cgSyslogRFC c) tls
                  in case skValidate env s of Some err \<Rightarrow> Inl err | None \<Rightarrow> Inr [HFS s meta mode])
      else Inl (Errorf (''-syslog-format '' @ skQuoted env (cgSyslogFormat c) @ '': want kv, json or cef'')))"

definition file_channel :: "'meta \<Rightarrow> 'mode \<Rightarrow> channelFlags \<Rightarrow> ('tls, 'meta, 'mode) channel list" where
  "file_channel meta mode c = (if cgExportFile c \<noteq> [] then [HFS (SinkFile (cgExportFile c)) meta mode] else [])"

definition hec_channel :: "('tls, 'mode) sink_env \<Rightarrow> 'meta \<Rightarrow> 'mode \<Rightarrow> channelFlags \<Rightarrow> error + ('tls, 'meta, 'mode) channel list" where
  "hec_channel env meta mode c =
     (if cgHecURL c = [] then Inr []
      else if cgHecTokenFile c = [] then Inl (Errorf ''-hec-url needs -hec-token-file'')
      else case skReadSecretFile env (cgHecTokenFile c) of
             Inl err \<Rightarrow> Inl (Errorf (''-hec-token-file: '' @ errString err))
           | Inr tok \<Rightarrow>
               (case skEndpoint env (SinkHEC (cgHecURL c) tok (cgHecIndex c) None) of
                  Some err \<Rightarrow> Inl (Errorf (''-hec-url: '' @ errString err))
                | None \<Rightarrow>
                    if cgHecCAFile c = [] then Inr [HFS (SinkHEC (cgHecURL c) tok (cgHecIndex c) None) meta mode]
                    else (case skTLSConfig env (cgHecCAFile c) [] of
                            Inl err \<Rightarrow> Inl (Errorf (''-hec-ca-file: '' @ errString err))
                          | Inr tc \<Rightarrow> Inr [HFS (SinkHEC (cgHecURL c) tok (cgHecIndex c) (Some tc)) meta mode])))"

definition build :: "('tls, 'mode) sink_env \<Rightarrow> 'meta \<Rightarrow> channelFlags \<Rightarrow> error + ('tls, 'meta, 'mode) channel list" where
  "build env meta c =
     (case skParseEvidenceMode env (cgEvidence c) of
        None \<Rightarrow> Inl (Errorf (''-export-evidence '' @ skQuoted env (cgEvidence c) @ '': want redacted or none''))
      | Some mode \<Rightarrow>
          (case webhook_channel env meta mode c of
             Inl err \<Rightarrow> Inl err
           | Inr webhook \<Rightarrow>
               (case syslog_channel env meta mode c of
                  Inl err \<Rightarrow> Inl err
                | Inr syslog \<Rightarrow>
                    (case hec_channel env meta mode c of
                       Inl err \<Rightarrow> Inl err
                     | Inr hec \<Rightarrow> Inr (webhook @ syslog @ file_channel meta mode c @ hec)))))"

text \<open>\<open>def\<close> is the zero value of the mode.\<close>

definition evidenceMode :: "'mode \<Rightarrow> ('tls, 'mode) sink_env \<Rightarrow> channelFlags \<Rightarrow> 'mode" where
  "evidenceMode def env c = (case skParseEvidenceMode env (cgEvidence c) of Some m \<Rightarrow> m | None \<Rightarrow> def)"

subsection \<open>Every destination, or an error\<close>

fun destination :: "('tls, 'meta, 'mode) channel \<Rightarrow> string" where
  "destination (WebhookV1 url _) = url"
| "destination (SyslogKV addr _) = addr"
| "destination (HFS (SinkWebhook url _) _ _) = url"
| "destination (HFS (SinkSyslog addr _ _ _ _) _ _) = addr"
| "destination (HFS (SinkFile path) _ _) = path"
| "destination (HFS (SinkHEC url _ _ _) _ _) = url"

fun channel_mode :: "('tls, 'meta, 'mode) channel \<Rightarrow> 'mode option" where
  "channel_mode (HFS _ _ m) = Some m"
| "channel_mode _ = None"

fun channel_meta :: "('tls, 'meta, 'mode) channel \<Rightarrow> 'meta option" where
  "channel_meta (HFS _ m _) = Some m"
| "channel_meta _ = None"

fun secure :: "('tls, 'meta, 'mode) channel \<Rightarrow> bool" where
  "secure (HFS (SinkSyslog _ network _ _ tls) _ _) \<longleftrightarrow> (network = ''tls'' \<longrightarrow> tls \<noteq> None)"
| "secure (SyslogKV _ network) \<longleftrightarrow> network = ''udp'' \<or> network = ''tcp''"
| "secure _ \<longleftrightarrow> True"

lemma webhook_channel_ok: "webhook_channel env meta mode c = Inr out \<Longrightarrow>
    map destination out = filter (\<lambda>d. d \<noteq> []) [cgWebhook c] \<and> (\<forall>ch\<in>set out. secure ch \<and> channel_mode ch \<in> {None, Some mode} \<and> channel_meta ch \<in> {None, Some meta})"
  by (auto simp: webhook_channel_def split: if_splits sum.splits)

lemma syslog_channel_ok: "syslog_channel env meta mode c = Inr out \<Longrightarrow>
    map destination out = filter (\<lambda>d. d \<noteq> []) [cgSyslogAddr c] \<and> (\<forall>ch\<in>set out. secure ch \<and> channel_mode ch \<in> {None, Some mode} \<and> channel_meta ch \<in> {None, Some meta})"
  by (auto simp: syslog_channel_def Let_def split: if_splits sum.splits option.splits)

lemma file_channel_ok:
  "map destination (file_channel meta mode c) = filter (\<lambda>d. d \<noteq> []) [cgExportFile c] \<and> (\<forall>ch\<in>set (file_channel meta mode c). secure ch \<and> channel_mode ch \<in> {None, Some mode} \<and> channel_meta ch \<in> {None, Some meta})"
  by (simp add: file_channel_def)

lemma hec_channel_ok: "hec_channel env meta mode c = Inr out \<Longrightarrow>
    map destination out = filter (\<lambda>d. d \<noteq> []) [cgHecURL c] \<and> (\<forall>ch\<in>set out. secure ch \<and> channel_mode ch \<in> {None, Some mode} \<and> channel_meta ch \<in> {None, Some meta})"
  by (auto simp: hec_channel_def split: if_splits sum.splits option.splits)

text \<open>C27. Start-up either fails or opens every destination the operator named: the channels are aimed at exactly the
  non-empty destination flags, in the order webhook, syslog, file, Splunk; every schema channel uses
  the one validated evidence mode and the program's own metadata; and a syslog channel over TLS always has its TLS settings.\<close>

theorem build_opens_every_destination:
  assumes "build env meta c = Inr out"
  shows "map destination out = filter (\<lambda>d. d \<noteq> []) [cgWebhook c, cgSyslogAddr c, cgExportFile c, cgHecURL c] \<and>
    (\<exists>mode. skParseEvidenceMode env (cgEvidence c) = Some mode \<and> (\<forall>ch\<in>set out. channel_mode ch \<in> {None, Some mode} \<and> channel_meta ch \<in> {None, Some meta})) \<and>
    (\<forall>ch\<in>set out. secure ch)"
proof -
  from assms obtain mode w s h where m: "skParseEvidenceMode env (cgEvidence c) = Some mode"
    and w: "webhook_channel env meta mode c = Inr w" and s: "syslog_channel env meta mode c = Inr s" and h: "hec_channel env meta mode c = Inr h"
    and out: "out = w @ s @ file_channel meta mode c @ h"
    by (auto simp: build_def split: option.splits sum.splits)
  show ?thesis
    using webhook_channel_ok [OF w] syslog_channel_ok [OF s] hec_channel_ok [OF h] file_channel_ok [of meta mode c] m
    by (auto simp: out)
qed

definition ex_sinks :: "(unit, bool) sink_env" where
  "ex_sinks = \<lparr>skParseEvidenceMode = (\<lambda>s. if s = ''redacted'' then Some True else if s = ''none'' then Some False else None),
     skReadSecretFile = (\<lambda>_. Inr ''s3''), skFormatJSON = ''json'', skFormatCEF = ''cef'', skSplitHost = (\<lambda>s. s), skTLSConfig = (\<lambda>_ _. Inr ()),
     skValidate = (\<lambda>_. None), skEndpoint = (\<lambda>_. None), skQuoted = (\<lambda>s. s)\<rparr>"

theorem build_opens_every_destination_witness:
  "\<exists>out. build ex_sinks () (registerChannelFlags\<lparr>cgWebhook := ''https://hook'', cgSyslogAddr := ''siem:6514'', cgSyslogNetwork := ''tls'', cgSyslogFormat := ''json''\<rparr>) = Inr out \<and>
     map destination out = [''https://hook'', ''siem:6514''] \<and> length out = 2"
proof -
  let ?c = "registerChannelFlags\<lparr>cgWebhook := ''https://hook'', cgSyslogAddr := ''siem:6514'', cgSyslogNetwork := ''tls'', cgSyslogFormat := ''json''\<rparr>"
  have b: "build ex_sinks () ?c = Inr [WebhookV1 ''https://hook'' [], HFS (SinkSyslog ''siem:6514'' ''tls'' ''json'' 5424 (Some ())) () True]"
    by (simp add: build_def webhook_channel_def syslog_channel_def hec_channel_def file_channel_def registerChannelFlags_def ex_sinks_def)
  from build_opens_every_destination [OF b] b show ?thesis by (simp add: registerChannelFlags_def)
qed

text \<open>A setting without its destination is not noticed.\<close>

lemma orphan_settings_pass:
  "build ex_sinks () (registerChannelFlags\<lparr>cgHecTokenFile := ''token'', cgWebhookFormat := ''v3'', cgSyslogFormat := ''yaml''\<rparr>) = Inr []"
  by (simp add: build_def webhook_channel_def syslog_channel_def hec_channel_def file_channel_def registerChannelFlags_def ex_sinks_def)

end
