(* ===== verification/Line_Scanner.thy ===== *)
theory Line_Scanner
  imports Netip
begin

text \<open>
  The \<^verbatim>\<open>bufio.Scanner\<close> that the TCP syslog listener and the command sources read lines with. It is fed the pieces
  the reads return, through a buffer of bounded size, and is proved to depend on their
  concatenation only: \<open>scan_lines\<close> is the reference.
\<close>

subsection \<open>The first line feed\<close>

lemma index_byte_Some:
  assumes "index_byte d s = Some i"
  shows "i < length s" and "s = take i s @ d # drop (Suc i) s" and "d \<notin> set (take i s)"
proof -
  have d: "d \<in> set s" and i: "i = length (takeWhile (\<lambda>x. x \<noteq> d) s)" using assms by (auto simp: index_byte_def split: if_splits)
  show l: "i < length s" unfolding i using d by (induction s) auto
  have "s ! i = d" unfolding i using nth_length_takeWhile [of "\<lambda>x. x \<noteq> d" s] l i by simp
  then show "s = take i s @ d # drop (Suc i) s" using id_take_nth_drop [OF l] by simp
  show "d \<notin> set (take i s)" unfolding i by (auto simp: takeWhile_eq_take [symmetric] dest: set_takeWhileD)
qed

lemma index_byte_None: "index_byte d s = None \<longleftrightarrow> d \<notin> set s"
  by (simp add: index_byte_def)

lemma index_byte_behind: "d \<notin> set f \<Longrightarrow> index_byte d (f @ s) = Some i \<Longrightarrow> length f \<le> i"
  by (induction f arbitrary: i) (auto simp: index_byte_def split: if_splits)

lemma index_byte_split: "d \<notin> set f \<Longrightarrow> index_byte d (f @ d # s) = Some (length f)"
  by (induction f) (auto simp: index_byte_def)

subsection \<open>Lines of a stream\<close>

definition dropCR :: "string \<Rightarrow> string" where
  "dropCR s = (if s \<noteq> [] \<and> last s = CHR 0x0D then butlast s else s)"

text \<open>The buffer of the scanners: \<^verbatim>\<open>1<<20\<close>.\<close>

definition maxToken :: nat where
  "maxToken = 2 ^ 20"

text \<open>The scanner: the unread bytes in its buffer and the pieces that will be read. A line feed in the
  buffer ends a token; a full buffer without one is \<^verbatim>\<open>ErrTooLong\<close> (the flag of the result), and scanning ends;
  otherwise the next piece is read, as much of it as the buffer has room for. What is left at the end of the
  stream is a token too.\<close>

function scanner :: "nat \<Rightarrow> string \<Rightarrow> string list \<Rightarrow> string list \<times> bool" where
  "scanner m buf pieces =
     (case index_byte CHR 0x0A buf of
        Some i \<Rightarrow> apfst ((#) (dropCR (take i buf))) (scanner m (drop (Suc i) buf) pieces)
      | None \<Rightarrow>
          if length buf \<ge> m then ([], True)
          else case pieces of
                 [] \<Rightarrow> (if buf = [] then [] else [dropCR buf], False)
               | c # cs \<Rightarrow>
                   if length c \<le> m - length buf then scanner m (buf @ c) cs
                   else scanner m (buf @ take (m - length buf) c) (drop (m - length buf) c # cs))"
  by pat_completeness auto

termination scanner
  by (relation "measures [\<lambda>(m, buf, cs). length buf + length (concat cs), \<lambda>(m, buf, cs). length (concat cs) + length cs]")
    (auto dest: index_byte_Some)

declare scanner.simps [simp del]

text \<open>The reference: the lines of the whole stream.\<close>

function scan_lines :: "nat \<Rightarrow> string \<Rightarrow> string list \<times> bool" where
  "scan_lines m s =
     (case index_byte CHR 0x0A s of
        Some i \<Rightarrow> if i < m then apfst ((#) (dropCR (take i s))) (scan_lines m (drop (Suc i) s)) else ([], True)
      | None \<Rightarrow> if length s \<ge> m then ([], True) else (if s = [] then [] else [dropCR s], False))"
  by pat_completeness auto
termination scan_lines
  by (relation "measure (\<lambda>(m, s). length s)") (auto dest: index_byte_Some)

declare scan_lines.simps [simp del]

lemma index_byte_in_front: "index_byte d s = Some i \<Longrightarrow> index_byte d (s @ t) = Some i"
  by (metis append.assoc append_Cons index_byte_Some index_byte_split length_take min.absorb4)

lemma take_drop_in: "take k c @ drop k c @ s = c @ s"
  by (metis append.assoc append_take_drop_id)

lemma scanner_lines: "length buf \<le> m \<Longrightarrow> scanner m buf pieces = scan_lines m (buf @ concat pieces)"
proof (induction m buf pieces rule: scanner.induct)
  case (1 m buf pieces)
  show ?case
  proof (cases "index_byte CHR 0x0A buf")
    case (Some i)
    then have i: "i < length buf" by (simp add: index_byte_Some)
    with 1(4) have "i < m" "scanner m (drop (Suc i) buf) pieces = scan_lines m (drop (Suc i) buf @ concat pieces)"
      using 1(3) [OF Some] by simp_all
    then show ?thesis
      using i by (simp add: scanner.simps [of m buf] scan_lines.simps [of m "buf @ _"] Some index_byte_in_front [OF Some])
  next
    case None
    then have b: "CHR 0x0A \<notin> set buf" by (simp add: index_byte_None)
    show ?thesis
    proof (cases "length buf \<ge> m")
      case True
      have "m \<le> i" if "index_byte CHR 0x0A (buf @ concat pieces) = Some i" for i
        using index_byte_behind [OF b that] True by simp
      then show ?thesis using True by (auto simp: scanner.simps [of m buf] scan_lines.simps [of m "buf @ _"] None split: option.splits)
    next
      case False
      show ?thesis
      proof (cases pieces)
        case Nil
        then show ?thesis using False None by (simp add: scanner.simps [of m buf] scan_lines.simps [of m buf])
      next
        case (Cons c cs)
        show ?thesis
          using 1(1,2) [OF None False Cons] Cons False None
          by (auto simp: scanner.simps [of m buf] take_drop_in)
      qed
    qed
  qed
qed

text \<open>A stream of frames, each ended by a line feed and shorter than the buffer, is cut into exactly those
  frames, however the reads divide it; a line that does not fit ends the scan with it.\<close>

lemma scan_lines_frames:
  assumes "\<forall>f\<in>set fs. CHR 0x0A \<notin> set f \<and> length f < m" and "0 < m"
  shows "scan_lines m (concat (map (\<lambda>f. f @ [CHR 0x0A]) fs)) = (map dropCR fs, False)"
  using assms
proof (induction fs)
  case Nil
  then show ?case by (simp add: scan_lines.simps [of m "[]"] index_byte_def)
next
  case (Cons f fs)
  then show ?case by (simp add: scan_lines.simps [of m "f @ _"] index_byte_split)
qed

lemma scanner_frames:
  assumes "\<forall>f\<in>set fs. CHR 0x0A \<notin> set f \<and> length f < m" and "0 < m" and "concat pieces = concat (map (\<lambda>f. f @ [CHR 0x0A]) fs)"
  shows "scanner m [] pieces = (map dropCR fs, False)"
  using scanner_lines [of "[]" m pieces] scan_lines_frames [OF assms(1,2)] assms(3) by simp

lemma scanner_stops:
  assumes "CHR 0x0A \<notin> set f" and "m \<le> length f" and "concat pieces = f @ s"
  shows "scanner m [] pieces = ([], True)"
proof -
  have "m \<le> i" if "index_byte CHR 0x0A (f @ s) = Some i" for i
    using index_byte_behind [OF assms(1) that] assms(2) by simp
  then show ?thesis
    using scanner_lines [of "[]" m pieces] assms(2,3) by (auto simp: scan_lines.simps [of m "f @ s"] split: option.splits)
qed

end
