(* ===== verification/Listeners.thy ===== *)
theory Listeners
  imports Line_Scanner Http_Api Syslog_Loop Ingest Netflow_Laws Traffic
begin

text \<open>
  The loops that read from the outside: logingest/syslog_source.go, logingest/command_source.go, the
  receive loop of netflow/source.go and the flusher of traffic/graph.go. What the operating system does
  is an argument: the outcome of binding a socket or starting a command, and the sequence of what the
  reads return. A sequence that ends stands for a loop that is still waiting, and its result is \<open>None\<close>.
\<close>

subsection \<open>Syslog over TCP (logingest/syslog_source.go)\<close>

text \<open>The body of the loops over a scanner: \<open>alive k\<close> says whether the context is alive when the \<open>k\<close>-th line
  is read.\<close>

fun emit_while :: "(nat \<Rightarrow> bool) \<Rightarrow> (nat \<Rightarrow> string \<Rightarrow> Event) \<Rightarrow> nat \<Rightarrow> string list \<Rightarrow> Event list" where
  "emit_while alive ev k [] = []"
| "emit_while alive ev k (l # ls) = (if alive k then ev k l # emit_while alive ev (Suc k) ls else [])"

definition handleConn ::
    "parse_env \<Rightarrow> SyslogSource \<Rightarrow> (nat \<Rightarrow> time) \<Rightarrow> (nat \<Rightarrow> bool) \<Rightarrow> string list \<Rightarrow> Event list" where
  "handleConn env s now alive pieces =
     emit_while alive (\<lambda>k l. SyslogSource_event env s (now k) l) 0 (fst (scanner maxToken [] pieces))"

text \<open>What \<open>Accept\<close> returns: an error, or a connection given by its clock, the life of its context and its bytes.
  The result has the events of each connection; the connections are served concurrently.\<close>

type_synonym conn = "(nat \<Rightarrow> time) \<times> (nat \<Rightarrow> bool) \<times> string list"

fun accept_loop ::
    "parse_env \<Rightarrow> SyslogSource \<Rightarrow> error option \<Rightarrow> (error + conn) list \<Rightarrow> Event list list \<times> error option" where
  "accept_loop env s ctx [] = ([], None)"
| "accept_loop env s ctx (Inl err # as) = ([], Some (case ctx of Some e \<Rightarrow> e | None \<Rightarrow> err))"
| "accept_loop env s ctx (Inr (now, alive, pieces) # as) = apfst ((#) (handleConn env s now alive pieces)) (accept_loop env s ctx as)"

definition runTCP ::
    "parse_env \<Rightarrow> SyslogSource \<Rightarrow> error option \<Rightarrow> error option \<Rightarrow> (error + conn) list \<Rightarrow> Event list list \<times> error option" where
  "runTCP env s bound ctx conns = (case bound of Some err \<Rightarrow> ([], Some err) | None \<Rightarrow> accept_loop env s ctx conns)"

text \<open>Over UDP a datagram is one message; the buffer of 64 KiB cuts a longer one. Each read comes with the time
  it returned.\<close>

fun udp_loop ::
    "parse_env \<Rightarrow> SyslogSource \<Rightarrow> error option \<Rightarrow> (error + time \<times> string) list \<Rightarrow> Event list \<times> error option" where
  "udp_loop env s ctx [] = ([], None)"
| "udp_loop env s ctx (Inl err # rs) = ([], Some (case ctx of Some e \<Rightarrow> e | None \<Rightarrow> err))"
| "udp_loop env s ctx (Inr (now, d) # rs) =
     apfst ((#) (SyslogSource_event env s now (take (64 * 1024) d))) (udp_loop env s ctx rs)"

definition runUDP ::
    "parse_env \<Rightarrow> SyslogSource \<Rightarrow> error option \<Rightarrow> error option \<Rightarrow> (error + time \<times> string) list \<Rightarrow> Event list \<times> error option" where
  "runUDP env s bound ctx reads = (case bound of Some err \<Rightarrow> ([], Some err) | None \<Rightarrow> udp_loop env s ctx reads)"

text \<open>\<open>Run\<close>: the errors its \<open>select\<close> may return, given the error of a cancelled context and how each listener ended.\<close>

definition SyslogSource_Run :: "SyslogSource \<Rightarrow> error option \<Rightarrow> error option \<Rightarrow> error option \<Rightarrow> error list" where
  "SyslogSource_Run s ctx udp tcp =
     (let opt = (\<lambda>x. case x of None \<Rightarrow> [] | Some e \<Rightarrow> [e])
      in opt ctx @ (if ssUDPAddr s \<noteq> [] then opt udp else []) @ (if ssTCPAddr s \<noteq> [] then opt tcp else []))"

subsection \<open>Commands (logingest/command_source.go)\<close>

text \<open>A child process: whether its pipe and its start fail, its output, the life of the context, and what
  waiting for it returns, given whether output was left unread (\<open>None\<close>: it never exits, being
  blocked on the full pipe).\<close>

record child =
  chPipe :: "error option"
  chStart :: "error option"
  chOut :: "string list"
  chLive :: "nat \<Rightarrow> bool"
  chWait :: "bool \<Rightarrow> error option option"

definition CommandSource_Run ::
    "parse_env \<Rightarrow> CommandSource \<Rightarrow> (nat \<Rightarrow> time) \<Rightarrow> (string \<Rightarrow> string list \<Rightarrow> child) \<Rightarrow> Event list \<times> error option option" where
  "CommandSource_Run env c now spawn =
     (let p = spawn (cmName c) (cmArgs c)
      in case chPipe p of
           Some err \<Rightarrow> ([], Some (Some err))
         | None \<Rightarrow>
             (case chStart p of
                Some err \<Rightarrow> ([], Some (Some err))
              | None \<Rightarrow>
                  (let (ls, tooLong) = scanner maxToken [] (chOut p);
                       es = emit_while (chLive p) (\<lambda>k l. ParseLine env (cmKind c) (cmSourceID c) (cmHost c) (cmApp c) l (now k)) 0 ls
                   in (es, chWait p (tooLong \<or> length es < length ls)))))"

subsection \<open>Flow datagrams (netflow/source.go)\<close>

text \<open>The receive loop: a read error ends it when the context is done and is skipped otherwise. A read comes
  with the sender, the clock and the wall clock. \<open>None\<close> is a panic of the decoder; the flag says that the
  loop has returned.\<close>

fun netflow_loop ::
    "string \<Rightarrow> (error \<times> bool + u8 list \<times> string \<times> time \<times> time) list \<Rightarrow> TemplateCache
      \<Rightarrow> ((Flow \<times> Event) list \<times> TemplateCache \<times> bool) option" where
  "netflow_loop sid [] tc = Some ([], tc, False)"
| "netflow_loop sid (Inl (err, cancelled) # rs) tc = (if cancelled then Some ([], tc, True) else netflow_loop sid rs tc)"
| "netflow_loop sid (Inr (d, from, now, wall) # rs) tc =
     (case UDPSource_datagram sid (take 65535 d) from now wall tc of
        None \<Rightarrow> None
      | Some (fes, tc) \<Rightarrow>
          (case netflow_loop sid rs tc of
             None \<Rightarrow> None
           | Some (fes', tc, stopped) \<Rightarrow> Some (fes @ fes', tc, stopped)))"

definition UDPSource_Run ::
    "string \<Rightarrow> string \<Rightarrow> TemplateCache option \<Rightarrow> error option \<Rightarrow> (error \<times> bool + u8 list \<times> string \<times> time \<times> time) list
      \<Rightarrow> error + ((Flow \<times> Event) list \<times> TemplateCache \<times> bool) option" where
  "UDPSource_Run sid addr templates bound reads =
     (let tc = (case templates of Some tc \<Rightarrow> tc | None \<Rightarrow> NewTemplateCache)
      in case bound of
           Some err \<Rightarrow> Inl (Errorf (''netflow listen '' @ addr @ '': '' @ errString err))
         | None \<Rightarrow> Inr (netflow_loop sid reads tc))"

subsection \<open>The flusher (traffic/graph.go)\<close>

text \<open>\<open>RunFlusher\<close> between the observations of other goroutines: a tick and the closing of \<open>stop\<close> are inputs, each
  with the outcome of its transaction. The flag says that the flusher has returned.\<close>

datatype flusher_step = FObserve time Flow "error option" | FTick "error option" | FStop "error option"

definition flusher_interval :: "duration \<Rightarrow> duration" where
  "flusher_interval d = (if d \<le> 0 then 5 * second else d)"

fun RunFlusher :: "edge_order \<Rightarrow> flusher_step list \<Rightarrow> Graph \<Rightarrow> Graph \<times> bool" where
  "RunFlusher iter [] g = (g, False)"
| "RunFlusher iter (FObserve now f dberr # xs) g = RunFlusher iter xs (Graph_Observe iter dberr now g f)"
| "RunFlusher iter (FTick dberr # xs) g = RunFlusher iter xs (snd (Flush iter dberr g))"
| "RunFlusher iter (FStop dberr # xs) g = (snd (Flush iter dberr g), True)"

subsection \<open>How a stream is divided does not matter\<close>

lemma emit_while_all: "(\<And>k. alive k) \<Longrightarrow> emit_while alive ev k ls = map (\<lambda>(i, l). ev i l) (enumerate k ls)"
  by (induction ls arbitrary: k) simp_all

lemma handleConn_stream: "concat pieces = concat pieces' \<Longrightarrow> handleConn env s now alive pieces = handleConn env s now alive pieces'"
  using scanner_lines [of "[]" maxToken] by (simp add: handleConn_def)

text \<open>The frames of the syslog channel as the scanner sees them.\<close>

definition framed :: "string \<Rightarrow> bool" where
  "framed l \<longleftrightarrow> (\<exists>f. l = f @ nl \<and> CHR 0x0A \<notin> set f \<and> dropCR f = f)"

lemma dropCR_text: "CHR 0x0D \<notin> set msg \<Longrightarrow> dropCR (a @ CHR '' '' # msg) = a @ CHR '' '' # msg"
  by (cases msg rule: rev_cases) (auto simp: dropCR_def)

lemma syslog_line_framed:
  assumes "CHR 0x0A \<notin> set ts" and "CHR 0x0A \<notin> set host" and "CHR 0x0A \<notin> set tg" and "set msg \<inter> {CHR 0x00, CHR 0x0A, CHR 0x0D} = {}"
  shows "framed (syslog_line pri ts host tg pid msg)"
proof -
  let ?a = "''<'' @ itoa pri @ ''>'' @ ts @ '' '' @ host @ '' '' @ tg @ ''['' @ itoa pid @ '']:''"
  have "syslog_line pri ts host tg pid msg = (?a @ CHR '' '' # msg) @ nl" by (simp add: syslog_line_def)
  moreover have "CHR 0x0A \<notin> set (?a @ CHR '' '' # msg)" using assms itoa_no_nl [of pri] itoa_no_nl [of pid] by auto
  moreover have "dropCR (?a @ CHR '' '' # msg) = ?a @ CHR '' '' # msg" using assms(4) by (intro dropCR_text) blast
  ultimately show ?thesis unfolding framed_def by blast
qed

lemma channel_lines_framed:
  assumes "CHR 0x0A \<notin> set (syslog_host os ch)" and "CHR 0x0A \<notin> set (if slTag ch = [] then dgModule d else slTag ch)"
    and "\<And>t. CHR 0x0A \<notin> set (osStamp os t)" and "l \<in> set (SyslogChannel_lines os ch d)"
  shows "framed l"
proof -
  have "set (syslogMessage m f r) \<inter> {CHR 0x00, CHR 0x0A, CHR 0x0D} = {}" for m f r
    by (simp add: syslogMessage_def Let_def sanitizeSyslog_clean)
  then have "framed (syslog_line pri (osStamp os t) (syslog_host os ch) (if slTag ch = [] then dgModule d else slTag ch) pid (syslogMessage m f r))"
    for pri t pid m f r using assms(1-3) by (intro syslog_line_framed)
  then show ?thesis using assms(4) by (auto simp: SyslogChannel_lines_def Let_def)
qed

lemma framed_lines:
  assumes "\<forall>l\<in>set ls. framed l \<and> length l \<le> m" and "0 < m" and "concat pieces = concat ls"
  shows "scanner m [] pieces = (map butlast ls, False)"
proof -
  have b: "\<forall>l\<in>set ls. l = butlast l @ [CHR 0x0A] \<and> CHR 0x0A \<notin> set (butlast l) \<and> length (butlast l) < m \<and> dropCR (butlast l) = butlast l"
    using assms(1) by (fastforce simp: framed_def nl_def butlast_append)
  then have "map (\<lambda>f. f @ [CHR 0x0A]) (map butlast ls) = ls" by (auto intro: map_idI)
  with b assms(2,3) have "scanner m [] pieces = (map dropCR (map butlast ls), False)" by (intro scanner_frames) auto
  with b show ?thesis by simp
qed

lemma write_lines_sent: "write_lines w k ls = (None, sent) \<Longrightarrow> sent = ls"
  by (induction ls arbitrary: k sent) (auto simp: apsnd_def map_prod_def split: option.splits prod.splits)

text \<open>C15. What one product sends over TCP the other receives, once and in order, however the network divides it. When the
  syslog channel reports a digest as sent, and the bytes it wrote reach a syslog listener in any pieces, the listener
  emits exactly one event per finding of the digest, in order: the \<open>k\<close>-th is the parse of the \<open>k\<close>-th frame without its line
  feed. No title, target or evidence of a finding can add, remove or join events.\<close>

theorem digest_arrives_over_tcp:
  assumes "CHR 0x0A \<notin> set (syslog_host os ch)" and "CHR 0x0A \<notin> set (if slTag ch = [] then dgModule d else slTag ch)"
    and "\<forall>t. CHR 0x0A \<notin> set (osStamp os t)" and "\<forall>l\<in>set (SyslogChannel_lines os ch d). length l \<le> 2 ^ 20"
    and "SyslogChannel_Send os dial write ch d = (None, sent)" and "concat pieces = concat sent" and "\<forall>k. alive k"
  shows "handleConn env s now alive pieces = map (\<lambda>(k, l). SyslogSource_event env s (now k) (butlast l)) (enumerate 0 sent) \<and>
    length sent = length (dgOpened d) + length (dgResolved d)"
proof -
  have sent: "sent = SyslogChannel_lines os ch d"
    using assms(5) write_lines_sent
    by (auto simp: SyslogChannel_Send_def Empty_def SyslogChannel_lines_def Let_def split: if_splits option.splits)
  then have "\<forall>l\<in>set sent. framed l \<and> length l \<le> maxToken"
    using channel_lines_framed [OF assms(1,2)] assms(3,4) by (auto simp: maxToken_def)
  from framed_lines [OF this _ assms(6)] have "scanner maxToken [] pieces = (map butlast sent, False)" by (simp add: maxToken_def)
  then have "handleConn env s now alive pieces = map (\<lambda>(k, l). SyslogSource_event env s (now k) (butlast l)) (enumerate 0 sent)"
    using assms(7) by (simp add: handleConn_def emit_while_all enumerate_map_upt zip_map2 enumerate_eq_zip comp_def case_prod_beta)
  then show ?thesis using sent by (simp add: SyslogChannel_lines_def Let_def)
qed

lemma itoa_priority_length: "length (itoa (128 + syslogSeverity sv)) \<le> 3"
proof -
  have "0 \<le> syslogSeverity sv \<and> syslogSeverity sv \<le> 6" by (simp add: syslogSeverity_def Let_def)
  then show ?thesis using digits_of_length [of "128 + syslogSeverity sv"] by (simp add: itoa_def)
qed

lemma ex_digest_short: "\<forall>l\<in>set (SyslogChannel_lines ex_os ex_syslog ex_digest). length l \<le> 2 ^ 20"
proof -
  have m: "length (syslogMessage m f r) \<le> 1603" for m f r by (simp add: syslogMessage_def Let_def sanitizeSyslog_length)
  let ?f = "ex_finding\<lparr>fTitle := ''bait'' @ nl @ ''<0>forged''\<rparr>"
  have "SyslogChannel_lines ex_os ex_syslog ex_digest =
      [syslog_line (128 + syslogSeverity (fSeverity ?f)) ''Jan  1 00:00:00'' ''gw'' ''decoy'' 7 (syslogMessage ''decoy'' ?f False)]"
    by (simp add: SyslogChannel_lines_def syslog_host_def ex_os_def ex_syslog_def ex_digest_def Let_def)
  moreover have "length (itoa 7) = 1" by (simp add: itoa_def digits_of_small)
  ultimately show ?thesis
    using m [of "''decoy''" ?f False] itoa_priority_length [of "fSeverity ?f"] by (simp add: syslog_line_def nl_def)
qed

theorem digest_arrives_over_tcp_witness:
  "length (handleConn ex_parse_env \<lparr>ssSourceID = ''lab'', ssUDPAddr = [], ssTCPAddr = ''0.0.0.0:5514'', ssKind = SourceSyslog\<rparr>
     (\<lambda>_. 5) (\<lambda>_. True) (map (\<lambda>c. [c]) (concat (SyslogChannel_lines ex_os ex_syslog ex_digest)))) = 1"
proof -
  have w: "write_lines (\<lambda>_. None) k ls = (None, ls)" for k ls by (induction ls arbitrary: k) simp_all
  have c: "concat (map (\<lambda>c. [c]) xs) = xs" for xs :: string by (induction xs) simp_all
  have sent: "SyslogChannel_Send ex_os (\<lambda>_ _. None) (\<lambda>_. None) ex_syslog ex_digest = (None, SyslogChannel_lines ex_os ex_syslog ex_digest)"
    by (simp add: SyslogChannel_Send_def Empty_def ex_digest_def w)
  show ?thesis
    using digest_arrives_over_tcp [OF _ _ _ ex_digest_short sent c, of "\<lambda>_. True"]
    by (simp add: ex_os_def ex_syslog_def syslog_host_def) (simp add: ex_digest_def)
qed

subsection \<open>A line that does not fit\<close>

text \<open>A line of a mebibyte or more ends the connection: neither it nor anything after it is emitted.\<close>

lemma overlong_line_ends_connection:
  assumes "CHR 0x0A \<notin> set f" and "2 ^ 20 \<le> length f" and "concat pieces = f @ nl @ rest"
  shows "handleConn env s now alive pieces = []"
  using scanner_stops [OF assms(1) _ assms(3), of maxToken] assms(2) by (simp add: handleConn_def maxToken_def)

text \<open>And it leaves a command source waiting for a child whose output nobody reads.\<close>

lemma overlong_line_strands_command:
  assumes "CHR 0x0A \<notin> set f" and "2 ^ 20 \<le> length f" and "concat (chOut (spawn (cmName c) (cmArgs c))) = f @ nl @ rest"
    and "chPipe (spawn (cmName c) (cmArgs c)) = None" and "chStart (spawn (cmName c) (cmArgs c)) = None"
  shows "CommandSource_Run env c now spawn = ([], chWait (spawn (cmName c) (cmArgs c)) True)"
  using scanner_stops [OF assms(1) _ assms(3), of maxToken] assms(2,4,5) by (simp add: CommandSource_Run_def maxToken_def Let_def)

subsection \<open>The other loops\<close>

lemma netflow_loop_no_panic: "\<exists>fes tc' stopped. netflow_loop sid rs tc = Some (fes, tc', stopped)"
proof (induction sid rs tc rule: netflow_loop.induct)
  case (3 sid d peer now wall rs tc)
  obtain fes tc1 where "UDPSource_datagram sid (take 65535 d) peer now wall tc = Some (fes, tc1)"
    using ParseDatagram_total [of "take 65535 d" "case SplitHostPort peer of None \<Rightarrow> peer | Some (h, _) \<Rightarrow> h" now "Some tc"]
    by (auto simp: UDPSource_datagram_def)
  with 3 show ?case by fastforce
qed auto

lemma flusher_saves_at_stop: "RunFlusher iter (xs @ [FStop None]) g = (g', True) \<Longrightarrow> (\<forall>e. FStop e \<notin> set xs) \<Longrightarrow> gPend g' = []"
proof (induction xs arbitrary: g)
  case Nil
  then show ?case by (auto simp: Flush_def Let_def)
next
  case (Cons x xs)
  then show ?case by (cases x) auto
qed

end
