(* ===== verification/Spec2Isabelle.thy ===== *)
theory Spec2Isabelle
  imports Ulid Engine_Laws Netflow_Laws Traffic License Sqlite_Store Loglight Syslog_Loop Ingest Verify_Domain App Ai_Assist Cmd_Channels Listeners
begin

text \<open>
  A verification development for Loglight, a log and flow monitor written in Go.

  \<^bold>\<open>The program.\<close> Sources (a tailed file, a syslog listener, a follow command, a NetFlow socket) turn lines
  and datagrams into normalized events. The real-time path A (\<^verbatim>\<open>loglight/pipeline.go\<close>) gives each event to the
  detector engine, each detection to the kill-chain correlator, writes what fired into the detection
  store and the findings store, and notifies at once. The poll-driven path B is a collector that the
  scheduler runs per target; its findings go through the reconcile engine, which opens, refreshes, ages and
  resolves the stored findings, and what changed goes through the dispatcher to the channels. A web server and a
  console serve the dashboard over the same stores; a license decides the limits; an optional assistant
  narrates one finding at a time. \<^verbatim>\<open>cmd/loglight/main.go\<close> wires the parts together and restores them after a restart.

  \<^bold>\<open>The library.\<close> The prelude and the Go libraries the sources use:
  \<^item> \<open>Go_Base\<close>: time and durations (\<open>Sub\<close> saturates), 64-bit wrap-around, maps as association lists with an
    explicit iteration order, strings, decimal printing; \<open>Trim_Laws\<close>, \<open>Utf8\<close>, \<open>Regexp\<close> (leftmost-first matching),
    \<open>Go_Time\<close> (calendar, \<^verbatim>\<open>time.Parse\<close>), \<open>Netip\<close>, \<open>Byte_Words\<close>, \<open>Sha256\<close>, \<open>Float64\<close> (binary64 on rationals),
    \<open>Line_Scanner\<close> (\<^verbatim>\<open>bufio.Scanner\<close>), \<open>Http_Api\<close> (replies).

  The components, in the order of the data:
  \<^item> \<open>Log_Event\<close>, \<open>Log_Parse\<close>, \<open>Log_Parse_Laws\<close>: \<^verbatim>\<open>logingest/event.go, syslog.go, fields.go, vendor.go\<close>. Every parsed
    event is in range and keeps its origin and raw text.
  \<^item> \<open>Ingest\<close>: \<^verbatim>\<open>logingest/engine.go, source.go\<close>, \<^verbatim>\<open>loglight/sources.go\<close>. At most one live instance per source, exact parse rates,
    and a tailer that emits what is appended exactly once; \<open>Listeners\<close>: the reading loops of \<^verbatim>\<open>syslog_source.go,
    command_source.go\<close>, \<^verbatim>\<open>netflow/source.go\<close> and the flusher of \<^verbatim>\<open>traffic/graph.go\<close>.
  \<^item> \<open>Netflow\<close>, \<open>Netflow_Laws\<close>: \<^verbatim>\<open>netflow/\<close>. No datagram makes the decoder fail; version 5 is read back exactly. \<open>Traffic\<close>:
    \<^verbatim>\<open>traffic/graph.go\<close>. Buffer and table conserve the flows; the map is exact.
  \<^item> \<open>Window\<close>, \<open>Firing\<close>, \<open>Detectors\<close>, \<open>Detector_Laws\<close>, \<open>Engine_Laws\<close>: \<^verbatim>\<open>detect/\<close>. The pruned windows equal references over the whole
    history; every detector satisfies the locale \<open>detector\<close>, which extends to \<open>firing\<close>, so what it announces is spaced by its
    cooldown; the brute-force detector refines a specification over the complete log.
  \<^item> \<open>Correlate\<close>: \<^verbatim>\<open>correlate/correlate.go\<close>, a state machine with a reachability relation; its incidents refine the log.
  \<^item> \<open>Core_Finding\<close>, \<open>Finding_Store\<close>, \<open>Sqlite_Store\<close>, \<open>Reconcile\<close>, \<open>Ulid\<close>: \<^verbatim>\<open>core/\<close> and \<^verbatim>\<open>store/\<close>. The locale \<open>finding_store\<close> is
    the contract of a store, interpreted on the in-memory and the SQL one; Reconcile on either refines a specification per fingerprint.
  \<^item> \<open>Log_Store\<close>, \<open>Loglight\<close>: \<^verbatim>\<open>loglight/memstore.go, sqlite.go, loglight.go, pipeline.go\<close>, over the locale \<open>detection_store\<close>. What path A
    detects is open afterwards; path B resolves it when it has been quiet for the active window.
  \<^item> \<open>Sched\<close>: \<^verbatim>\<open>sched/scheduler.go\<close>. Goroutines, worker slots and the clock are a step relation; backoff and the number of
    workers hold in every interleaving. \<open>Notify\<close>, \<open>Channels\<close>, \<open>Syslog_Loop\<close>, \<open>Cmd_Channels\<close>: \<^verbatim>\<open>notify/\<close>, \<^verbatim>\<open>hfsbridge/\<close>,
    \<^verbatim>\<open>cmd/loglight/channels.go\<close>. Each transition is in exactly one digest per channel; a digest is one frame per finding, arrives as one
    event per finding over TCP however the bytes are divided, and is parsed back into what it was made of.
  \<^item> \<open>License\<close>, \<open>Verify_Domain\<close>: \<^verbatim>\<open>license/\<close>, \<^verbatim>\<open>verify/\<close>, \<^verbatim>\<open>store/verify_sqlite.go\<close>. Sign and Verify are inverse, no key grants more
    than it says; a challenge is satisfied by its own token only (locale \<open>challenge_store\<close> for its two stores).
  \<^item> \<open>Console\<close>, \<open>Web_Server\<close>, \<open>App\<close>: \<^verbatim>\<open>loglight/console.go\<close>, \<^verbatim>\<open>web/server.go\<close>, \<^verbatim>\<open>store/targets.go\<close>, \<^verbatim>\<open>cmd/loglight/main.go\<close>, over the
    locales \<open>source_store\<close> and \<open>triage_store\<close>. A triage request changes one status; the activation in force is the one on
    disk; the stored sources, the scheduler, the ingest engine and the saved targets stay in step and survive a restart.
  \<^item> \<open>Ai_Client\<close>, \<open>Ai_Explain\<close>, \<open>Ai_Assist\<close>: \<^verbatim>\<open>internal/aiclient/\<close>, \<^verbatim>\<open>web/ai.go\<close>. What is sent is bounded and free of secrets; asking
    ends; the assistant is off, local or paid for.

  \<^bold>\<open>Correspondence.\<close> A struct is a record with a field per field (two letters of prefix), an enum of strings stays a string, an
  operation is a definition with the name of the function, prefixed by its type where several have it. A method that changes
  its receiver returns the changed record; an error is \<open>Inl\<close> or \<open>Some\<close>; a panic is \<open>None\<close>. A handler takes the decoded
  request and the state and returns a reply and the state. A database table is a list of rows, a statement a function on it.

  \<^bold>\<open>Parameters.\<close> What is not in the repository is an argument: the clock, \<^verbatim>\<open>crypto/rand\<close>, Ed25519, JSON encoding and decoding, the errors
  of the database driver and the order of unordered results, the iteration order of Go maps (any permutation), DNS, HTTP and
  sockets, files, \<^verbatim>\<open>%q\<close>, \<^verbatim>\<open>strconv.FormatFloat\<close>, the local year, and the packages \<^verbatim>\<open>hexward-core/hfs\<close> and
  \<^verbatim>\<open>hexward-core/sink\<close>. Theorems that need something of them say so: that the decoder reads back what the encoder wrote, that a
  signature verifies under its own key, that an order is a permutation, that the database works. The witnesses instantiate them.
  Lower-casing is defined for ASCII letters and the two other runes whose lower case is ASCII; the rest, which the comparisons with ASCII
  words never see, are left alone.

  \<^bold>\<open>Bounds and fuel.\<close> Integers wrap where the sources' \<open>int64\<close> can overflow (sums of bytes, window sums); the decoder and the identifiers
  work on words. Fuel appears in the UTF-8 decoder and in \<open>find_all\<close>, where it is the length of the string (each step
  consumes a byte), in the trimming loops likewise, and in the retry loops, where it is the number of attempts the
  code allows. Every other loop is total by its own measure.

  \<^bold>\<open>Not modelled.\<close> Opening the database and its schema text, \<^verbatim>\<open>VACUUM\<close>, flag parsing, signals, the listening HTTP server, routing and the
  static files; the operating system's inode number (an input of the tailer); \<^verbatim>\<open>GenerateKeypair\<close>, which only calls the library; the
  tickers, whose firings are inputs; the types of \<^verbatim>\<open>aiclient/types.go\<close> that only other products use; and locks: a step of
  the model is what the code does under one lock.
\<close>

end
